theory Spec2Isabelle
  imports Main "HOL-Library.Sublist"
begin

section \<open>Strings and paths\<close>

text \<open>
  Go strings are byte strings; they are modelled as \<open>string\<close> (a list of \<open>char\<close>, one per
  byte). The functions of this section are the ones of Go's \<open>strings\<close> and
  \<open>path/filepath\<close> packages (Unix flavour) that the program calls; they are written from the
  documented behaviour of those packages.
\<close>

text \<open>\<open>strings.Split(s, sep)\<close> for a one-byte separator.\<close>

fun Split :: "string \<Rightarrow> char \<Rightarrow> string list" where
  "Split [] c = [[]]"
| "Split (x # xs) c =
     (if x = c then [] # Split xs c
      else (case Split xs c of [] \<Rightarrow> [[x]] | w # ws \<Rightarrow> (x # w) # ws))"

text \<open>\<open>strings.Join(elems, sep)\<close>.\<close>

fun Join :: "string list \<Rightarrow> string \<Rightarrow> string" where
  "Join [] sep = []"
| "Join [x] sep = x"
| "Join (x # y # ys) sep = x @ sep @ Join (y # ys) sep"

text \<open>\<open>strings.HasPrefix(s, p)\<close> is \<open>prefix p s\<close>; \<open>strings.Contains(s, sub)\<close>:\<close>

fun Contains :: "string \<Rightarrow> string \<Rightarrow> bool" where
  "Contains [] sub = (sub = [])"
| "Contains (c # cs) sub = (prefix sub (c # cs) \<or> Contains cs sub)"

text \<open>\<open>strings.Count(s, sub)\<close>: the number of non-overlapping occurrences of a non-empty
  \<open>sub\<close>, found from the left.\<close>

function Count :: "string \<Rightarrow> string \<Rightarrow> nat" where
  "Count [] sub = 0"
| "Count (c # cs) sub =
     (if sub \<noteq> [] \<and> prefix sub (c # cs) then Suc (Count (drop (length sub) (c # cs)) sub)
      else Count cs sub)"
  by pat_completeness auto
termination
  by (relation "measure (\<lambda>(s, sub). length s)") auto

text \<open>\<open>strings.TrimRight(s, "\n")\<close>: all trailing newline bytes are removed.\<close>

definition TrimRightNL :: "string \<Rightarrow> string" where
  "TrimRightNL s = rev (dropWhile (\<lambda>c. c = CHR ''\<newline>'') (rev s))"

text \<open>
  \<open>filepath.Clean\<close>: purely lexical normalisation. Empty and \<open>.\<close> elements are dropped, an
  inner \<open>..\<close> cancels the element before it, a \<open>..\<close> at the start of a rooted path is
  dropped, a \<open>..\<close> at the start of a relative path is kept. The second argument of
  \<open>cleanElems\<close> is the output so far, last element first.
\<close>

fun cleanElems :: "bool \<Rightarrow> string list \<Rightarrow> string list \<Rightarrow> string list" where
  "cleanElems rooted out [] = rev out"
| "cleanElems rooted out (e # es) =
     (if e = [] \<or> e = ''.'' then cleanElems rooted out es
      else if e = ''..'' then
        (case out of
           [] \<Rightarrow> if rooted then cleanElems rooted [] es else cleanElems rooted [''..''] es
         | e' # out' \<Rightarrow>
             if e' = ''..'' then cleanElems rooted (''..'' # out) es
             else cleanElems rooted out' es)
      else cleanElems rooted (e # out) es)"

definition IsAbs :: "string \<Rightarrow> bool" where
  "IsAbs p = prefix ''/'' p"

definition Clean :: "string \<Rightarrow> string" where
  "Clean p =
     (let out = Join (cleanElems (IsAbs p) [] (Split p (CHR ''/''))) ''/''
      in if IsAbs p then ''/'' @ out else if out = [] then ''.'' else out)"

text \<open>\<open>filepath.Join\<close>: empty elements are ignored, the rest is joined with the separator
  and cleaned; with no non-empty element the result is the empty string.\<close>

definition filepath_Join :: "string list \<Rightarrow> string" where
  "filepath_Join elems =
     (let ne = filter (\<lambda>e. e \<noteq> []) elems
      in if ne = [] then [] else Clean (Join ne ''/''))"

text \<open>\<open>filepath.Dir\<close>: everything up to and including the last separator, cleaned.\<close>

definition filepath_Dir :: "string \<Rightarrow> string" where
  "filepath_Dir p = Clean (rev (dropWhile (\<lambda>c. c \<noteq> CHR ''/'') (rev p)))"

section \<open>The target registry\<close>

record SymlinkDef =
  Source :: string
  Target :: string

record Target =
  Name :: string
  Links :: "SymlinkDef list"

definition GetAllTargets :: "Target list" where
  "GetAllTargets =
     [ \<lparr> Name = ''claude'',
         Links = [\<lparr> Source = filepath_Join [''.viberules'', ''rules.md''], Target = ''CLAUDE.md'' \<rparr>] \<rparr>,
       \<lparr> Name = ''amazonq'',
         Links = [\<lparr> Source = filepath_Join [''..'', ''..'', ''.viberules'', ''rules.md''],
                    Target = filepath_Join [''.amazonq'', ''rules'', ''AMAZONQ.md''] \<rparr>] \<rparr>,
       \<lparr> Name = ''gemini'',
         Links = [\<lparr> Source = filepath_Join [''.viberules'', ''rules.md''], Target = ''GEMINI.md'' \<rparr>] \<rparr>,
       \<lparr> Name = ''codex'',
         Links = [\<lparr> Source = filepath_Join [''.viberules'', ''rules.md''], Target = ''AGENTS.md'' \<rparr>] \<rparr> ]"

definition GetRequiredDirectories :: "string list" where
  "GetRequiredDirectories = [filepath_Join [''.amazonq'', ''rules'']]"

section \<open>The filesystem\<close>

text \<open>
  The program acts on the filesystem through the \<open>os\<close> package only. The filesystem is a
  tree of entries, each found at its physical path (the list of names from the root, with no
  symlink on the way); a process also has a working directory. The \<open>trace\<close> records every
  change made, in order, so that the order of the changes of one operation can be stated.
  Permissions, owners and times are not modelled.
\<close>

datatype node = File string | Dir | Symlink string

datatype errno = ENOENT | ENOTDIR | ELOOP | EEXIST | EISDIR | ENOTEMPTY

datatype event =
    EvMkdir string
  | EvWriteFile string
  | EvSymlink string string
  | EvRemove string

record state =
  nodes :: "string list \<Rightarrow> node option"
  cwd :: "string list"
  trace :: "event list"

text \<open>
  Path resolution as the kernel does it: one name at a time from the root or the working
  directory, \<open>.\<close> and empty names skipped, \<open>..\<close> going to the parent, a symlink replaced
  by its destination (resolved from the directory that holds the link). \<open>follow\<close> says
  whether a symlink in the last position is followed (\<open>stat\<close>) or not (\<open>lstat\<close>). The number
  of symlinks followed in one resolution is bounded (\<open>ELOOP\<close> beyond 40, as on Linux). The
  result is the physical path the name leads to; the entry there may be missing.
\<close>

function walk :: "(string list \<Rightarrow> node option) \<Rightarrow> bool \<Rightarrow> nat \<Rightarrow> string list \<Rightarrow> string list
    \<Rightarrow> errno + string list" where
  "walk ns follow fuel cur [] = Inr cur"
| "walk ns follow fuel cur (c # cs) =
     (case ns cur of
        None \<Rightarrow> Inl ENOENT
      | Some (File x) \<Rightarrow> Inl ENOTDIR
      | Some (Symlink d) \<Rightarrow> Inl ENOTDIR
      | Some Dir \<Rightarrow>
          if c = [] \<or> c = ''.'' then walk ns follow fuel cur cs
          else if c = ''..'' then walk ns follow fuel (butlast cur) cs
          else (case ns (cur @ [c]) of
                  Some (Symlink d) \<Rightarrow>
                    if cs = [] \<and> \<not> follow then Inr (cur @ [c])
                    else (case fuel of
                            0 \<Rightarrow> Inl ELOOP
                          | Suc k \<Rightarrow>
                              if d = [] then Inl ENOENT
                              else walk ns follow k (if IsAbs d then [] else cur)
                                     (Split d (CHR ''/'') @ cs))
                | _ \<Rightarrow> walk ns follow fuel (cur @ [c]) cs))"
  by pat_completeness auto
termination
  by (relation "measures [\<lambda>(ns, follow, fuel, cur, cs). fuel, \<lambda>(ns, follow, fuel, cur, cs). length cs]")
     auto

definition maxSymlinks :: nat where
  "maxSymlinks = 40"

definition resolve :: "state \<Rightarrow> bool \<Rightarrow> string \<Rightarrow> errno + string list" where
  "resolve s follow p =
     (if p = [] then Inl ENOENT
      else walk (nodes s) follow maxSymlinks (if IsAbs p then [] else cwd s) (Split p (CHR ''/'')))"

text \<open>\<open>os.Lstat\<close> and \<open>os.Stat\<close>: the entry a path leads to, or the error.\<close>

definition os_Lstat :: "state \<Rightarrow> string \<Rightarrow> errno + node" where
  "os_Lstat s p =
     (case resolve s False p of
        Inl e \<Rightarrow> Inl e
      | Inr q \<Rightarrow> (case nodes s q of None \<Rightarrow> Inl ENOENT | Some n \<Rightarrow> Inr n))"

definition os_Stat :: "state \<Rightarrow> string \<Rightarrow> errno + node" where
  "os_Stat s p =
     (case resolve s True p of
        Inl e \<Rightarrow> Inl e
      | Inr q \<Rightarrow> (case nodes s q of None \<Rightarrow> Inl ENOENT | Some n \<Rightarrow> Inr n))"

text \<open>\<open>os.Readlink\<close>.\<close>

definition os_Readlink :: "state \<Rightarrow> string \<Rightarrow> errno + string" where
  "os_Readlink s p =
     (case os_Lstat s p of
        Inl e \<Rightarrow> Inl e
      | Inr (Symlink d) \<Rightarrow> Inr d
      | Inr _ \<Rightarrow> Inl ENOENT)"

text \<open>\<open>FileInfo.Size()\<close>: the length of a regular file; for other entries the value is
  system-dependent and taken as 0.\<close>

fun Size :: "node \<Rightarrow> nat" where
  "Size (File x) = length x"
| "Size _ = 0"

text \<open>A new entry can be made at a physical path when nothing is there and the parent is a
  directory.\<close>

definition creatable :: "state \<Rightarrow> string list \<Rightarrow> bool" where
  "creatable s q = (q \<noteq> [] \<and> nodes s q = None \<and> nodes s (butlast q) = Some Dir)"

text \<open>\<open>os.ReadFile\<close>.\<close>

definition os_ReadFile :: "state \<Rightarrow> string \<Rightarrow> errno + string" where
  "os_ReadFile s p =
     (case os_Stat s p of
        Inl e \<Rightarrow> Inl e
      | Inr (File x) \<Rightarrow> Inr x
      | Inr _ \<Rightarrow> Inl EISDIR)"

text \<open>\<open>os.WriteFile\<close>: the file is opened through symlinks, made if missing, and its content
  replaced.\<close>

definition os_WriteFile :: "string \<Rightarrow> string \<Rightarrow> state \<Rightarrow> errno option \<times> state" where
  "os_WriteFile p x s =
     (case resolve s True p of
        Inl e \<Rightarrow> (Some e, s)
      | Inr q \<Rightarrow>
          (case nodes s q of
             Some (File old) \<Rightarrow>
               (None, s\<lparr>nodes := (nodes s)(q \<mapsto> File x), trace := trace s @ [EvWriteFile p]\<rparr>)
           | Some Dir \<Rightarrow> (Some EISDIR, s)
           | Some (Symlink d) \<Rightarrow> (Some ELOOP, s)
           | None \<Rightarrow>
               if creatable s q
               then (None, s\<lparr>nodes := (nodes s)(q \<mapsto> File x), trace := trace s @ [EvWriteFile p]\<rparr>)
               else (Some ENOENT, s)))"

text \<open>\<open>os.Mkdir\<close>.\<close>

definition os_Mkdir :: "string \<Rightarrow> state \<Rightarrow> errno option \<times> state" where
  "os_Mkdir p s =
     (case resolve s False p of
        Inl e \<Rightarrow> (Some e, s)
      | Inr q \<Rightarrow>
          (case nodes s q of
             Some n \<Rightarrow> (Some EEXIST, s)
           | None \<Rightarrow>
               if creatable s q
               then (None, s\<lparr>nodes := (nodes s)(q \<mapsto> Dir), trace := trace s @ [EvMkdir p]\<rparr>)
               else (Some ENOENT, s)))"

text \<open>\<open>os.Symlink(oldname, newname)\<close>: the link is made at \<open>newname\<close>, which must not exist;
  \<open>oldname\<close> is stored as it is and not looked at.\<close>

definition os_Symlink :: "string \<Rightarrow> string \<Rightarrow> state \<Rightarrow> errno option \<times> state" where
  "os_Symlink oldname newname s =
     (if oldname = [] then (Some ENOENT, s)
      else
        (case resolve s False newname of
           Inl e \<Rightarrow> (Some e, s)
         | Inr q \<Rightarrow>
             (case nodes s q of
                Some n \<Rightarrow> (Some EEXIST, s)
              | None \<Rightarrow>
                  if creatable s q
                  then (None, s\<lparr>nodes := (nodes s)(q \<mapsto> Symlink oldname),
                                 trace := trace s @ [EvSymlink oldname newname]\<rparr>)
                  else (Some ENOENT, s))))"

text \<open>\<open>os.Remove\<close>: a file or a symlink is unlinked. The program calls it on an entry it has
  just seen to be a symlink, so removing a directory (which the system allows when the
  directory is empty) is never asked for; the model refuses it.\<close>

definition os_Remove :: "string \<Rightarrow> state \<Rightarrow> errno option \<times> state" where
  "os_Remove p s =
     (case resolve s False p of
        Inl e \<Rightarrow> (Some e, s)
      | Inr q \<Rightarrow>
          (case nodes s q of
             None \<Rightarrow> (Some ENOENT, s)
           | Some Dir \<Rightarrow> (Some ENOTEMPTY, s)
           | Some n \<Rightarrow> (None, s\<lparr>nodes := (nodes s)(q := None), trace := trace s @ [EvRemove p]\<rparr>)))"

text \<open>
  \<open>os.MkdirAll\<close>, as the Go library has it: nothing to do when the path already leads to a
  directory, an error when it leads to something else; otherwise the parent (the path up to
  its last separator) is made first, then the directory itself, and a failure of that last
  step is forgiven when the directory is there after all.
\<close>

definition parentEnd :: "string \<Rightarrow> nat" where
  "parentEnd path =
     (let i = length (rev (dropWhile (\<lambda>c. c = CHR ''/'') (rev path)))
      in length (rev (dropWhile (\<lambda>c. c \<noteq> CHR ''/'') (rev (take i path)))))"

definition mkdirLast :: "string \<Rightarrow> state \<Rightarrow> errno option \<times> state" where
  "mkdirLast path s =
     (case os_Mkdir path s of
        (None, s') \<Rightarrow> (None, s')
      | (Some e, s') \<Rightarrow>
          (case os_Lstat s' path of
             Inr Dir \<Rightarrow> (None, s')
           | _ \<Rightarrow> (Some e, s')))"

function os_MkdirAll :: "string \<Rightarrow> state \<Rightarrow> errno option \<times> state" where
  "os_MkdirAll path s =
     (case os_Stat s path of
        Inr n \<Rightarrow> if n = Dir then (None, s) else (Some ENOTDIR, s)
      | Inl e0 \<Rightarrow>
          if 1 < parentEnd path
          then (case os_MkdirAll (take (parentEnd path - 1) path) s of
                  (Some e, s') \<Rightarrow> (Some e, s')
                | (None, s') \<Rightarrow> mkdirLast path s')
          else mkdirLast path s)"
  by pat_completeness auto

termination os_MkdirAll
proof (relation "measure (\<lambda>(path, s). length path)")
  show "wf (measure (\<lambda>(path, s). length path))" by simp
next
  fix path :: string and s :: state and e0 :: errno
  assume big: "1 < parentEnd path"
  have "length (dropWhile P xs) \<le> length xs" for P and xs :: string
    by (rule length_dropWhile_le)
  then have "parentEnd path \<le> length path"
    unfolding parentEnd_def Let_def
    by (metis (no_types, lifting) length_rev length_take min.cobounded2 order_trans)
  with big
  show "((take (parentEnd path - 1) path, s), (path, s)) \<in> measure (\<lambda>(path, s). length path)"
    by simp
qed

declare os_MkdirAll.simps [simp del]

section \<open>The symlink manager\<close>

text \<open>
  A Go \<open>error\<close> is a message, possibly wrapping another error (\<open>fmt.Errorf\<close> with \<open>%w\<close>):
  \<open>Wrapf m e\<close> is the error whose text is \<open>m\<close>, a colon and the text of \<open>e\<close>. A function
  returning \<open>error\<close> returns \<open>None\<close> for \<open>nil\<close>, together with the state it leaves.
\<close>

datatype error = OSError errno | Errorf string | Wrapf string error

definition removeSymlink :: "string \<Rightarrow> state \<Rightarrow> error option \<times> state" where
  "removeSymlink path0 s =
     (let path = Clean path0 in
      case os_Lstat s path of
        Inl e \<Rightarrow>
          if e = ENOENT then (None, s)
          else (Some (Wrapf (''failed to stat '' @ path) (OSError e)), s)
      | Inr info \<Rightarrow>
          (case info of
             Symlink d \<Rightarrow>
               (case os_Remove path s of
                  (Some e, s') \<Rightarrow> (Some (Wrapf (''failed to remove symlink '' @ path) (OSError e)), s')
                | (None, s') \<Rightarrow> (None, s'))
           | _ \<Rightarrow> (Some (Errorf (''refusing to remove '' @ path @ '': not a symlink'')), s)))"

definition createSymlink :: "string \<Rightarrow> string \<Rightarrow> state \<Rightarrow> error option \<times> state" where
  "createSymlink source0 target0 s =
     (let source = Clean source0; target = Clean target0 in
      case removeSymlink target s of
        (Some e, s1) \<Rightarrow> (Some e, s1)
      | (None, s1) \<Rightarrow>
          (let targetDir = filepath_Dir target in
           case (if targetDir \<noteq> ''.'' then os_MkdirAll targetDir s1 else (None, s1)) of
             (Some e, s2) \<Rightarrow> (Some (Wrapf ''failed to create parent directory'' (OSError e)), s2)
           | (None, s2) \<Rightarrow>
               (case os_Symlink source target s2 of
                  (Some e, s3) \<Rightarrow>
                    (Some (Wrapf (''failed to create symlink '' @ target @ '' -> '' @ source)
                             (OSError e)), s3)
                | (None, s3) \<Rightarrow> (None, s3))))"

text \<open>The loop over the required directories, and the loops over the links of one target.\<close>

fun mkdirRequired :: "string list \<Rightarrow> state \<Rightarrow> error option \<times> state" where
  "mkdirRequired [] s = (None, s)"
| "mkdirRequired (dir # dirs) s =
     (case os_MkdirAll dir s of
        (Some e, s') \<Rightarrow> (Some (Wrapf (''failed to create directory '' @ dir) (OSError e)), s')
      | (None, s') \<Rightarrow> mkdirRequired dirs s')"

fun createLinks :: "string \<Rightarrow> SymlinkDef list \<Rightarrow> state \<Rightarrow> error option \<times> state" where
  "createLinks msg [] s = (None, s)"
| "createLinks msg (link # links) s =
     (case createSymlink (Source link) (Target link) s of
        (Some e, s') \<Rightarrow> (Some (Wrapf msg e), s')
      | (None, s') \<Rightarrow> createLinks msg links s')"

fun removeLinks :: "string \<Rightarrow> SymlinkDef list \<Rightarrow> state \<Rightarrow> error option \<times> state" where
  "removeLinks msg [] s = (None, s)"
| "removeLinks msg (link # links) s =
     (case removeSymlink (Target link) s of
        (Some e, s') \<Rightarrow> (Some (Wrapf msg e), s')
      | (None, s') \<Rightarrow> removeLinks msg links s')"

fun createAllLoop :: "Target list \<Rightarrow> state \<Rightarrow> error option \<times> state" where
  "createAllLoop [] s = (None, s)"
| "createAllLoop (target # targets) s =
     (case createLinks (''failed to create symlink for '' @ Name target) (Links target) s of
        (Some e, s') \<Rightarrow> (Some e, s')
      | (None, s') \<Rightarrow> createAllLoop targets s')"

definition CreateAllSymlinks :: "state \<Rightarrow> error option \<times> state" where
  "CreateAllSymlinks s =
     (case mkdirRequired GetRequiredDirectories s of
        (Some e, s') \<Rightarrow> (Some e, s')
      | (None, s') \<Rightarrow> createAllLoop GetAllTargets s')"

fun removeAllLoop :: "Target list \<Rightarrow> state \<Rightarrow> error option \<times> state" where
  "removeAllLoop [] s = (None, s)"
| "removeAllLoop (target # targets) s =
     (case removeLinks (''failed to remove symlink for '' @ Name target) (Links target) s of
        (Some e, s') \<Rightarrow> (Some e, s')
      | (None, s') \<Rightarrow> removeAllLoop targets s')"

definition RemoveAllSymlinks :: "state \<Rightarrow> error option \<times> state" where
  "RemoveAllSymlinks s = removeAllLoop GetAllTargets s"

definition IsSymlinkValid :: "state \<Rightarrow> string \<Rightarrow> string \<Rightarrow> bool" where
  "IsSymlinkValid s linkPath0 expectedTarget0 =
     (let linkPath = Clean linkPath0; expectedTarget = Clean expectedTarget0 in
      case os_Lstat s linkPath of
        Inl e \<Rightarrow> False
      | Inr info \<Rightarrow>
          (case info of
             Symlink d \<Rightarrow>
               (case os_Readlink s linkPath of
                  Inl e \<Rightarrow> False
                | Inr actualTarget \<Rightarrow>
                    if Clean actualTarget \<noteq> expectedTarget then False
                    else (case os_Stat s linkPath of Inl e \<Rightarrow> False | Inr i \<Rightarrow> True))
           | _ \<Rightarrow> False))"

text \<open>\<open>CheckAllSymlinks\<close>: the list of the links that are not valid, and whether it is empty.\<close>

fun missingLinks :: "state \<Rightarrow> string \<Rightarrow> SymlinkDef list \<Rightarrow> string list" where
  "missingLinks s name [] = []"
| "missingLinks s name (link # links) =
     (if \<not> IsSymlinkValid s (Target link) (Source link)
      then (Target link @ '' ('' @ name @ '')'') # missingLinks s name links
      else missingLinks s name links)"

definition CheckAllSymlinks :: "state \<Rightarrow> bool \<times> string list" where
  "CheckAllSymlinks s =
     (let missing = concat (map (\<lambda>target. missingLinks s (Name target) (Links target)) GetAllTargets)
      in (missing = [], missing))"

text \<open>The search for a target by name, first match wins.\<close>

fun createTargetLoop :: "Target list \<Rightarrow> string \<Rightarrow> state \<Rightarrow> error option \<times> state" where
  "createTargetLoop [] targetName s = (Some (Errorf (''target '' @ targetName @ '' not found'')), s)"
| "createTargetLoop (target # targets) targetName s =
     (if Name target = targetName then
        (case mkdirRequired GetRequiredDirectories s of
           (Some e, s') \<Rightarrow> (Some e, s')
         | (None, s') \<Rightarrow> createLinks ''failed to create symlink'' (Links target) s')
      else createTargetLoop targets targetName s)"

definition CreateTargetSymlinks :: "string \<Rightarrow> state \<Rightarrow> error option \<times> state" where
  "CreateTargetSymlinks targetName s = createTargetLoop GetAllTargets targetName s"

fun removeTargetLoop :: "Target list \<Rightarrow> string \<Rightarrow> state \<Rightarrow> error option \<times> state" where
  "removeTargetLoop [] targetName s = (Some (Errorf (''target '' @ targetName @ '' not found'')), s)"
| "removeTargetLoop (target # targets) targetName s =
     (if Name target = targetName then removeLinks ''failed to remove symlink'' (Links target) s
      else removeTargetLoop targets targetName s)"

definition RemoveTargetSymlinks :: "string \<Rightarrow> state \<Rightarrow> error option \<times> state" where
  "RemoveTargetSymlinks targetName s = removeTargetLoop GetAllTargets targetName s"

section \<open>The config store\<close>

record Config =
  Mode :: string
  Targets :: "string list"

text \<open>
  The YAML library is used as a black box: \<open>Marshal\<close> turns a config into bytes,
  \<open>Unmarshal\<close> parses bytes into a config, and either may fail (\<open>None\<close>). The functions
  of the program take the library as their first argument.
\<close>

record yaml =
  Marshal :: "Config \<Rightarrow> string option"
  Unmarshal :: "string \<Rightarrow> Config option"

text \<open>Decimal printing (\<open>%d\<close>).\<close>

function showNat :: "nat \<Rightarrow> string" where
  "showNat n =
     (if n < 10 then [char_of (48 + n)] else showNat (n div 10) @ [char_of (48 + n mod 10)])"
  by pat_completeness auto
termination
  by (relation "measure (\<lambda>n. n)") auto

declare showNat.simps [simp del]

definition isValidTarget :: "string \<Rightarrow> bool" where
  "isValidTarget target = (target \<in> set [''claude'', ''amazonq'', ''gemini'', ''codex''])"

definition fileExists :: "state \<Rightarrow> string \<Rightarrow> bool" where
  "fileExists s filename = (case os_Stat s filename of Inl e \<Rightarrow> False | Inr i \<Rightarrow> True)"

definition configPath :: string where
  "configPath = ''.viberules/.config.yaml''"

definition maxConfigSize :: nat where
  "maxConfigSize = 1 * 1024 * 1024"

definition defaultConfig :: Config where
  "defaultConfig = \<lparr> Mode = ''local'', Targets = [''claude'', ''amazonq'', ''gemini'', ''codex''] \<rparr>"

definition loadConfig :: "yaml \<Rightarrow> state \<Rightarrow> error + Config" where
  "loadConfig Y s =
     (if \<not> fileExists s configPath then Inr defaultConfig
      else
        (case os_Stat s configPath of
           Inl e \<Rightarrow> Inl (Wrapf ''failed to stat config file'' (OSError e))
         | Inr info \<Rightarrow>
             if Size info > maxConfigSize
             then Inl (Errorf (''config file too large: '' @ showNat (Size info) @ '' bytes (max ''
                                 @ showNat maxConfigSize @ '')''))
             else
               (case os_ReadFile s configPath of
                  Inl e \<Rightarrow> Inl (Wrapf ''failed to read config file'' (OSError e))
                | Inr content \<Rightarrow>
                    (case Unmarshal Y content of
                       None \<Rightarrow> Inl (Errorf ''failed to parse config file'')
                     | Some config \<Rightarrow>
                         if Mode config \<noteq> ''local'' \<and> Mode config \<noteq> ''public''
                         then Inr (config\<lparr>Mode := ''local''\<rparr>)
                         else Inr config))))"

definition saveConfig :: "yaml \<Rightarrow> Config \<Rightarrow> state \<Rightarrow> error option \<times> state" where
  "saveConfig Y config s =
     (case Marshal Y config of
        None \<Rightarrow> (Some (Errorf ''failed to marshal config''), s)
      | Some content \<Rightarrow>
          (case os_WriteFile configPath content s of
             (Some e, s') \<Rightarrow> (Some (Wrapf ''failed to write config file'' (OSError e)), s')
           | (None, s') \<Rightarrow> (None, s')))"

definition loadEnabledTargets :: "yaml \<Rightarrow> state \<Rightarrow> error + string list" where
  "loadEnabledTargets Y s =
     (case loadConfig Y s of Inl e \<Rightarrow> Inl e | Inr config \<Rightarrow> Inr (Targets config))"

definition saveEnabledTargets :: "yaml \<Rightarrow> string list \<Rightarrow> state \<Rightarrow> error option \<times> state" where
  "saveEnabledTargets Y targets s =
     (case loadConfig Y s of
        Inl e \<Rightarrow> (Some e, s)
      | Inr config \<Rightarrow> saveConfig Y (config\<lparr>Targets := targets\<rparr>) s)"

definition getProjectMode :: "yaml \<Rightarrow> state \<Rightarrow> string" where
  "getProjectMode Y s = (case loadConfig Y s of Inl e \<Rightarrow> ''local'' | Inr config \<Rightarrow> Mode config)"

definition setProjectMode :: "yaml \<Rightarrow> string \<Rightarrow> state \<Rightarrow> error option \<times> state" where
  "setProjectMode Y mode s =
     (if mode \<noteq> ''public'' \<and> mode \<noteq> ''local''
      then (Some (Errorf (''invalid mode: '' @ mode @ '' (must be 'public' or 'local')'')), s)
      else
        (case loadConfig Y s of
           Inl e \<Rightarrow> (Some e, s)
         | Inr config \<Rightarrow> saveConfig Y (config\<lparr>Mode := mode\<rparr>) s))"

section \<open>The ignore-section rewriter\<close>

definition gitignoreSectionPrefix :: string where
  "gitignoreSectionPrefix = ''# viberules''"

definition gitignoreLocalMode :: string where
  "gitignoreLocalMode = ''# viberules (local mode''"

definition gitignoreLocalFiles :: string where
  "gitignoreLocalFiles = ''# viberules local files''"

definition gitignoreConfigFile :: string where
  "gitignoreConfigFile = ''# viberules config file''"

definition gitignoreOutputFiles :: string where
  "gitignoreOutputFiles = ''# viberules output files''"

text \<open>The section written for a mode (the two format strings of \<open>addToGitignore\<close>).\<close>

definition commonSection :: string where
  "commonSection =
     ''\<newline>'' @ gitignoreConfigFile @ '' (always ignored)\<newline>''
     @ ''.viberules/.config.yaml\<newline>''
     @ ''\<newline>'' @ gitignoreLocalFiles @ '' (personal files only)\<newline>''
     @ ''*.local.md\<newline>''
     @ ''\<newline>'' @ gitignoreOutputFiles @ '' (symlinked)\<newline>''
     @ ''.amazonq/\<newline>''
     @ ''CLAUDE.md\<newline>''
     @ ''GEMINI.md\<newline>''
     @ ''AGENTS.md\<newline>''"

definition viberulesSection :: "string \<Rightarrow> string" where
  "viberulesSection mode =
     (if mode = ''local''
      then ''\<newline>'' @ gitignoreLocalMode @ '' - entire directory ignored)\<newline>''
           @ ''.viberules/\<newline>'' @ commonSection
      else commonSection)"

text \<open>The loop that drops the old section; \<open>skipSection\<close> is its flag.\<close>

fun dropSection :: "bool \<Rightarrow> string list \<Rightarrow> string list" where
  "dropSection skipSection [] = []"
| "dropSection skipSection (line # lines) =
     (if prefix gitignoreSectionPrefix line then dropSection True lines
      else if skipSection then
        (if prefix ''#'' line \<and> \<not> Contains line ''viberules''
         then line # dropSection False lines
         else dropSection True lines)
      else line # dropSection skipSection lines)"

text \<open>The new content of the ignore file, from the mode and the old content.\<close>

definition rewriteGitignore :: "string \<Rightarrow> string \<Rightarrow> string" where
  "rewriteGitignore mode content =
     (let contentStr =
            (if Contains content gitignoreLocalFiles \<or> Contains content gitignoreLocalMode
             then TrimRightNL (Join (dropSection False (Split content (CHR ''\<newline>''))) ''\<newline>'')
             else content);
          contentStr' =
            (if length contentStr > 0 \<and> last contentStr \<noteq> CHR ''\<newline>''
             then contentStr @ ''\<newline>'' else contentStr)
      in contentStr' @ viberulesSection mode)"

definition addToGitignore :: "yaml \<Rightarrow> state \<Rightarrow> error option \<times> state" where
  "addToGitignore Y s =
     (let gitignorePath = ''.gitignore''; mode = getProjectMode Y s in
      case (if fileExists s gitignorePath then os_ReadFile s gitignorePath else Inr []) of
        Inl e \<Rightarrow> (Some (Wrapf ''failed to read .gitignore'' (OSError e)), s)
      | Inr content \<Rightarrow>
          (case os_WriteFile gitignorePath (rewriteGitignore mode content) s of
             (Some e, s') \<Rightarrow> (Some (Wrapf ''failed to write .gitignore'' (OSError e)), s')
           | (None, s') \<Rightarrow> (None, s')))"

section \<open>The commands\<close>

text \<open>Messages printed on the terminal are left out: they change no state.\<close>

definition rulesFile :: string where
  "rulesFile = ''.viberules/rules.md''"

definition addTarget :: "yaml \<Rightarrow> string \<Rightarrow> state \<Rightarrow> error option \<times> state" where
  "addTarget Y target s =
     (if \<not> isValidTarget target
      then (Some (Errorf (''invalid target: '' @ target
                            @ '' (available: claude, amazonq, gemini, codex)'')), s)
      else if \<not> fileExists s rulesFile
      then (Some (Errorf ''.viberules/rules.md not found. Run 'viberules init' first''), s)
      else
        (case loadEnabledTargets Y s of
           Inl e \<Rightarrow> (Some (Wrapf ''failed to load target settings'' e), s)
         | Inr enabledTargets \<Rightarrow>
             if target \<in> set enabledTargets then (None, s)
             else
               (case saveEnabledTargets Y (enabledTargets @ [target]) s of
                  (Some e, s1) \<Rightarrow> (Some (Wrapf ''failed to save target settings'' e), s1)
                | (None, s1) \<Rightarrow>
                    (case CreateTargetSymlinks target s1 of
                       (Some e, s2) \<Rightarrow>
                         (Some (Wrapf (''failed to create symlinks for target '' @ [CHR 0x27] @ target
                                   @ [CHR 0x27]) e),
                          s2)
                     | (None, s2) \<Rightarrow> (None, s2)))))"

definition removeTarget :: "yaml \<Rightarrow> string \<Rightarrow> state \<Rightarrow> error option \<times> state" where
  "removeTarget Y target s =
     (if \<not> isValidTarget target
      then (Some (Errorf (''invalid target: '' @ target
                            @ '' (available: claude, amazonq, gemini, codex)'')), s)
      else
        (case loadEnabledTargets Y s of
           Inl e \<Rightarrow> (Some (Wrapf ''failed to load target settings'' e), s)
         | Inr enabledTargets \<Rightarrow>
             (let newTargets = filter (\<lambda>enabled. enabled \<noteq> target) enabledTargets;
                  found = (target \<in> set enabledTargets) in
              if \<not> found then (None, s)
              else
                (case saveEnabledTargets Y newTargets s of
                   (Some e, s1) \<Rightarrow> (Some (Wrapf ''failed to save target settings'' e), s1)
                 | (None, s1) \<Rightarrow>
                     (case RemoveTargetSymlinks target s1 of
                        (Some e, s2) \<Rightarrow>
                          (Some (Wrapf (''failed to remove symlinks for target '' @ [CHR 0x27] @ target
                                    @ [CHR 0x27]) e),
                           s2)
                      | (None, s2) \<Rightarrow> (None, s2))))))"

text \<open>\<open>initProject\<close>; \<open>force\<close> is the command's flag, \<open>rulesContent\<close> the text of the rules
  file made when there is none. A failure to update the ignore file or to save the config is
  reported on the terminal only.\<close>

definition initProject :: "yaml \<Rightarrow> bool \<Rightarrow> string \<Rightarrow> state \<Rightarrow> error option \<times> state" where
  "initProject Y force rulesContent s =
     (if (case os_Stat s ''.viberules'' of Inr info \<Rightarrow> info = Dir | Inl e \<Rightarrow> False) \<and> \<not> force
      then (Some (Errorf ''.viberules directory already exists. Use --force to reinitialize''), s)
      else
        (case os_MkdirAll ''.viberules'' s of
           (Some e, s1) \<Rightarrow> (Some (Wrapf ''failed to create .viberules directory'' (OSError e)), s1)
         | (None, s1) \<Rightarrow>
             (case (if \<not> fileExists s1 rulesFile then os_WriteFile rulesFile rulesContent s1
                    else (None, s1)) of
                (Some e, s2) \<Rightarrow> (Some (Wrapf ''failed to create .viberules/rules.md'' (OSError e)), s2)
              | (None, s2) \<Rightarrow>
                  (case addToGitignore Y s2 of
                     (ignored, s3) \<Rightarrow>
                       (case CreateAllSymlinks s3 of
                          (Some e, s4) \<Rightarrow> (Some (Wrapf ''failed to create symlinks'' e), s4)
                        | (None, s4) \<Rightarrow>
                            (case saveConfig Y defaultConfig s4 of
                               (ignored', s5) \<Rightarrow> (None, s5)))))))"

text \<open>
  A YAML library for configs whose mode and target names are plain words: the block form
  the real library writes for them, and a reader of that form. It serves as the library in
  the examples.
\<close>

fun parseTargets :: "string list \<Rightarrow> string list option" where
  "parseTargets [] = Some []"
| "parseTargets (l # ls) =
     (if l = [] then parseTargets ls
      else (let t = dropWhile (\<lambda>c. c = CHR '' '') l in
            if prefix ''- '' t then map_option (\<lambda>ts. drop 2 t # ts) (parseTargets ls)
            else None))"

definition plainYaml :: yaml where
  "plainYaml =
     \<lparr> Marshal = (\<lambda>c. Some (''mode: '' @ Mode c @ ''\<newline>'' @ ''targets:''
                      @ (if Targets c = [] then '' []\<newline>''
                         else ''\<newline>'' @ concat (map (\<lambda>t. ''    - '' @ t @ ''\<newline>'') (Targets c))))),
       Unmarshal = (\<lambda>x. case Split x (CHR ''\<newline>'') of
                      m # t # rest \<Rightarrow>
                        if prefix ''mode: '' m \<and> (t = ''targets:'' \<or> t = ''targets: []'')
                        then map_option (\<lambda>ts. \<lparr> Mode = drop 6 m, Targets = ts \<rparr>) (parseTargets rest)
                        else None
                    | _ \<Rightarrow> None) \<rparr>"

section \<open>Notions used in the properties\<close>

text \<open>Whether an entry is a symlink.\<close>

fun isLink :: "node option \<Rightarrow> bool" where
  "isLink (Some (Symlink d)) = True"
| "isLink n = False"

text \<open>
  A plain project: the working directory exists, and none of the directories the program
  makes (\<open>.amazonq\<close>, \<open>.amazonq/rules\<close>, \<open>.viberules\<close>) nor the config file is a symlink.
  Each of them may be missing.
\<close>

definition plainProject :: "state \<Rightarrow> bool" where
  "plainProject s =
     (nodes s (cwd s) = Some Dir
      \<and> \<not> isLink (nodes s (cwd s @ [''.amazonq'']))
      \<and> \<not> isLink (nodes s (cwd s @ [''.amazonq'', ''rules'']))
      \<and> \<not> isLink (nodes s (cwd s @ [''.viberules'']))
      \<and> \<not> isLink (nodes s (cwd s @ [''.viberules'', ''.config.yaml''])))"

text \<open>The changes an operation made: what it added to the trace.\<close>

definition newEvents :: "state \<Rightarrow> state \<Rightarrow> event list" where
  "newEvents s s' = drop (length (trace s)) (trace s')"

text \<open>A change of a symlink: one made or one removed.\<close>

fun isLinkEvent :: "event \<Rightarrow> bool" where
  "isLinkEvent (EvSymlink a b) = True"
| "isLinkEvent (EvRemove p) = True"
| "isLinkEvent e = False"

definition isConfigWrite :: "event \<Rightarrow> bool" where
  "isConfigWrite e = (e = EvWriteFile configPath)"

text \<open>\<open>configAfterLinks\<close>: no change of a symlink comes after a write of the config file.
  \<open>linksAfterConfig\<close>: no change of a symlink comes before a write of the config file.\<close>

fun configAfterLinks :: "event list \<Rightarrow> bool" where
  "configAfterLinks [] = True"
| "configAfterLinks (e # es) =
     ((if isConfigWrite e then list_all (\<lambda>x. \<not> isLinkEvent x) es else True) \<and> configAfterLinks es)"

fun linksAfterConfig :: "event list \<Rightarrow> bool" where
  "linksAfterConfig [] = True"
| "linksAfterConfig (e # es) =
     ((if isLinkEvent e then list_all (\<lambda>x. \<not> isConfigWrite x) es else True) \<and> linksAfterConfig es)"

text \<open>\<open>traceExt P s s'\<close>: from \<open>s\<close> to \<open>s'\<close> the trace grew by events that satisfy \<open>P\<close>.
  \<open>keeps s s'\<close>: the working directory is the same and every regular file and directory of
  \<open>s\<close> is in \<open>s'\<close> unchanged. \<open>noNewLinks s s'\<close>: every symlink of \<open>s'\<close> was one in \<open>s\<close>.\<close>

definition traceExt :: "(event \<Rightarrow> bool) \<Rightarrow> state \<Rightarrow> state \<Rightarrow> bool" where
  "traceExt P s s' = (\<exists>evs. trace s' = trace s @ evs \<and> list_all P evs)"

definition keeps :: "state \<Rightarrow> state \<Rightarrow> bool" where
  "keeps s s' =
     (cwd s' = cwd s \<and> (\<forall>k n. nodes s k = Some n \<longrightarrow> \<not> isLink (Some n) \<longrightarrow> nodes s' k = Some n))"

definition noNewLinks :: "state \<Rightarrow> state \<Rightarrow> bool" where
  "noNewLinks s s' = (\<forall>k. isLink (nodes s' k) \<longrightarrow> isLink (nodes s k))"

definition isMkdirEvent :: "event \<Rightarrow> bool" where
  "isMkdirEvent e = (case e of EvMkdir d \<Rightarrow> True | _ \<Rightarrow> False)"

definition isTreeEvent :: "event \<Rightarrow> bool" where
  "isTreeEvent e = (case e of EvWriteFile p \<Rightarrow> False | _ \<Rightarrow> True)"

section \<open>Example states\<close>

text \<open>
  A project directory \<open>/home/proj\<close> holding the rules file, a regular file, a directory, a
  valid link, a dangling link and a link to the wrong place; and the same directory before
  anything was made in it.
\<close>

definition emptyProject :: state where
  "emptyProject =
     \<lparr> nodes = (\<lambda>q. None)([] \<mapsto> Dir, [''home''] \<mapsto> Dir, [''home'', ''proj''] \<mapsto> Dir),
       cwd = [''home'', ''proj''],
       trace = [] \<rparr>"

definition rulesProject :: state where
  "rulesProject =
     emptyProject\<lparr> nodes := (nodes emptyProject)
       ([''home'', ''proj'', ''.viberules''] \<mapsto> Dir,
        [''home'', ''proj'', ''.viberules'', ''rules.md''] \<mapsto> File ''# rules'') \<rparr>"

definition exampleProject :: state where
  "exampleProject =
     rulesProject\<lparr> nodes := (nodes rulesProject)
       ([''home'', ''proj'', ''important.txt''] \<mapsto> File ''critical data'',
        [''home'', ''proj'', ''testdir''] \<mapsto> Dir,
        [''home'', ''proj'', ''CLAUDE.md''] \<mapsto> Symlink ''.viberules/rules.md'',
        [''home'', ''proj'', ''GEMINI.md''] \<mapsto> Symlink ''missing.md'',
        [''home'', ''proj'', ''AGENTS.md''] \<mapsto> Symlink ''important.txt'') \<rparr>"


definition bigConfigProject :: state where
  "bigConfigProject =
     rulesProject\<lparr> nodes := (nodes rulesProject)
       ([''home'', ''proj'', ''.viberules'', ''.config.yaml''] \<mapsto> File (replicate 1048577 (CHR ''a''))) \<rparr>"

definition oddModeProject :: state where
  "oddModeProject =
     rulesProject\<lparr> nodes := (nodes rulesProject)
       ([''home'', ''proj'', ''.viberules'', ''.config.yaml''] \<mapsto>
          File ''mode: shared\<newline>targets:\<newline>    - claude\<newline>'') \<rparr>"

definition ignoreProject :: state where
  "ignoreProject =
     rulesProject\<lparr> nodes := (nodes rulesProject)
       ([''home'', ''proj'', ''.gitignore''] \<mapsto> File ''node_modules/\<newline>\<newline>'') \<rparr>"

definition geminiOnlyProject :: state where
  "geminiOnlyProject =
     rulesProject\<lparr> nodes := (nodes rulesProject)
       ([''home'', ''proj'', ''.viberules'', ''.config.yaml''] \<mapsto>
          File ''mode: local\<newline>targets:\<newline>    - gemini\<newline>'') \<rparr>"

definition blockedProject :: state where
  "blockedProject =
     geminiOnlyProject\<lparr> nodes := (nodes geminiOnlyProject)
       ([''home'', ''proj'', ''CLAUDE.md''] \<mapsto> File ''my notes'') \<rparr>"

text \<open>Only gemini is enabled, yet a link for claude is there.\<close>

definition strayLinkProject :: state where
  "strayLinkProject =
     geminiOnlyProject\<lparr> nodes := (nodes geminiOnlyProject)
       ([''home'', ''proj'', ''CLAUDE.md''] \<mapsto> Symlink ''.viberules/rules.md'') \<rparr>"

text \<open>The directory \<open>.amazonq\<close> is a symlink to \<open>CLAUDE.md\<close>, which is a symlink to a
  directory \<open>d\<close> that holds a directory \<open>rules\<close>.\<close>

definition loopedProject :: state where
  "loopedProject =
     rulesProject\<lparr> nodes := (nodes rulesProject)
       ([''home'', ''proj'', ''d''] \<mapsto> Dir,
        [''home'', ''proj'', ''d'', ''rules''] \<mapsto> Dir,
        [''home'', ''proj'', ''CLAUDE.md''] \<mapsto> Symlink ''d'',
        [''home'', ''proj'', ''.amazonq''] \<mapsto> Symlink ''CLAUDE.md'') \<rparr>"

text \<open>The name \<open>.amazonq\<close> is taken by a regular file; and a project where \<open>docs\<close> is a
  symlink to the directory \<open>testdir\<close>.\<close>

definition amazonqFileProject :: state where
  "amazonqFileProject =
     rulesProject\<lparr> nodes := (nodes rulesProject)
       ([''home'', ''proj'', ''.amazonq''] \<mapsto> File ''notes'') \<rparr>"

definition dirLinkProject :: state where
  "dirLinkProject =
     exampleProject\<lparr> nodes := (nodes exampleProject)
       ([''home'', ''proj'', ''docs''] \<mapsto> Symlink ''testdir'') \<rparr>"

section \<open>Path resolution under a change of one entry\<close>

text \<open>
  A resolution that ends at a place where nothing or a regular file is never went through
  that place, so making or replacing the entry there does not change where the path leads.
\<close>

lemma walk_upd_leaf:
  assumes "walk ns f n cur cs = Inr q"
    and "ns q = None \<or> (\<exists>x. ns q = Some (File x))"
    and "f \<longrightarrow> f'"
    and "f' \<longrightarrow> (\<forall>d. v \<noteq> Some (Symlink d))"
  shows "walk (ns(q := v)) f' n cur cs = Inr q"
  using assms
proof (induction ns f n cur cs rule: walk.induct)
  case (1 ns follow fuel cur)
  then show ?case by simp
next
  case (2 ns follow fuel cur c cs)
  note leaf = "2.prems"(2) and ff = "2.prems"(3) and fv = "2.prems"(4)
  from "2.prems"(1) have dir: "ns cur = Some Dir"
    by (auto split: option.splits node.splits)
  with leaf have neq: "cur \<noteq> q" by auto
  define ns' where "ns' = ns(q := v)"
  have other: "ns' k = ns k" if "k \<noteq> q" for k
    using that by (simp add: ns'_def)
  have atq: "ns' q = v" by (simp add: ns'_def)
  have dir': "ns' cur = Some Dir" using dir neq by (simp add: other)
  have "walk ns' f' fuel cur (c # cs) = Inr q"
  proof (cases "c = [] \<or> c = ''.''")
    case True
    with "2.prems"(1) dir have "walk ns follow fuel cur cs = Inr q" by simp
    then have "walk ns' f' fuel cur cs = Inr q"
      unfolding ns'_def by (rule "2.IH"(1)[OF dir refl True _ leaf ff fv])
    with dir' True show ?thesis by simp
  next
    case nskip: False
    show ?thesis
    proof (cases "c = ''..''")
      case True
      with "2.prems"(1) dir nskip have "walk ns follow fuel (butlast cur) cs = Inr q" by simp
      then have "walk ns' f' fuel (butlast cur) cs = Inr q"
        unfolding ns'_def by (rule "2.IH"(2)[OF dir refl nskip True _ leaf ff fv])
      with dir' True nskip show ?thesis by simp
    next
      case ndd: False
      show ?thesis
      proof (cases "ns (cur @ [c])")
        case None
        with "2.prems"(1) dir nskip ndd
        have step: "walk ns follow fuel (cur @ [c]) cs = Inr q" by simp
        then have ih: "walk ns' f' fuel (cur @ [c]) cs = Inr q"
          unfolding ns'_def by (rule "2.IH"(3)[OF dir refl nskip ndd None _ leaf ff fv])
        show ?thesis
        proof (cases "cur @ [c] = q")
          case True
          with step None have "cs = []" by (cases cs) auto
          with True dir' nskip ndd fv atq show ?thesis
            by (auto split: option.splits node.splits)
        next
          case False
          with None have "ns' (cur @ [c]) = None" by (simp add: other)
          with dir' nskip ndd ih show ?thesis by simp
        qed
      next
        case (Some nd)
        show ?thesis
        proof (cases nd)
          case (File x)
          with "2.prems"(1) dir nskip ndd Some
          have step: "walk ns follow fuel (cur @ [c]) cs = Inr q" by simp
          then have ih: "walk ns' f' fuel (cur @ [c]) cs = Inr q"
            unfolding ns'_def by (rule "2.IH"(4)[OF dir refl nskip ndd Some File _ leaf ff fv])
          show ?thesis
          proof (cases "cur @ [c] = q")
            case True
            with step Some File have "cs = []" by (cases cs) auto
            with True dir' nskip ndd fv atq show ?thesis
              by (auto split: option.splits node.splits)
          next
            case False
            with Some File have "ns' (cur @ [c]) = Some (File x)" by (simp add: other)
            with dir' nskip ndd ih show ?thesis by simp
          qed
        next
          case Dir
          with Some leaf have kq: "cur @ [c] \<noteq> q" by auto
          from "2.prems"(1) dir nskip ndd Some Dir
          have step: "walk ns follow fuel (cur @ [c]) cs = Inr q" by simp
          then have ih: "walk ns' f' fuel (cur @ [c]) cs = Inr q"
            unfolding ns'_def by (rule "2.IH"(5)[OF dir refl nskip ndd Some Dir _ leaf ff fv])
          from kq Some Dir have "ns' (cur @ [c]) = Some Dir" by (simp add: other)
          with dir' nskip ndd ih show ?thesis by simp
        next
          case (Symlink d)
          with Some leaf have kq: "cur @ [c] \<noteq> q" by auto
          have nostop: "\<not> (cs = [] \<and> \<not> follow)"
          proof
            assume "cs = [] \<and> \<not> follow"
            with "2.prems"(1) dir nskip ndd Some Symlink have "cur @ [c] = q" by simp
            with kq show False by simp
          qed
          with ff have nostop': "\<not> (cs = [] \<and> \<not> f')" by auto
          from "2.prems"(1) dir nskip ndd Some Symlink nostop
          obtain k where k: "fuel = Suc k" and dne: "d \<noteq> []"
            by (cases fuel) (auto split: if_splits)
          from "2.prems"(1) dir nskip ndd Some Symlink nostop k dne
          have "walk ns follow k (if IsAbs d then [] else cur) (Split d (CHR ''/'') @ cs) = Inr q"
            by auto
          then have ih: "walk ns' f' k (if IsAbs d then [] else cur) (Split d (CHR ''/'') @ cs) = Inr q"
            unfolding ns'_def by (rule "2.IH"(6)[OF dir refl nskip ndd Some Symlink nostop k dne _ leaf ff fv])
          from kq Some Symlink have "ns' (cur @ [c]) = Some (Symlink d)" by (simp add: other)
          with dir' nskip ndd nostop' k dne ih show ?thesis by auto
        qed
      qed
    qed
  qed
  then show ?case by (simp only: ns'_def)
qed

text \<open>Where \<open>lstat\<close> finds something other than a symlink, \<open>stat\<close> finds the same.\<close>

lemma walk_follow_same:
  assumes "walk ns f n cur cs = Inr q"
    and "\<And>d. ns q \<noteq> Some (Symlink d)"
  shows "walk ns True n cur cs = Inr q"
  using assms
proof (induction ns f n cur cs rule: walk.induct)
  case (1 ns follow fuel cur)
  then show ?case by simp
next
  case (2 ns follow fuel cur c cs)
  note nl = "2.prems"(2)
  from "2.prems"(1) have dir: "ns cur = Some Dir"
    by (auto split: option.splits node.splits)
  show ?case
  proof (cases "c = [] \<or> c = ''.''")
    case True
    with "2.prems"(1) dir have "walk ns follow fuel cur cs = Inr q" by simp
    then have "walk ns True fuel cur cs = Inr q"
      by (rule "2.IH"(1)[OF dir refl True _ nl])
    with dir True show ?thesis by simp
  next
    case nskip: False
    show ?thesis
    proof (cases "c = ''..''")
      case True
      with "2.prems"(1) dir nskip have "walk ns follow fuel (butlast cur) cs = Inr q" by simp
      then have "walk ns True fuel (butlast cur) cs = Inr q"
        by (rule "2.IH"(2)[OF dir refl nskip True _ nl])
      with dir True nskip show ?thesis by simp
    next
      case ndd: False
      show ?thesis
      proof (cases "ns (cur @ [c])")
        case None
        with "2.prems"(1) dir nskip ndd
        have "walk ns follow fuel (cur @ [c]) cs = Inr q" by simp
        then have "walk ns True fuel (cur @ [c]) cs = Inr q"
          by (rule "2.IH"(3)[OF dir refl nskip ndd None _ nl])
        with dir nskip ndd None show ?thesis by simp
      next
        case (Some nd)
        show ?thesis
        proof (cases nd)
          case (File x)
          with "2.prems"(1) dir nskip ndd Some
          have "walk ns follow fuel (cur @ [c]) cs = Inr q" by simp
          then have "walk ns True fuel (cur @ [c]) cs = Inr q"
            by (rule "2.IH"(4)[OF dir refl nskip ndd Some File _ nl])
          with dir nskip ndd Some File show ?thesis by simp
        next
          case Dir
          with "2.prems"(1) dir nskip ndd Some
          have "walk ns follow fuel (cur @ [c]) cs = Inr q" by simp
          then have "walk ns True fuel (cur @ [c]) cs = Inr q"
            by (rule "2.IH"(5)[OF dir refl nskip ndd Some Dir _ nl])
          with dir nskip ndd Some Dir show ?thesis by simp
        next
          case (Symlink d)
          have nostop: "\<not> (cs = [] \<and> \<not> follow)"
          proof
            assume "cs = [] \<and> \<not> follow"
            with "2.prems"(1) dir nskip ndd Some Symlink have "cur @ [c] = q" by simp
            with Some Symlink nl show False by auto
          qed
          from "2.prems"(1) dir nskip ndd Some Symlink nostop
          obtain k where k: "fuel = Suc k" and dne: "d \<noteq> []"
            by (cases fuel) (auto split: if_splits)
          from "2.prems"(1) dir nskip ndd Some Symlink nostop k dne
          have "walk ns follow k (if IsAbs d then [] else cur) (Split d (CHR ''/'') @ cs) = Inr q"
            by auto
          then have "walk ns True k (if IsAbs d then [] else cur) (Split d (CHR ''/'') @ cs) = Inr q"
            by (rule "2.IH"(6)[OF dir refl nskip ndd Some Symlink nostop k dne _ nl])
          with dir nskip ndd Some Symlink k dne show ?thesis by simp
        qed
      qed
    qed
  qed
qed

text \<open>After a symlink is removed, a path that led to it leads to the same place, now empty,
  or to nothing at all.\<close>

lemma walk_rm_link:
  assumes "walk ns f n cur cs = Inr q"
    and "\<not> f"
    and "ns q = Some (Symlink d0)"
  shows "walk (ns(q := None)) False n cur cs = Inr q
         \<or> walk (ns(q := None)) False n cur cs = Inl ENOENT"
  using assms
proof (induction ns f n cur cs rule: walk.induct)
  case (1 ns follow fuel cur)
  then show ?case by simp
next
  case (2 ns follow fuel cur c cs)
  note nf = "2.prems"(2) and lnk = "2.prems"(3)
  from "2.prems"(1) have dir: "ns cur = Some Dir"
    by (auto split: option.splits node.splits)
  with lnk have neq: "cur \<noteq> q" by auto
  define ns' where "ns' = ns(q := None)"
  have other: "ns' k = ns k" if "k \<noteq> q" for k
    using that by (simp add: ns'_def)
  have atq: "ns' q = None" by (simp add: ns'_def)
  have dir': "ns' cur = Some Dir" using dir neq by (simp add: other)
  have "walk ns' False fuel cur (c # cs) = Inr q \<or> walk ns' False fuel cur (c # cs) = Inl ENOENT"
  proof (cases "c = [] \<or> c = ''.''")
    case True
    with "2.prems"(1) dir have "walk ns follow fuel cur cs = Inr q" by simp
    then have "walk ns' False fuel cur cs = Inr q \<or> walk ns' False fuel cur cs = Inl ENOENT"
      unfolding ns'_def by (rule "2.IH"(1)[OF dir refl True _ nf lnk])
    with dir' True show ?thesis by simp
  next
    case nskip: False
    show ?thesis
    proof (cases "c = ''..''")
      case True
      with "2.prems"(1) dir nskip have "walk ns follow fuel (butlast cur) cs = Inr q" by simp
      then have "walk ns' False fuel (butlast cur) cs = Inr q
                 \<or> walk ns' False fuel (butlast cur) cs = Inl ENOENT"
        unfolding ns'_def by (rule "2.IH"(2)[OF dir refl nskip True _ nf lnk])
      with dir' True nskip show ?thesis by simp
    next
      case ndd: False
      show ?thesis
      proof (cases "ns (cur @ [c])")
        case None
        with lnk have kq: "cur @ [c] \<noteq> q" by auto
        from "2.prems"(1) dir nskip ndd None
        have "walk ns follow fuel (cur @ [c]) cs = Inr q" by simp
        then have "walk ns' False fuel (cur @ [c]) cs = Inr q
                   \<or> walk ns' False fuel (cur @ [c]) cs = Inl ENOENT"
          unfolding ns'_def by (rule "2.IH"(3)[OF dir refl nskip ndd None _ nf lnk])
        moreover from kq None have "ns' (cur @ [c]) = None" by (simp add: other)
        ultimately show ?thesis using dir' nskip ndd by simp
      next
        case (Some nd)
        show ?thesis
        proof (cases nd)
          case (File x)
          with Some lnk have kq: "cur @ [c] \<noteq> q" by auto
          from "2.prems"(1) dir nskip ndd Some File
          have "walk ns follow fuel (cur @ [c]) cs = Inr q" by simp
          then have "walk ns' False fuel (cur @ [c]) cs = Inr q
                     \<or> walk ns' False fuel (cur @ [c]) cs = Inl ENOENT"
            unfolding ns'_def by (rule "2.IH"(4)[OF dir refl nskip ndd Some File _ nf lnk])
          moreover from kq Some File have "ns' (cur @ [c]) = Some (File x)" by (simp add: other)
          ultimately show ?thesis using dir' nskip ndd by simp
        next
          case Dir
          with Some lnk have kq: "cur @ [c] \<noteq> q" by auto
          from "2.prems"(1) dir nskip ndd Some Dir
          have "walk ns follow fuel (cur @ [c]) cs = Inr q" by simp
          then have "walk ns' False fuel (cur @ [c]) cs = Inr q
                     \<or> walk ns' False fuel (cur @ [c]) cs = Inl ENOENT"
            unfolding ns'_def by (rule "2.IH"(5)[OF dir refl nskip ndd Some Dir _ nf lnk])
          moreover from kq Some Dir have "ns' (cur @ [c]) = Some Dir" by (simp add: other)
          ultimately show ?thesis using dir' nskip ndd by simp
        next
          case (Symlink d)
          show ?thesis
          proof (cases "cs = []")
            case True
            with "2.prems"(1) dir nskip ndd Some Symlink nf have "cur @ [c] = q" by simp
            with True dir' nskip ndd atq show ?thesis by simp
          next
            case False
            then have nostop: "\<not> (cs = [] \<and> \<not> follow)" by simp
            show ?thesis
            proof (cases "cur @ [c] = q")
              case True
              from False obtain c' cs' where "cs = c' # cs'" by (cases cs) auto
              with True dir' nskip ndd atq show ?thesis by simp
            next
              case kq: False
              from "2.prems"(1) dir nskip ndd Some Symlink nostop
              obtain k where k: "fuel = Suc k" and dne: "d \<noteq> []"
                by (cases fuel) (auto split: if_splits)
              from "2.prems"(1) dir nskip ndd Some Symlink nostop k dne
              have "walk ns follow k (if IsAbs d then [] else cur) (Split d (CHR ''/'') @ cs) = Inr q"
                by auto
              then have "walk ns' False k (if IsAbs d then [] else cur) (Split d (CHR ''/'') @ cs) = Inr q
                  \<or> walk ns' False k (if IsAbs d then [] else cur) (Split d (CHR ''/'') @ cs) = Inl ENOENT"
                unfolding ns'_def
                by (rule "2.IH"(6)[OF dir refl nskip ndd Some Symlink nostop k dne _ nf lnk])
              moreover from kq Some Symlink have "ns' (cur @ [c]) = Some (Symlink d)"
                by (simp add: other)
              ultimately show ?thesis using dir' nskip ndd False k dne by auto
            qed
          qed
        qed
      qed
    qed
  qed
  then show ?case by (simp only: ns'_def)
qed

section \<open>The registry\<close>

lemma GetAllTargets_eq:
  "GetAllTargets =
     [ \<lparr> Name = ''claude'', Links = [\<lparr> Source = ''.viberules/rules.md'', Target = ''CLAUDE.md'' \<rparr>] \<rparr>,
       \<lparr> Name = ''amazonq'', Links = [\<lparr> Source = ''../../.viberules/rules.md'', Target = ''.amazonq/rules/AMAZONQ.md'' \<rparr>] \<rparr>,
       \<lparr> Name = ''gemini'', Links = [\<lparr> Source = ''.viberules/rules.md'', Target = ''GEMINI.md'' \<rparr>] \<rparr>,
       \<lparr> Name = ''codex'', Links = [\<lparr> Source = ''.viberules/rules.md'', Target = ''AGENTS.md'' \<rparr>] \<rparr> ]"
  by (simp add: GetAllTargets_def filepath_Join_def Clean_def IsAbs_def)

lemma GetRequiredDirectories_eq: "GetRequiredDirectories = [''.amazonq/rules'']"
  by (simp add: GetRequiredDirectories_def filepath_Join_def Clean_def IsAbs_def)

lemmas example_defs = exampleProject_def rulesProject_def emptyProject_def
lemmas path_defs = Clean_def IsAbs_def filepath_Dir_def filepath_Join_def
lemmas stat_defs = os_Lstat_def os_Stat_def resolve_def maxSymlinks_def

text \<open>
  Claim C5. \<open>GetAllTargets\<close> returns exactly four targets, named claude, amazonq, gemini and
  codex in this order, each with exactly one link. The links are made at \<open>CLAUDE.md\<close>,
  \<open>GEMINI.md\<close> and \<open>AGENTS.md\<close> in the project root (their directory is \<open>.\<close>) and at
  \<open>.amazonq/rules/AMAZONQ.md\<close>, two directories deep. For every link of the registry, the
  source joined to the directory that holds the link is the canonical rules file
  \<open>.viberules/rules.md\<close>.
\<close>

theorem registry_targets:
  "map Name GetAllTargets = [''claude'', ''amazonq'', ''gemini'', ''codex'']
   \<and> map (\<lambda>t. map Target (Links t)) GetAllTargets
       = [[''CLAUDE.md''], [''.amazonq/rules/AMAZONQ.md''], [''GEMINI.md''], [''AGENTS.md'']]
   \<and> map (\<lambda>t. map (\<lambda>l. Split (filepath_Dir (Target l)) (CHR ''/'')) (Links t)) GetAllTargets
       = [[[''.'']], [[''.amazonq'', ''rules'']], [[''.'']], [[''.'']]]
   \<and> (\<forall>t \<in> set GetAllTargets. \<forall>l \<in> set (Links t).
         filepath_Join [filepath_Dir (Target l), Source l] = ''.viberules/rules.md'')"
  by (simp add: GetAllTargets_eq path_defs)

theorem registry_targets_witness:
  "\<lparr> Name = ''amazonq'', Links = [\<lparr> Source = ''../../.viberules/rules.md'', Target = ''.amazonq/rules/AMAZONQ.md'' \<rparr>] \<rparr>
     \<in> set GetAllTargets
   \<and> filepath_Join [filepath_Dir ''.amazonq/rules/AMAZONQ.md'', ''../../.viberules/rules.md'']
       = ''.viberules/rules.md''"
proof -
  have mem: "\<lparr> Name = ''amazonq'', Links = [\<lparr> Source = ''../../.viberules/rules.md'', Target = ''.amazonq/rules/AMAZONQ.md'' \<rparr>] \<rparr>
     \<in> set GetAllTargets"
    by (simp add: GetAllTargets_eq)
  from registry_targets have
    "\<forall>t \<in> set GetAllTargets. \<forall>l \<in> set (Links t).
         filepath_Join [filepath_Dir (Target l), Source l] = ''.viberules/rules.md''"
    by blast
  from bspec[OF this mem] mem show ?thesis by simp
qed

section \<open>Safe removal\<close>

lemma ex_lstat_important: "os_Lstat exampleProject (Clean ''important.txt'') = Inr (File ''critical data'')"
  by (simp add: example_defs path_defs stat_defs)
lemma ex_lstat_testdir: "os_Lstat exampleProject (Clean ''testdir'') = Inr Dir"
  by (simp add: example_defs path_defs stat_defs)
lemma ex_lstat_nonexistent: "os_Lstat exampleProject (Clean ''nonexistent.txt'') = Inl ENOENT"
  by (simp add: example_defs path_defs stat_defs)
lemma ex_lstat_below_file: "os_Lstat exampleProject (Clean ''important.txt/x'') = Inl ENOTDIR"
  by (simp add: example_defs path_defs stat_defs)
lemma ex_remove_agents:
  "fst (removeSymlink ''AGENTS.md'' exampleProject) = None
   \<and> nodes (snd (removeSymlink ''AGENTS.md'' exampleProject)) [''home'', ''proj'', ''AGENTS.md''] = None"
  by (simp add: example_defs path_defs stat_defs removeSymlink_def os_Remove_def)
lemma ex_nodes_important:
  "nodes exampleProject [''home'', ''proj'', ''important.txt''] = Some (File ''critical data'')"
  by (simp add: example_defs)

lemma removeSymlink_keeps: "keeps s (snd (removeSymlink p s))"
  by (auto simp: removeSymlink_def Let_def os_Lstat_def os_Remove_def keeps_def
      split: sum.splits option.splits node.splits if_splits)

lemma removeSymlink_error_unchanged:
  "fst (removeSymlink p s) \<noteq> None \<Longrightarrow> snd (removeSymlink p s) = s"
  by (auto simp: removeSymlink_def Let_def os_Lstat_def os_Remove_def
      split: sum.splits option.splits node.splits if_splits)

text \<open>
  Claim C1. \<open>removeSymlink\<close> normalises the path and looks at the entry found at the
  normalised path, without following a link in the last position. When that entry is a
  regular file or a directory, it fails with the "not a symlink" error and returns the state
  it was given: nothing is deleted, and every entry, content and directory is as before.
  When \<open>Lstat\<close> reports that the normalised path does not exist, it succeeds and the state
  is unchanged. When \<open>Lstat\<close> fails in any other way (a name on the way to the path is not a
  directory, too many links), it fails with the "failed to stat" error and the state is
  unchanged; so a path at which nothing exists is not always a success. Whatever the path
  and the outcome, every regular file and every directory is afterwards where it was, with
  the content it had, and an error means that nothing at all was changed.
\<close>

theorem removeSymlink_safety:
  "(os_Lstat s (Clean p) = Inr (File x) \<or> os_Lstat s (Clean p) = Inr Dir
      \<longrightarrow> removeSymlink p s = (Some (Errorf (''refusing to remove '' @ Clean p @ '': not a symlink'')), s))
   \<and> (os_Lstat s (Clean p) = Inl ENOENT \<longrightarrow> removeSymlink p s = (None, s))
   \<and> (os_Lstat s (Clean p) = Inl e \<and> e \<noteq> ENOENT
      \<longrightarrow> removeSymlink p s = (Some (Wrapf (''failed to stat '' @ Clean p) (OSError e)), s))
   \<and> keeps s (snd (removeSymlink p s))
   \<and> (fst (removeSymlink p s) \<noteq> None \<longrightarrow> snd (removeSymlink p s) = s)"
proof -
  have "os_Lstat s (Clean p) = Inr (File x) \<or> os_Lstat s (Clean p) = Inr Dir
      \<longrightarrow> removeSymlink p s = (Some (Errorf (''refusing to remove '' @ Clean p @ '': not a symlink'')), s)"
    by (auto simp: removeSymlink_def Let_def)
  moreover have "os_Lstat s (Clean p) = Inl ENOENT \<longrightarrow> removeSymlink p s = (None, s)"
    by (simp add: removeSymlink_def Let_def)
  moreover have "os_Lstat s (Clean p) = Inl e \<and> e \<noteq> ENOENT
      \<longrightarrow> removeSymlink p s = (Some (Wrapf (''failed to stat '' @ Clean p) (OSError e)), s)"
    by (simp add: removeSymlink_def Let_def)
  moreover note removeSymlink_keeps[of s p]
  moreover have "fst (removeSymlink p s) \<noteq> None \<longrightarrow> snd (removeSymlink p s) = s"
    using removeSymlink_error_unchanged[of p s] by blast
  ultimately show ?thesis by blast
qed

theorem removeSymlink_safety_witness:
  "os_Lstat exampleProject (Clean ''important.txt'') = Inr (File ''critical data'')
   \<and> removeSymlink ''important.txt'' exampleProject
       = (Some (Errorf ''refusing to remove important.txt: not a symlink''), exampleProject)
   \<and> os_Lstat exampleProject (Clean ''testdir'') = Inr Dir
   \<and> removeSymlink ''testdir'' exampleProject
       = (Some (Errorf ''refusing to remove testdir: not a symlink''), exampleProject)
   \<and> os_Lstat exampleProject (Clean ''nonexistent.txt'') = Inl ENOENT
   \<and> removeSymlink ''nonexistent.txt'' exampleProject = (None, exampleProject)
   \<and> os_Lstat exampleProject (Clean ''important.txt/x'') = Inl ENOTDIR
   \<and> removeSymlink ''important.txt/x'' exampleProject
       = (Some (Wrapf ''failed to stat important.txt/x'' (OSError ENOTDIR)), exampleProject)
   \<and> fst (removeSymlink ''AGENTS.md'' exampleProject) = None
   \<and> nodes (snd (removeSymlink ''AGENTS.md'' exampleProject)) [''home'', ''proj'', ''AGENTS.md''] = None
   \<and> nodes (snd (removeSymlink ''AGENTS.md'' exampleProject)) [''home'', ''proj'', ''important.txt'']
       = Some (File ''critical data'')"
proof -
  have c1: "Clean ''important.txt'' = ''important.txt''" by (simp add: path_defs)
  have c2: "Clean ''testdir'' = ''testdir''" by (simp add: path_defs)
  have c3: "Clean ''important.txt/x'' = ''important.txt/x''" by (simp add: path_defs)
  have k: "keeps exampleProject (snd (removeSymlink ''AGENTS.md'' exampleProject))"
    using removeSymlink_safety[of exampleProject "''AGENTS.md''" "[]" ENOENT] by blast
  have n: "nodes (snd (removeSymlink ''AGENTS.md'' exampleProject)) [''home'', ''proj'', ''important.txt'']
       = Some (File ''critical data'')"
    using k ex_nodes_important unfolding keeps_def by simp
  from removeSymlink_safety[of exampleProject "''important.txt''" "''critical data''" ENOTDIR]
       removeSymlink_safety[of exampleProject "''testdir''" "[]" ENOTDIR]
       removeSymlink_safety[of exampleProject "''nonexistent.txt''" "[]" ENOTDIR]
       removeSymlink_safety[of exampleProject "''important.txt/x''" "[]" ENOTDIR]
       ex_lstat_important ex_lstat_testdir ex_lstat_nonexistent ex_lstat_below_file
       ex_remove_agents n c1 c2 c3
  show ?thesis by simp
qed

text \<open>
  The claim as it was worded fails in two ways. In \<open>amazonqFileProject\<close> the name \<open>.amazonq\<close>
  is a regular file, so nothing exists at \<open>.amazonq/rules/AMAZONQ.md\<close>, the link path of the
  target \<open>amazonq\<close>; yet \<open>removeSymlink\<close> does not succeed there but reports "failed to stat",
  and so does \<open>RemoveTargetSymlinks\<close> for that target. In \<open>dirLinkProject\<close> the path \<open>docs/\<close>
  leads to a directory (the final separator makes \<open>Lstat\<close> follow the link \<open>docs\<close>); yet
  \<open>removeSymlink\<close>, which normalises the path to \<open>docs\<close> first, finds the link, removes it and
  succeeds, and the path leads nowhere afterwards. The directory itself is untouched.
\<close>

theorem removeSymlink_safety_counterexample:
  "nodes amazonqFileProject [''home'', ''proj'', ''.amazonq'', ''rules'', ''AMAZONQ.md''] = None
   \<and> os_Lstat amazonqFileProject ''.amazonq/rules/AMAZONQ.md'' = Inl ENOTDIR
   \<and> removeSymlink ''.amazonq/rules/AMAZONQ.md'' amazonqFileProject
       = (Some (Wrapf ''failed to stat .amazonq/rules/AMAZONQ.md'' (OSError ENOTDIR)), amazonqFileProject)
   \<and> RemoveTargetSymlinks ''amazonq'' amazonqFileProject
       = (Some (Wrapf ''failed to remove symlink''
                 (Wrapf ''failed to stat .amazonq/rules/AMAZONQ.md'' (OSError ENOTDIR))),
          amazonqFileProject)
   \<and> os_Lstat dirLinkProject ''docs/'' = Inr Dir
   \<and> fst (removeSymlink ''docs/'' dirLinkProject) = None
   \<and> os_Lstat (snd (removeSymlink ''docs/'' dirLinkProject)) ''docs/'' = Inl ENOENT
   \<and> nodes (snd (removeSymlink ''docs/'' dirLinkProject)) [''home'', ''proj'', ''docs''] = None
   \<and> nodes (snd (removeSymlink ''docs/'' dirLinkProject)) [''home'', ''proj'', ''testdir''] = Some Dir"
proof -
  have a1: "nodes amazonqFileProject [''home'', ''proj'', ''.amazonq'', ''rules'', ''AMAZONQ.md''] = None"
    by (simp add: amazonqFileProject_def example_defs)
  have a2: "os_Lstat amazonqFileProject ''.amazonq/rules/AMAZONQ.md'' = Inl ENOTDIR"
    by (simp add: amazonqFileProject_def example_defs path_defs stat_defs)
  have a3: "removeSymlink ''.amazonq/rules/AMAZONQ.md'' amazonqFileProject
       = (Some (Wrapf ''failed to stat .amazonq/rules/AMAZONQ.md'' (OSError ENOTDIR)), amazonqFileProject)"
    by (simp add: amazonqFileProject_def example_defs path_defs stat_defs removeSymlink_def)
  have a4: "RemoveTargetSymlinks ''amazonq'' amazonqFileProject
       = (Some (Wrapf ''failed to remove symlink''
                 (Wrapf ''failed to stat .amazonq/rules/AMAZONQ.md'' (OSError ENOTDIR))),
          amazonqFileProject)"
    by (simp add: RemoveTargetSymlinks_def GetAllTargets_eq amazonqFileProject_def example_defs
        path_defs stat_defs removeSymlink_def)
  have d1: "os_Lstat dirLinkProject ''docs/'' = Inr Dir"
    by (simp add: dirLinkProject_def example_defs path_defs stat_defs)
  have d2: "fst (removeSymlink ''docs/'' dirLinkProject) = None"
    by (simp add: dirLinkProject_def example_defs path_defs stat_defs removeSymlink_def os_Remove_def)
  have d3: "os_Lstat (snd (removeSymlink ''docs/'' dirLinkProject)) ''docs/'' = Inl ENOENT"
    by (simp add: dirLinkProject_def example_defs path_defs stat_defs removeSymlink_def os_Remove_def)
  have d4: "nodes (snd (removeSymlink ''docs/'' dirLinkProject)) [''home'', ''proj'', ''docs''] = None"
    by (simp add: dirLinkProject_def example_defs path_defs stat_defs removeSymlink_def os_Remove_def)
  have d5: "nodes (snd (removeSymlink ''docs/'' dirLinkProject)) [''home'', ''proj'', ''testdir''] = Some Dir"
    by (simp add: dirLinkProject_def example_defs path_defs stat_defs removeSymlink_def os_Remove_def)
  from a1 a2 a3 a4 d1 d2 d3 d4 d5 show ?thesis by simp
qed

section \<open>Validity of a link\<close>

text \<open>
  Claim C4. \<open>IsSymlinkValid\<close> is a total boolean function (it never fails). It is true
  exactly when the four checks pass: an entry exists at the normalised link path, it is a
  symlink, its recorded destination after normalisation is the normalised expected source,
  and following the link succeeds. It is false when there is no entry, when the entry is a
  regular file or a directory, when the destination differs, and when following the link
  fails.
\<close>

theorem IsSymlinkValid_spec:
  "(IsSymlinkValid s linkPath expected \<longleftrightarrow>
     (\<exists>d i. os_Lstat s (Clean linkPath) = Inr (Symlink d) \<and> Clean d = Clean expected
        \<and> os_Stat s (Clean linkPath) = Inr i))
   \<and> (os_Lstat s (Clean linkPath) = Inl e \<longrightarrow> \<not> IsSymlinkValid s linkPath expected)
   \<and> (os_Lstat s (Clean linkPath) = Inr (File x) \<or> os_Lstat s (Clean linkPath) = Inr Dir
        \<longrightarrow> \<not> IsSymlinkValid s linkPath expected)
   \<and> (os_Lstat s (Clean linkPath) = Inr (Symlink d') \<and> Clean d' \<noteq> Clean expected
        \<longrightarrow> \<not> IsSymlinkValid s linkPath expected)
   \<and> (os_Stat s (Clean linkPath) = Inl e' \<longrightarrow> \<not> IsSymlinkValid s linkPath expected)"
  by (auto simp: IsSymlinkValid_def Let_def os_Readlink_def split: sum.splits node.splits)

lemma ex_valid: "IsSymlinkValid exampleProject ''CLAUDE.md'' ''.viberules/rules.md''"
  by (simp add: IsSymlinkValid_def Let_def os_Readlink_def example_defs path_defs stat_defs)

theorem IsSymlinkValid_spec_witness:
  "IsSymlinkValid exampleProject ''CLAUDE.md'' ''.viberules/rules.md''
   \<and> os_Lstat exampleProject (Clean ''CLAUDE.md'') = Inr (Symlink ''.viberules/rules.md'')
   \<and> os_Stat exampleProject (Clean ''CLAUDE.md'') = Inr (File ''# rules'')
   \<and> os_Lstat exampleProject (Clean ''nonexistent.txt'') = Inl ENOENT
   \<and> \<not> IsSymlinkValid exampleProject ''nonexistent.txt'' ''.viberules/rules.md''
   \<and> os_Lstat exampleProject (Clean ''important.txt'') = Inr (File ''critical data'')
   \<and> \<not> IsSymlinkValid exampleProject ''important.txt'' ''.viberules/rules.md''
   \<and> os_Lstat exampleProject (Clean ''AGENTS.md'') = Inr (Symlink ''important.txt'')
   \<and> \<not> IsSymlinkValid exampleProject ''AGENTS.md'' ''.viberules/rules.md''
   \<and> os_Stat exampleProject (Clean ''GEMINI.md'') = Inl ENOENT
   \<and> \<not> IsSymlinkValid exampleProject ''GEMINI.md'' ''missing.md''"
proof -
  have l1: "os_Lstat exampleProject (Clean ''CLAUDE.md'') = Inr (Symlink ''.viberules/rules.md'')"
    by (simp add: example_defs path_defs stat_defs)
  have s1: "os_Stat exampleProject (Clean ''CLAUDE.md'') = Inr (File ''# rules'')"
    by (simp add: example_defs path_defs stat_defs)
  have l4: "os_Lstat exampleProject (Clean ''AGENTS.md'') = Inr (Symlink ''important.txt'')"
    by (simp add: example_defs path_defs stat_defs)
  have c4: "Clean ''important.txt'' \<noteq> Clean ''.viberules/rules.md''"
    by (simp add: path_defs)
  have s5: "os_Stat exampleProject (Clean ''GEMINI.md'') = Inl ENOENT"
    by (simp add: example_defs path_defs stat_defs)
  note t = IsSymlinkValid_spec[of exampleProject _ _ ENOENT "''critical data''" _ ENOENT]
  from t[of "''CLAUDE.md''" "''.viberules/rules.md''" "''x''"] l1 s1
  have v1: "IsSymlinkValid exampleProject ''CLAUDE.md'' ''.viberules/rules.md''" by simp
  from t[of "''nonexistent.txt''" "''.viberules/rules.md''" "''x''"] ex_lstat_nonexistent
  have v2: "\<not> IsSymlinkValid exampleProject ''nonexistent.txt'' ''.viberules/rules.md''" by simp
  from t[of "''important.txt''" "''.viberules/rules.md''" "''x''"] ex_lstat_important
  have v3: "\<not> IsSymlinkValid exampleProject ''important.txt'' ''.viberules/rules.md''" by simp
  from t[of "''AGENTS.md''" "''.viberules/rules.md''" "''important.txt''"] l4 c4
  have v4: "\<not> IsSymlinkValid exampleProject ''AGENTS.md'' ''.viberules/rules.md''" by simp
  from t[of "''GEMINI.md''" "''missing.md''" "''x''"] s5
  have v5: "\<not> IsSymlinkValid exampleProject ''GEMINI.md'' ''missing.md''" by simp
  from v1 v2 v3 v4 v5 l1 s1 l4 s5 ex_lstat_nonexistent ex_lstat_important show ?thesis by simp
qed

section \<open>What each system call does\<close>

lemma resolve_cong:
  assumes n: "nodes t = nodes s" and c: "cwd t = cwd s"
  shows "resolve t f p = resolve s f p"
  unfolding resolve_def n c by (rule refl)

lemma os_Stat_cong:
  assumes n: "nodes t = nodes s" and c: "cwd t = cwd s"
  shows "os_Stat t p = os_Stat s p"
  unfolding os_Stat_def resolve_cong[OF n c] n by (rule refl)

lemma os_Lstat_cong:
  assumes n: "nodes t = nodes s" and c: "cwd t = cwd s"
  shows "os_Lstat t p = os_Lstat s p"
  unfolding os_Lstat_def resolve_cong[OF n c] n by (rule refl)

lemma resolve_upd_leaf:
  assumes "resolve s f p = Inr q"
    and "nodes s q = None \<or> (\<exists>x. nodes s q = Some (File x))"
    and "f \<longrightarrow> f'"
    and "f' \<longrightarrow> (\<forall>d. v \<noteq> Some (Symlink d))"
    and "nodes s' = (nodes s)(q := v)" and "cwd s' = cwd s"
  shows "resolve s' f' p = Inr q"
proof -
  from assms(1) have ne: "p \<noteq> []" by (auto simp: resolve_def split: if_splits)
  with assms(1) have
    "walk (nodes s) f maxSymlinks (if IsAbs p then [] else cwd s) (Split p (CHR ''/'')) = Inr q"
    by (simp add: resolve_def)
  from walk_upd_leaf[OF this assms(2,3,4)]
  have "walk (nodes s') f' maxSymlinks (if IsAbs p then [] else cwd s') (Split p (CHR ''/'')) = Inr q"
    unfolding assms(5,6) .
  with ne show ?thesis by (simp add: resolve_def)
qed

lemma os_WriteFile_result:
  assumes "os_WriteFile p x s = (r, s')"
  shows "(r \<noteq> None \<and> s' = s)
       \<or> (r = None \<and> (\<exists>q. resolve s True p = Inr q
              \<and> (nodes s q = None \<or> (\<exists>old. nodes s q = Some (File old)))
              \<and> s' = s\<lparr>nodes := (nodes s)(q \<mapsto> File x), trace := trace s @ [EvWriteFile p]\<rparr>))"
  using assms
  by (auto simp: os_WriteFile_def split: sum.splits option.splits node.splits if_splits)

lemma os_WriteFile_then_Stat:
  assumes "os_WriteFile p x s = (None, s')"
  shows "os_Stat s' p = Inr (File x)"
proof -
  from os_WriteFile_result[OF assms] obtain q where
    q: "resolve s True p = Inr q" "nodes s q = None \<or> (\<exists>old. nodes s q = Some (File old))"
    and s': "s' = s\<lparr>nodes := (nodes s)(q \<mapsto> File x), trace := trace s @ [EvWriteFile p]\<rparr>"
    by auto
  have "resolve s' True p = Inr q"
    by (rule resolve_upd_leaf[OF q, where v="Some (File x)"]) (simp_all add: s')
  then show ?thesis by (simp add: os_Stat_def s')
qed

lemma os_Symlink_result:
  assumes "os_Symlink a b s = (r, s')"
  shows "(r \<noteq> None \<and> s' = s)
       \<or> (r = None \<and> a \<noteq> [] \<and> (\<exists>q. resolve s False b = Inr q \<and> creatable s q
              \<and> s' = s\<lparr>nodes := (nodes s)(q \<mapsto> Symlink a), trace := trace s @ [EvSymlink a b]\<rparr>))"
  using assms
  by (auto simp: os_Symlink_def split: sum.splits option.splits if_splits)

lemma os_Mkdir_result:
  assumes "os_Mkdir p s = (r, s')"
  shows "(r \<noteq> None \<and> s' = s)
       \<or> (r = None \<and> (\<exists>q. resolve s False p = Inr q \<and> creatable s q
              \<and> s' = s\<lparr>nodes := (nodes s)(q \<mapsto> Dir), trace := trace s @ [EvMkdir p]\<rparr>))"
  using assms
  by (auto simp: os_Mkdir_def split: sum.splits option.splits if_splits)

lemma removeSymlink_result:
  assumes "removeSymlink p s = (r, s')"
  shows "s' = s
       \<or> (r = None \<and> (\<exists>q d. resolve s False (Clean p) = Inr q \<and> nodes s q = Some (Symlink d)
              \<and> s' = s\<lparr>nodes := (nodes s)(q := None), trace := trace s @ [EvRemove (Clean p)]\<rparr>))"
  using assms
  by (auto simp: removeSymlink_def Let_def os_Lstat_def os_Remove_def
      split: sum.splits option.splits node.splits if_splits)

lemma removeSymlink_absent:
  "os_Lstat s (Clean p) = Inl ENOENT \<Longrightarrow> removeSymlink p s = (None, s)"
  by (simp add: removeSymlink_def Let_def)

lemma mkdirLast_result:
  assumes "mkdirLast p s = (r, s')"
  shows "(s' = s \<and> (r = None \<longrightarrow> os_Lstat s p = Inr Dir))
       \<or> (r = None \<and> (\<exists>q. resolve s False p = Inr q \<and> creatable s q
              \<and> s' = s\<lparr>nodes := (nodes s)(q \<mapsto> Dir), trace := trace s @ [EvMkdir p]\<rparr>))"
proof (cases "os_Mkdir p s")
  case (Pair r0 s0)
  from os_Mkdir_result[OF Pair] show ?thesis
  proof
    assume "r0 \<noteq> None \<and> s0 = s"
    with Pair assms show ?thesis
      by (auto simp: mkdirLast_def split: sum.splits node.splits)
  next
    assume "r0 = None \<and> (\<exists>q. resolve s False p = Inr q \<and> creatable s q
              \<and> s0 = s\<lparr>nodes := (nodes s)(q \<mapsto> Dir), trace := trace s @ [EvMkdir p]\<rparr>)"
    with Pair assms show ?thesis
      by (auto simp: mkdirLast_def)
  qed
qed

lemma os_Lstat_then_Stat:
  assumes "os_Lstat s p = Inr n" and "\<And>d. n \<noteq> Symlink d"
  shows "os_Stat s p = Inr n"
proof -
  from assms(1) obtain q where q: "resolve s False p = Inr q" and n: "nodes s q = Some n"
    by (auto simp: os_Lstat_def split: sum.splits option.splits)
  from q have ne: "p \<noteq> []" by (auto simp: resolve_def split: if_splits)
  with q have "walk (nodes s) False maxSymlinks (if IsAbs p then [] else cwd s) (Split p (CHR ''/'')) = Inr q"
    by (simp add: resolve_def)
  from walk_follow_same[OF this] n assms(2) have
    "walk (nodes s) True maxSymlinks (if IsAbs p then [] else cwd s) (Split p (CHR ''/'')) = Inr q"
    by auto
  with ne n show ?thesis by (simp add: os_Stat_def resolve_def)
qed

lemma mkdirLast_then_Stat:
  assumes "mkdirLast p s = (None, s')"
  shows "os_Stat s' p = Inr Dir"
proof -
  from mkdirLast_result[OF assms] show ?thesis
  proof
    assume "s' = s \<and> (None = None \<longrightarrow> os_Lstat s p = Inr Dir)"
    then show ?thesis using os_Lstat_then_Stat[of s p Dir] by simp
  next
    assume "None = None \<and> (\<exists>q. resolve s False p = Inr q \<and> creatable s q
              \<and> s' = s\<lparr>nodes := (nodes s)(q \<mapsto> Dir), trace := trace s @ [EvMkdir p]\<rparr>)"
    then obtain q where q: "resolve s False p = Inr q" and c: "creatable s q"
      and s': "s' = s\<lparr>nodes := (nodes s)(q \<mapsto> Dir), trace := trace s @ [EvMkdir p]\<rparr>"
      by auto
    from c have "nodes s q = None \<or> (\<exists>x. nodes s q = Some (File x))" by (simp add: creatable_def)
    from resolve_upd_leaf[OF q this, where f'=True and v="Some Dir" and s'=s']
    have "resolve s' True p = Inr q" by (simp add: s')
    then show ?thesis by (simp add: os_Stat_def s')
  qed
qed

lemma os_MkdirAll_then_Stat:
  assumes "os_MkdirAll p s = (None, s')"
  shows "os_Stat s' p = Inr Dir"
proof (cases "os_Stat s p")
  case (Inr n)
  with assms show ?thesis by (auto simp: os_MkdirAll.simps[of p s] split: if_splits)
next
  case (Inl e)
  show ?thesis
  proof (cases "1 < parentEnd p")
    case True
    with Inl assms obtain s1 where "mkdirLast p s1 = (None, s')"
      by (auto simp: os_MkdirAll.simps[of p s] split: prod.splits option.splits)
    then show ?thesis by (rule mkdirLast_then_Stat)
  next
    case False
    with Inl assms have "mkdirLast p s = (None, s')" by (simp add: os_MkdirAll.simps[of p s])
    then show ?thesis by (rule mkdirLast_then_Stat)
  qed
qed

lemma os_MkdirAll_present:
  "os_Stat s p = Inr Dir \<Longrightarrow> os_MkdirAll p s = (None, s)"
  by (simp add: os_MkdirAll.simps[of p s])

section \<open>Loading the config\<close>

text \<open>
  Claim C7. The default config has mode \<open>local\<close> and the four target names. \<open>loadConfig\<close>
  returns it, without error, when no config file exists. When the config file exists and is
  larger than 1 MiB, \<open>loadConfig\<close> fails. When the file is read and parsed and its mode is
  neither \<open>local\<close> nor \<open>public\<close>, \<open>loadConfig\<close> succeeds with the mode set to \<open>local\<close>
  and the rest as parsed.
\<close>

theorem loadConfig_cases:
  "defaultConfig = \<lparr> Mode = ''local'', Targets = [''claude'', ''amazonq'', ''gemini'', ''codex''] \<rparr>
   \<and> (\<not> fileExists s configPath \<longrightarrow> loadConfig Y s = Inr defaultConfig)
   \<and> (os_Stat s configPath = Inr (File content) \<and> 1024 * 1024 < length content
        \<longrightarrow> loadConfig Y s
              = Inl (Errorf (''config file too large: '' @ showNat (length content) @ '' bytes (max ''
                               @ showNat maxConfigSize @ '')'')))
   \<and> (os_Stat s configPath = Inr (File content) \<and> length content \<le> 1024 * 1024
        \<and> Unmarshal Y content = Some config \<and> Mode config \<noteq> ''local'' \<and> Mode config \<noteq> ''public''
        \<longrightarrow> loadConfig Y s = Inr (config\<lparr>Mode := ''local''\<rparr>))"
  by (auto simp: loadConfig_def defaultConfig_def fileExists_def maxConfigSize_def os_ReadFile_def)


theorem loadConfig_cases_witness:
  "\<not> fileExists rulesProject configPath
   \<and> loadConfig plainYaml rulesProject = Inr defaultConfig
   \<and> os_Stat bigConfigProject configPath = Inr (File (replicate 1048577 (CHR ''a'')))
   \<and> 1024 * 1024 < length (replicate 1048577 (CHR ''a''))
   \<and> isl (loadConfig plainYaml bigConfigProject)
   \<and> os_Stat oddModeProject configPath = Inr (File ''mode: shared\<newline>targets:\<newline>    - claude\<newline>'')
   \<and> Unmarshal plainYaml ''mode: shared\<newline>targets:\<newline>    - claude\<newline>''
       = Some \<lparr> Mode = ''shared'', Targets = [''claude''] \<rparr>
   \<and> loadConfig plainYaml oddModeProject = Inr \<lparr> Mode = ''local'', Targets = [''claude''] \<rparr>"
proof -
  have a: "\<not> fileExists rulesProject configPath"
    by (simp add: fileExists_def configPath_def example_defs stat_defs IsAbs_def)
  have b: "os_Stat bigConfigProject configPath = Inr (File (replicate 1048577 (CHR ''a'')))"
    by (simp add: bigConfigProject_def configPath_def example_defs stat_defs IsAbs_def)
  have c: "os_Stat oddModeProject configPath = Inr (File ''mode: shared\<newline>targets:\<newline>    - claude\<newline>'')"
    by (simp add: oddModeProject_def configPath_def example_defs stat_defs IsAbs_def)
  have d: "Unmarshal plainYaml ''mode: shared\<newline>targets:\<newline>    - claude\<newline>''
       = Some \<lparr> Mode = ''shared'', Targets = [''claude''] \<rparr>"
    by (simp add: plainYaml_def)
  from loadConfig_cases[where s=rulesProject and Y=plainYaml and content="[]" and config=defaultConfig] a
  have r1: "loadConfig plainYaml rulesProject = Inr defaultConfig" by simp
  from loadConfig_cases[where s=bigConfigProject and Y=plainYaml
          and content="replicate 1048577 (CHR ''a'')" and config=defaultConfig] b
  have r2: "isl (loadConfig plainYaml bigConfigProject)" by simp
  from loadConfig_cases[where s=oddModeProject and Y=plainYaml
          and content="''mode: shared\<newline>targets:\<newline>    - claude\<newline>''"
          and config="\<lparr> Mode = ''shared'', Targets = [''claude''] \<rparr>"] c d
  have r3: "loadConfig plainYaml oddModeProject = Inr \<lparr> Mode = ''local'', Targets = [''claude''] \<rparr>"
    by simp
  from a b c d r1 r2 r3 show ?thesis by simp
qed

section \<open>Adding a target that is enabled already\<close>

text \<open>
  Claim C10, as amended. For a valid target name that is in the enabled-target list: when the
  rules file exists, \<open>addTarget\<close> returns success and the state it was given, so the config
  file is not rewritten and no symlink is made, removed or changed (a missing or broken link
  of that target stays as it is); when the rules file does not exist, \<open>addTarget\<close> fails with
  the "not found" error, and the state is unchanged as well.
\<close>

theorem addTarget_already_enabled:
  assumes "isValidTarget X"
    and "loadEnabledTargets Y s = Inr enabled"
    and "X \<in> set enabled"
  shows "(fileExists s rulesFile \<longrightarrow> addTarget Y X s = (None, s))
     \<and> (\<not> fileExists s rulesFile \<longrightarrow>
          addTarget Y X s
            = (Some (Errorf ''.viberules/rules.md not found. Run 'viberules init' first''), s))"
  using assms by (simp add: addTarget_def)

theorem addTarget_already_enabled_witness:
  "isValidTarget ''gemini''
   \<and> loadEnabledTargets plainYaml exampleProject = Inr [''claude'', ''amazonq'', ''gemini'', ''codex'']
   \<and> ''gemini'' \<in> set [''claude'', ''amazonq'', ''gemini'', ''codex'']
   \<and> fileExists exampleProject rulesFile
   \<and> addTarget plainYaml ''gemini'' exampleProject = (None, exampleProject)
   \<and> \<not> IsSymlinkValid (snd (addTarget plainYaml ''gemini'' exampleProject)) ''GEMINI.md''
         ''.viberules/rules.md''"
proof -
  have v: "isValidTarget ''gemini''" by (simp add: isValidTarget_def)
  have l: "loadEnabledTargets plainYaml exampleProject
             = Inr [''claude'', ''amazonq'', ''gemini'', ''codex'']"
    by (simp add: loadEnabledTargets_def loadConfig_def fileExists_def configPath_def
        defaultConfig_def example_defs stat_defs IsAbs_def)
  have m: "''gemini'' \<in> set [''claude'', ''amazonq'', ''gemini'', ''codex'']" by simp
  have f: "fileExists exampleProject rulesFile"
    by (simp add: fileExists_def rulesFile_def example_defs stat_defs IsAbs_def)
  have b: "\<not> IsSymlinkValid exampleProject ''GEMINI.md'' ''.viberules/rules.md''"
    by (simp add: IsSymlinkValid_def Let_def os_Readlink_def example_defs path_defs stat_defs)
  from addTarget_already_enabled[OF v l m] f
  have "addTarget plainYaml ''gemini'' exampleProject = (None, exampleProject)" by simp
  with v l f b show ?thesis by simp
qed

text \<open>
  Claim C10 as stated fails in a directory that was never initialised: with no config file
  the enabled-target list is the default one, which holds \<open>claude\<close>, and \<open>addTarget\<close> fails
  for want of the rules file.
\<close>

lemma empty_enabled:
  "loadEnabledTargets plainYaml emptyProject = Inr [''claude'', ''amazonq'', ''gemini'', ''codex'']"
  by (simp add: loadEnabledTargets_def loadConfig_def fileExists_def configPath_def defaultConfig_def
      example_defs stat_defs IsAbs_def)

theorem addTarget_uninitialised_counterexample:
  "isValidTarget ''claude''
   \<and> loadEnabledTargets plainYaml emptyProject = Inr [''claude'', ''amazonq'', ''gemini'', ''codex'']
   \<and> ''claude'' \<in> set [''claude'', ''amazonq'', ''gemini'', ''codex'']
   \<and> fst (addTarget plainYaml ''claude'' emptyProject)
       = Some (Errorf ''.viberules/rules.md not found. Run 'viberules init' first'')"
proof -
  have "fst (addTarget plainYaml ''claude'' emptyProject)
       = Some (Errorf ''.viberules/rules.md not found. Run 'viberules init' first'')"
    by (simp add: isValidTarget_def addTarget_def fileExists_def rulesFile_def
        example_defs stat_defs IsAbs_def)
  with empty_enabled show ?thesis by (simp add: isValidTarget_def)
qed

section \<open>Rewriting the ignore file twice\<close>

lemmas gitignore_defs = rewriteGitignore_def viberulesSection_def commonSection_def TrimRightNL_def
  gitignoreSectionPrefix_def gitignoreLocalMode_def gitignoreLocalFiles_def
  gitignoreConfigFile_def gitignoreOutputFiles_def

lemma rewrite_once:
  "rewriteGitignore ''local'' ''node_modules/\<newline>\<newline>''
     = ''node_modules/\<newline>\<newline>'' @ viberulesSection ''local''"
  by (simp add: rewriteGitignore_def gitignoreLocalMode_def gitignoreLocalFiles_def)

lemma rewrite_twice:
  "rewriteGitignore ''local'' (''node_modules/\<newline>\<newline>'' @ viberulesSection ''local'')
     = ''node_modules/\<newline>'' @ viberulesSection ''local''"
  by (simp add: gitignore_defs)

lemma addToGitignore_existing:
  assumes "os_Stat s ''.gitignore'' = Inr (File c)"
  shows "addToGitignore Y s =
     (case os_WriteFile ''.gitignore'' (rewriteGitignore (getProjectMode Y s) c) s of
        (Some e, s') \<Rightarrow> (Some (Wrapf ''failed to write .gitignore'' (OSError e)), s')
      | (None, s') \<Rightarrow> (None, s'))"
  using assms by (simp add: addToGitignore_def Let_def fileExists_def os_ReadFile_def)

lemma ignoreProject_write:
  assumes "nodes s = (nodes ignoreProject)([''home'', ''proj'', ''.gitignore''] \<mapsto> File c0)"
    and "cwd s = cwd ignoreProject"
  shows "os_WriteFile ''.gitignore'' c s
     = (None, s\<lparr>nodes := (nodes ignoreProject)([''home'', ''proj'', ''.gitignore''] \<mapsto> File c),
                 trace := trace s @ [EvWriteFile ''.gitignore'']\<rparr>)"
    and "os_Stat s ''.gitignore'' = Inr (File c0)"
    and "getProjectMode plainYaml s = ''local''"
  using assms
  by (simp_all add: os_WriteFile_def os_Stat_def resolve_def maxSymlinks_def IsAbs_def
      getProjectMode_def loadConfig_def fileExists_def configPath_def defaultConfig_def
      ignoreProject_def example_defs)

text \<open>
  Claim C2 does not hold of the code. The ignore file of \<open>ignoreProject\<close> ends with an empty
  line and has no managed section yet; the mode is \<open>local\<close>. The first run of \<open>addToGitignore\<close>
  appends the section to the content as it is; the second run finds the section, removes it,
  trims the empty line as well and appends the section again. Both runs succeed, and the file
  after the second run is one byte shorter than after the first.
\<close>

theorem addToGitignore_second_run_differs:
  "addToGitignore plainYaml ignoreProject
     = (None, ignoreProject\<lparr>nodes := (nodes ignoreProject)
          ([''home'', ''proj'', ''.gitignore''] \<mapsto>
             File (''node_modules/\<newline>\<newline>'' @ viberulesSection ''local'')),
        trace := [EvWriteFile ''.gitignore'']\<rparr>)
   \<and> addToGitignore plainYaml (snd (addToGitignore plainYaml ignoreProject))
     = (None, ignoreProject\<lparr>nodes := (nodes ignoreProject)
          ([''home'', ''proj'', ''.gitignore''] \<mapsto>
             File (''node_modules/\<newline>'' @ viberulesSection ''local'')),
        trace := [EvWriteFile ''.gitignore'', EvWriteFile ''.gitignore'']\<rparr>)
   \<and> ''node_modules/\<newline>'' @ viberulesSection ''local''
       \<noteq> ''node_modules/\<newline>\<newline>'' @ viberulesSection ''local''"
proof -
  define c0 where "c0 = ''node_modules/\<newline>\<newline>''"
  define c1 where "c1 = ''node_modules/\<newline>\<newline>'' @ viberulesSection ''local''"
  define c2 where "c2 = ''node_modules/\<newline>'' @ viberulesSection ''local''"
  define s1 where "s1 = ignoreProject\<lparr>nodes := (nodes ignoreProject)
          ([''home'', ''proj'', ''.gitignore''] \<mapsto> File c1), trace := [EvWriteFile ''.gitignore'']\<rparr>"
  have n0: "nodes ignoreProject
            = (nodes ignoreProject)([''home'', ''proj'', ''.gitignore''] \<mapsto> File c0)"
    by (simp add: ignoreProject_def c0_def)
  have t0: "trace ignoreProject = []"
    by (simp add: ignoreProject_def example_defs)
  have r1: "rewriteGitignore ''local'' c0 = c1"
    unfolding c0_def c1_def by (rule rewrite_once)
  have r2: "rewriteGitignore ''local'' c1 = c2"
    unfolding c1_def c2_def by (rule rewrite_twice)
  have first: "addToGitignore plainYaml ignoreProject = (None, s1)"
    unfolding addToGitignore_existing[OF ignoreProject_write(2)[OF n0 refl]]
      ignoreProject_write(3)[OF n0 refl] r1 ignoreProject_write(1)[OF n0 refl]
    by (simp add: s1_def t0)
  have n1: "nodes s1 = (nodes ignoreProject)([''home'', ''proj'', ''.gitignore''] \<mapsto> File c1)"
    and w1: "cwd s1 = cwd ignoreProject"
    by (simp_all add: s1_def)
  have second: "addToGitignore plainYaml s1
     = (None, ignoreProject\<lparr>nodes := (nodes ignoreProject)
          ([''home'', ''proj'', ''.gitignore''] \<mapsto> File c2),
        trace := [EvWriteFile ''.gitignore'', EvWriteFile ''.gitignore'']\<rparr>)"
    unfolding addToGitignore_existing[OF ignoreProject_write(2)[OF n1 w1]]
      ignoreProject_write(3)[OF n1 w1] r2 ignoreProject_write(1)[OF n1 w1]
    by (simp add: s1_def)
  have "c2 \<noteq> c1"
    by (simp add: c1_def c2_def viberulesSection_def gitignoreLocalMode_def)
  with first second show ?thesis
    unfolding s1_def c1_def c2_def by simp
qed

text \<open>A second input on which the claim fails: an old section of which only the
  output-files part is left is not recognised, and its header then appears twice.\<close>

lemma rewriteGitignore_header_twice:
  "Count (rewriteGitignore ''public'' ''# viberules output files (symlinked)\<newline>CLAUDE.md\<newline>'')
     gitignoreOutputFiles = 2"
  by (simp add: gitignore_defs)

section \<open>Saving and loading the config\<close>

lemma saveConfig_then_Stat:
  assumes "saveConfig Y c s = (None, s')"
  shows "\<exists>x. Marshal Y c = Some x \<and> os_Stat s' configPath = Inr (File x)"
proof (cases "Marshal Y c")
  case None
  with assms show ?thesis by (simp add: saveConfig_def)
next
  case (Some x)
  with assms have "os_WriteFile configPath x s = (None, s')"
    by (auto simp: saveConfig_def split: prod.splits option.splits)
  from os_WriteFile_then_Stat[OF this] Some show ?thesis by simp
qed

lemma loadConfig_of_file:
  assumes "os_Stat s configPath = Inr (File x)"
    and "length x \<le> 1024 * 1024"
    and "Unmarshal Y x = Some c"
    and "Mode c = ''local'' \<or> Mode c = ''public''"
  shows "loadConfig Y s = Inr c"
  using assms
  by (auto simp: loadConfig_def fileExists_def maxConfigSize_def os_ReadFile_def)

text \<open>
  Claim C8, as amended. Let \<open>m\<close> be \<open>local\<close> or \<open>public\<close> and \<open>T\<close> any list of target names, and
  let the YAML library read back the config with \<open>m\<close> and \<open>T\<close> from the bytes it writes for
  it. If these bytes are at most 1 MiB and saving the config succeeds, then loading yields
  exactly \<open>m\<close> and \<open>T\<close> (same members, same order).
\<close>

theorem save_then_load:
  assumes "m = ''local'' \<or> m = ''public''"
    and "Marshal Y \<lparr>Mode = m, Targets = T\<rparr> = Some x"
    and "Unmarshal Y x = Some \<lparr>Mode = m, Targets = T\<rparr>"
    and "length x \<le> 1024 * 1024"
    and "saveConfig Y \<lparr>Mode = m, Targets = T\<rparr> s = (None, s')"
  shows "loadConfig Y s' = Inr \<lparr>Mode = m, Targets = T\<rparr>"
proof -
  from saveConfig_then_Stat[OF assms(5)] assms(2)
  have "os_Stat s' configPath = Inr (File x)" by simp
  from loadConfig_of_file[OF this assms(4) assms(3)] assms(1) show ?thesis by simp
qed

lemma rulesProject_save:
  "saveConfig plainYaml c rulesProject
     = (None, rulesProject\<lparr>nodes := (nodes rulesProject)
          ([''home'', ''proj'', ''.viberules'', ''.config.yaml''] \<mapsto> File (the (Marshal plainYaml c))),
        trace := [EvWriteFile configPath]\<rparr>)"
  by (simp add: saveConfig_def plainYaml_def os_WriteFile_def creatable_def configPath_def
      example_defs resolve_def maxSymlinks_def IsAbs_def)

theorem save_then_load_witness:
  "Marshal plainYaml \<lparr>Mode = ''public'', Targets = [''claude'', ''gemini'']\<rparr>
     = Some ''mode: public\<newline>targets:\<newline>    - claude\<newline>    - gemini\<newline>''
   \<and> Unmarshal plainYaml ''mode: public\<newline>targets:\<newline>    - claude\<newline>    - gemini\<newline>''
     = Some \<lparr>Mode = ''public'', Targets = [''claude'', ''gemini'']\<rparr>
   \<and> fst (saveConfig plainYaml \<lparr>Mode = ''public'', Targets = [''claude'', ''gemini'']\<rparr> rulesProject) = None
   \<and> loadConfig plainYaml
        (snd (saveConfig plainYaml \<lparr>Mode = ''public'', Targets = [''claude'', ''gemini'']\<rparr> rulesProject))
     = Inr \<lparr>Mode = ''public'', Targets = [''claude'', ''gemini'']\<rparr>"
proof -
  let ?c = "\<lparr>Mode = ''public'', Targets = [''claude'', ''gemini'']\<rparr>"
  let ?x = "''mode: public\<newline>targets:\<newline>    - claude\<newline>    - gemini\<newline>''"
  have m: "Marshal plainYaml ?c = Some ?x" by (simp add: plainYaml_def)
  have u: "Unmarshal plainYaml ?x = Some ?c" by (simp add: plainYaml_def)
  have l: "length ?x \<le> 1024 * 1024" by simp
  obtain s' where sv: "saveConfig plainYaml ?c rulesProject = (None, s')"
    using rulesProject_save[of ?c] by simp
  from save_then_load[OF _ m u l sv] have "loadConfig plainYaml s' = Inr ?c" by simp
  with sv m u show ?thesis by simp
qed

text \<open>
  Claim C8 as stated fails for a target list whose saved form is larger than 1 MiB: the save
  succeeds, the library would read the bytes back, and \<open>loadConfig\<close> refuses the file for
  its size.
\<close>

lemma Split_nonempty: "Split s c \<noteq> []"
  by (induction s) (auto split: list.splits)

lemma Split_replicate:
  "a \<noteq> c \<Longrightarrow> Split (replicate n a @ rest) c
     = (case Split rest c of [] \<Rightarrow> [replicate n a] | w # ws \<Rightarrow> (replicate n a @ w) # ws)"
  by (induction n) (auto simp: Split_nonempty split: list.splits)

theorem save_then_load_counterexample:
  "Unmarshal plainYaml (the (Marshal plainYaml \<lparr>Mode = ''local'', Targets = [replicate 1048577 (CHR ''a'')]\<rparr>))
     = Some \<lparr>Mode = ''local'', Targets = [replicate 1048577 (CHR ''a'')]\<rparr>
   \<and> fst (saveConfig plainYaml \<lparr>Mode = ''local'', Targets = [replicate 1048577 (CHR ''a'')]\<rparr> rulesProject)
       = None
   \<and> loadConfig plainYaml
        (snd (saveConfig plainYaml \<lparr>Mode = ''local'', Targets = [replicate 1048577 (CHR ''a'')]\<rparr>
                rulesProject))
       = Inl (Errorf (''config file too large: '' @ showNat 1048605 @ '' bytes (max ''
                        @ showNat maxConfigSize @ '')''))"
proof -
  let ?c = "\<lparr>Mode = ''local'', Targets = [replicate 1048577 (CHR ''a'')]\<rparr>"
  have m: "Marshal plainYaml ?c
        = Some (''mode: local\<newline>targets:\<newline>    - '' @ replicate 1048577 (CHR ''a'') @ ''\<newline>'')"
    by (simp add: plainYaml_def)
  have sp: "Split (replicate 1048577 (CHR ''a'') @ ''\<newline>'') (CHR ''\<newline>'')
           = [replicate 1048577 (CHR ''a''), []]"
    by (simp add: Split_replicate)
  have u: "Unmarshal plainYaml (''mode: local\<newline>targets:\<newline>    - '' @ replicate 1048577 (CHR ''a'') @ ''\<newline>'')
        = Some ?c"
    by (simp add: plainYaml_def sp)
  have l: "loadConfig plainYaml (rulesProject\<lparr>nodes := (nodes rulesProject)
          ([''home'', ''proj'', ''.viberules'', ''.config.yaml''] \<mapsto>
             File (''mode: local\<newline>targets:\<newline>    - '' @ replicate 1048577 (CHR ''a'') @ ''\<newline>'')),
        trace := [EvWriteFile configPath]\<rparr>)
       = Inl (Errorf (''config file too large: '' @ showNat 1048605 @ '' bytes (max ''
                        @ showNat maxConfigSize @ '')''))"
    by (simp add: loadConfig_def fileExists_def configPath_def maxConfigSize_def
        example_defs stat_defs IsAbs_def)
  from m u l rulesProject_save[of ?c] show ?thesis by simp
qed

section \<open>What an operation changes\<close>

lemma traceExt_refl [simp]: "traceExt P s s"
  by (simp add: traceExt_def)

lemma traceExt_trans:
  "traceExt P s t \<Longrightarrow> traceExt P t u \<Longrightarrow> traceExt P s u"
  by (auto simp: traceExt_def)

lemma traceExt_mono:
  "traceExt P s t \<Longrightarrow> (\<And>e. P e \<Longrightarrow> Q e) \<Longrightarrow> traceExt Q s t"
  by (auto simp: traceExt_def list_all_iff)

lemma traceExt_one:
  "P e \<Longrightarrow> trace t = trace s @ [e] \<Longrightarrow> traceExt P s t"
  by (simp add: traceExt_def)

lemma keeps_refl [simp]: "keeps s s"
  by (simp add: keeps_def)

lemma keeps_trans: "keeps s t \<Longrightarrow> keeps t u \<Longrightarrow> keeps s u"
  by (auto simp: keeps_def)

lemma noNewLinks_refl [simp]: "noNewLinks s s"
  by (simp add: noNewLinks_def)

lemma noNewLinks_trans: "noNewLinks s t \<Longrightarrow> noNewLinks t u \<Longrightarrow> noNewLinks s u"
  by (auto simp: noNewLinks_def)

lemma creatable_None: "creatable s q \<Longrightarrow> nodes s q = None"
  by (simp add: creatable_def)

lemma os_Mkdir_effect:
  assumes "os_Mkdir p s = (r, s')"
  shows "traceExt isMkdirEvent s s' \<and> keeps s s' \<and> noNewLinks s s'"
proof -
  from os_Mkdir_result[OF assms] show ?thesis
  proof
    assume "r \<noteq> None \<and> s' = s"
    then show ?thesis by simp
  next
    assume "r = None \<and> (\<exists>q. resolve s False p = Inr q \<and> creatable s q
              \<and> s' = s\<lparr>nodes := (nodes s)(q \<mapsto> Dir), trace := trace s @ [EvMkdir p]\<rparr>)"
    then obtain q where c: "creatable s q"
      and s': "s' = s\<lparr>nodes := (nodes s)(q \<mapsto> Dir), trace := trace s @ [EvMkdir p]\<rparr>"
      by auto
    have "traceExt isMkdirEvent s s'"
      by (rule traceExt_one[where e="EvMkdir p"]) (simp_all add: s' isMkdirEvent_def)
    moreover have "keeps s s'"
      using creatable_None[OF c] by (auto simp: keeps_def s')
    moreover have "noNewLinks s s'"
      by (auto simp: noNewLinks_def s')
    ultimately show ?thesis by simp
  qed
qed

lemma mkdirLast_effect:
  assumes "mkdirLast p s = (r, s')"
  shows "traceExt isMkdirEvent s s' \<and> keeps s s' \<and> noNewLinks s s'"
proof (cases "os_Mkdir p s")
  case (Pair r0 s0)
  with assms have "s' = s0"
    by (auto simp: mkdirLast_def split: option.splits sum.splits node.splits)
  with os_Mkdir_effect[OF Pair] show ?thesis by simp
qed

lemma os_MkdirAll_effect:
  "os_MkdirAll p s = (r, s') \<Longrightarrow> traceExt isMkdirEvent s s' \<and> keeps s s' \<and> noNewLinks s s'"
proof (induction p s arbitrary: r s' rule: os_MkdirAll.induct)
  case (1 path s)
  show ?case
  proof (cases "os_Stat s path")
    case (Inr n)
    with "1.prems" have "s' = s" by (auto simp: os_MkdirAll.simps[of path s] split: if_splits)
    then show ?thesis by simp
  next
    case (Inl e)
    show ?thesis
    proof (cases "1 < parentEnd path")
      case False
      with Inl "1.prems" have "mkdirLast path s = (r, s')"
        by (simp add: os_MkdirAll.simps[of path s])
      then show ?thesis by (rule mkdirLast_effect)
    next
      case True
      obtain r1 s1 where par: "os_MkdirAll (take (parentEnd path - 1) path) s = (r1, s1)"
        by (cases "os_MkdirAll (take (parentEnd path - 1) path) s") auto
      from "1.IH"[OF Inl True par]
      have ih: "traceExt isMkdirEvent s s1 \<and> keeps s s1 \<and> noNewLinks s s1" .
      show ?thesis
      proof (cases r1)
        case (Some e1)
        with Inl True par "1.prems" have "s' = s1"
          by (simp add: os_MkdirAll.simps[of path s])
        with ih show ?thesis by simp
      next
        case None
        with Inl True par "1.prems" have "mkdirLast path s1 = (r, s')"
          by (simp add: os_MkdirAll.simps[of path s])
        from mkdirLast_effect[OF this] ih show ?thesis
          by (blast intro: traceExt_trans keeps_trans noNewLinks_trans)
      qed
    qed
  qed
qed

lemma removeSymlink_effect:
  assumes "removeSymlink p s = (r, s')"
  shows "traceExt isLinkEvent s s' \<and> keeps s s'"
proof -
  from removeSymlink_result[OF assms] show ?thesis
  proof
    assume "s' = s" then show ?thesis by simp
  next
    assume "r = None \<and> (\<exists>q d. resolve s False (Clean p) = Inr q \<and> nodes s q = Some (Symlink d)
              \<and> s' = s\<lparr>nodes := (nodes s)(q := None), trace := trace s @ [EvRemove (Clean p)]\<rparr>)"
    then obtain q d where n: "nodes s q = Some (Symlink d)"
      and s': "s' = s\<lparr>nodes := (nodes s)(q := None), trace := trace s @ [EvRemove (Clean p)]\<rparr>"
      by auto
    have "traceExt isLinkEvent s s'"
      by (rule traceExt_one[where e="EvRemove (Clean p)"]) (simp_all add: s')
    moreover have "keeps s s'"
      using n by (auto simp: keeps_def s')
    ultimately show ?thesis by simp
  qed
qed

lemma os_Symlink_effect:
  assumes "os_Symlink a b s = (r, s')"
  shows "traceExt isLinkEvent s s' \<and> keeps s s'"
proof -
  from os_Symlink_result[OF assms] show ?thesis
  proof
    assume "r \<noteq> None \<and> s' = s" then show ?thesis by simp
  next
    assume "r = None \<and> a \<noteq> [] \<and> (\<exists>q. resolve s False b = Inr q \<and> creatable s q
              \<and> s' = s\<lparr>nodes := (nodes s)(q \<mapsto> Symlink a), trace := trace s @ [EvSymlink a b]\<rparr>)"
    then obtain q where c: "creatable s q"
      and s': "s' = s\<lparr>nodes := (nodes s)(q \<mapsto> Symlink a), trace := trace s @ [EvSymlink a b]\<rparr>"
      by auto
    have "traceExt isLinkEvent s s'"
      by (rule traceExt_one[where e="EvSymlink a b"]) (simp_all add: s')
    moreover have "keeps s s'"
      using creatable_None[OF c] by (auto simp: keeps_def s')
    ultimately show ?thesis by simp
  qed
qed

lemma isTreeEvent_simps [simp]:
  "isLinkEvent e \<Longrightarrow> isTreeEvent e" "isMkdirEvent e \<Longrightarrow> isTreeEvent e"
  by (cases e; simp add: isTreeEvent_def isMkdirEvent_def)+

lemma createSymlink_effect:
  assumes "createSymlink a b s = (r, s')"
  shows "traceExt isTreeEvent s s' \<and> keeps s s'"
proof -
  obtain r1 s1 where rm: "removeSymlink (Clean b) s = (r1, s1)"
    by (cases "removeSymlink (Clean b) s") auto
  from removeSymlink_effect[OF rm]
  have e1: "traceExt isTreeEvent s s1 \<and> keeps s s1"
    by (blast intro: traceExt_mono isTreeEvent_simps)
  show ?thesis
  proof (cases r1)
    case (Some e)
    with rm assms have "s' = s1" by (simp add: createSymlink_def Let_def)
    with e1 show ?thesis by simp
  next
    case None
    obtain r2 s2 where mk:
      "(if filepath_Dir (Clean b) \<noteq> ''.'' then os_MkdirAll (filepath_Dir (Clean b)) s1 else (None, s1))
         = (r2, s2)"
      by (cases "if filepath_Dir (Clean b) \<noteq> ''.'' then os_MkdirAll (filepath_Dir (Clean b)) s1 else (None, s1)")
         auto
    have e2: "traceExt isTreeEvent s1 s2 \<and> keeps s1 s2"
    proof (cases "filepath_Dir (Clean b) \<noteq> ''.''")
      case True
      with mk have "os_MkdirAll (filepath_Dir (Clean b)) s1 = (r2, s2)" by simp
      from os_MkdirAll_effect[OF this] show ?thesis
        by (blast intro: traceExt_mono isTreeEvent_simps)
    next
      case False
      with mk have "s2 = s1" by simp
      then show ?thesis by simp
    qed
    show ?thesis
    proof (cases r2)
      case (Some e)
      with None rm mk assms have "s' = s2" by (simp add: createSymlink_def Let_def)
      with e1 e2 show ?thesis by (blast intro: traceExt_trans keeps_trans)
    next
      case None2: None
      obtain r3 s3 where sl: "os_Symlink (Clean a) (Clean b) s2 = (r3, s3)"
        by (cases "os_Symlink (Clean a) (Clean b) s2") auto
      with None None2 rm mk assms have "s' = s3"
        by (auto simp: createSymlink_def Let_def split: option.splits)
      with os_Symlink_effect[OF sl] e1 e2 show ?thesis
        by (blast intro: traceExt_trans keeps_trans traceExt_mono isTreeEvent_simps)
    qed
  qed
qed

lemma mkdirRequired_effect:
  "mkdirRequired dirs s = (r, s') \<Longrightarrow> traceExt isTreeEvent s s' \<and> keeps s s'"
proof (induction dirs arbitrary: s)
  case Nil
  then show ?case by simp
next
  case (Cons d dirs)
  obtain r1 s1 where mk: "os_MkdirAll d s = (r1, s1)" by (cases "os_MkdirAll d s") auto
  from os_MkdirAll_effect[OF mk] have e1: "traceExt isTreeEvent s s1 \<and> keeps s s1"
    by (blast intro: traceExt_mono isTreeEvent_simps)
  show ?case
  proof (cases r1)
    case (Some e)
    with mk Cons.prems have "s' = s1" by simp
    with e1 show ?thesis by simp
  next
    case None
    with mk Cons.prems have "mkdirRequired dirs s1 = (r, s')" by simp
    from Cons.IH[OF this] e1 show ?thesis by (blast intro: traceExt_trans keeps_trans)
  qed
qed

lemma createLinks_effect:
  "createLinks msg links s = (r, s') \<Longrightarrow> traceExt isTreeEvent s s' \<and> keeps s s'"
proof (induction links arbitrary: s)
  case Nil
  then show ?case by simp
next
  case (Cons l links)
  obtain r1 s1 where c: "createSymlink (Source l) (Target l) s = (r1, s1)"
    by (cases "createSymlink (Source l) (Target l) s") auto
  note e1 = createSymlink_effect[OF c]
  show ?case
  proof (cases r1)
    case (Some e)
    with c Cons.prems have "s' = s1" by simp
    with e1 show ?thesis by simp
  next
    case None
    with c Cons.prems have "createLinks msg links s1 = (r, s')" by simp
    from Cons.IH[OF this] e1 show ?thesis by (blast intro: traceExt_trans keeps_trans)
  qed
qed

lemma removeLinks_effect:
  "removeLinks msg links s = (r, s') \<Longrightarrow> traceExt isLinkEvent s s' \<and> keeps s s'"
proof (induction links arbitrary: s)
  case Nil
  then show ?case by simp
next
  case (Cons l links)
  obtain r1 s1 where c: "removeSymlink (Target l) s = (r1, s1)"
    by (cases "removeSymlink (Target l) s") auto
  note e1 = removeSymlink_effect[OF c]
  show ?case
  proof (cases r1)
    case (Some e)
    with c Cons.prems have "s' = s1" by simp
    with e1 show ?thesis by simp
  next
    case None
    with c Cons.prems have "removeLinks msg links s1 = (r, s')" by simp
    from Cons.IH[OF this] e1 show ?thesis by (blast intro: traceExt_trans keeps_trans)
  qed
qed

lemma createTargetLoop_effect:
  "createTargetLoop ts name s = (r, s') \<Longrightarrow> traceExt isTreeEvent s s' \<and> keeps s s'"
proof (induction ts)
  case Nil
  then show ?case by simp
next
  case (Cons t ts)
  show ?case
  proof (cases "Name t = name")
    case False
    with Cons show ?thesis by simp
  next
    case True
    obtain r1 s1 where mk: "mkdirRequired GetRequiredDirectories s = (r1, s1)"
      by (cases "mkdirRequired GetRequiredDirectories s") auto
    note e1 = mkdirRequired_effect[OF mk]
    show ?thesis
    proof (cases r1)
      case (Some e)
      with True mk Cons.prems have "s' = s1" by simp
      with e1 show ?thesis by simp
    next
      case None
      with True mk Cons.prems have "createLinks ''failed to create symlink'' (Links t) s1 = (r, s')"
        by simp
      from createLinks_effect[OF this] e1 show ?thesis by (blast intro: traceExt_trans keeps_trans)
    qed
  qed
qed

lemma CreateTargetSymlinks_effect:
  "CreateTargetSymlinks name s = (r, s') \<Longrightarrow> traceExt isTreeEvent s s' \<and> keeps s s'"
  unfolding CreateTargetSymlinks_def by (rule createTargetLoop_effect)

lemma removeTargetLoop_effect:
  "removeTargetLoop ts name s = (r, s') \<Longrightarrow> traceExt isLinkEvent s s' \<and> keeps s s'"
proof (induction ts)
  case Nil
  then show ?case by simp
next
  case (Cons t ts)
  show ?case
  proof (cases "Name t = name")
    case False
    with Cons show ?thesis by simp
  next
    case True
    with Cons.prems have "removeLinks ''failed to remove symlink'' (Links t) s = (r, s')" by simp
    then show ?thesis by (rule removeLinks_effect)
  qed
qed

lemma RemoveTargetSymlinks_effect:
  "RemoveTargetSymlinks name s = (r, s') \<Longrightarrow> traceExt isLinkEvent s s' \<and> keeps s s'"
  unfolding RemoveTargetSymlinks_def by (rule removeTargetLoop_effect)

lemma createAllLoop_effect:
  "createAllLoop ts s = (r, s') \<Longrightarrow> traceExt isTreeEvent s s' \<and> keeps s s'"
proof (induction ts arbitrary: s)
  case Nil
  then show ?case by simp
next
  case (Cons t ts)
  obtain r1 s1 where c:
    "createLinks (''failed to create symlink for '' @ Name t) (Links t) s = (r1, s1)"
    by (cases "createLinks (''failed to create symlink for '' @ Name t) (Links t) s") auto
  note e1 = createLinks_effect[OF c]
  show ?case
  proof (cases r1)
    case (Some e)
    with c Cons.prems have "s' = s1" by simp
    with e1 show ?thesis by simp
  next
    case None
    with c Cons.prems have "createAllLoop ts s1 = (r, s')" by simp
    from Cons.IH[OF this] e1 show ?thesis by (blast intro: traceExt_trans keeps_trans)
  qed
qed

lemma CreateAllSymlinks_effect:
  assumes "CreateAllSymlinks s = (r, s')"
  shows "traceExt isTreeEvent s s' \<and> keeps s s'"
proof -
  obtain r1 s1 where mk: "mkdirRequired GetRequiredDirectories s = (r1, s1)"
    by (cases "mkdirRequired GetRequiredDirectories s") auto
  note e1 = mkdirRequired_effect[OF mk]
  show ?thesis
  proof (cases r1)
    case (Some e)
    with mk assms have "s' = s1" by (simp add: CreateAllSymlinks_def)
    with e1 show ?thesis by simp
  next
    case None
    with mk assms have "createAllLoop GetAllTargets s1 = (r, s')" by (simp add: CreateAllSymlinks_def)
    from createAllLoop_effect[OF this] e1 show ?thesis by (blast intro: traceExt_trans keeps_trans)
  qed
qed

section \<open>The order of the config write and the link changes\<close>

lemma newEvents_append: "trace s' = trace s @ evs \<Longrightarrow> newEvents s s' = evs"
  by (simp add: newEvents_def)

lemma newEvents_same [simp]: "newEvents s s = []"
  by (simp add: newEvents_def)

lemma traceExt_newEvents: "traceExt P s s' \<Longrightarrow> list_all P (newEvents s s')"
  by (auto simp: traceExt_def newEvents_def)

lemma traceExt_trace:
  "traceExt P s s' \<Longrightarrow> trace s' = trace s @ newEvents s s'"
  by (auto simp: traceExt_def newEvents_def)

lemma saveConfig_result:
  assumes "saveConfig Y c s = (r, s')"
  shows "(r \<noteq> None \<and> s' = s) \<or> (r = None \<and> trace s' = trace s @ [EvWriteFile configPath])"
proof (cases "Marshal Y c")
  case None
  with assms show ?thesis by (auto simp: saveConfig_def)
next
  case (Some x)
  obtain r1 s1 where w: "os_WriteFile configPath x s = (r1, s1)"
    by (cases "os_WriteFile configPath x s") auto
  from os_WriteFile_result[OF w] Some w assms show ?thesis
    by (auto simp: saveConfig_def split: option.splits)
qed

lemma saveEnabledTargets_result:
  assumes "saveEnabledTargets Y ts s = (r, s')"
  shows "(r \<noteq> None \<and> s' = s) \<or> (r = None \<and> trace s' = trace s @ [EvWriteFile configPath])"
proof (cases "loadConfig Y s")
  case (Inl e)
  with assms show ?thesis by (auto simp: saveEnabledTargets_def)
next
  case (Inr c)
  with assms have "saveConfig Y (c\<lparr>Targets := ts\<rparr>) s = (r, s')"
    by (simp add: saveEnabledTargets_def)
  then show ?thesis by (rule saveConfig_result)
qed

lemma addToGitignore_trace:
  assumes "addToGitignore Y s = (r, s')"
  shows "traceExt (\<lambda>e. \<not> isConfigWrite e) s s'"
proof (cases "if fileExists s ''.gitignore'' then os_ReadFile s ''.gitignore'' else Inr []")
  case (Inl e)
  with assms have "s' = s" by (auto simp: addToGitignore_def Let_def)
  then show ?thesis by simp
next
  case (Inr content)
  obtain r1 s1 where w:
    "os_WriteFile ''.gitignore'' (rewriteGitignore (getProjectMode Y s) content) s = (r1, s1)"
    by (cases "os_WriteFile ''.gitignore'' (rewriteGitignore (getProjectMode Y s) content) s") auto
  with Inr assms have "s' = s1"
    by (auto simp: addToGitignore_def Let_def split: option.splits)
  with os_WriteFile_result[OF w] show ?thesis
    by (auto simp: traceExt_def isConfigWrite_def configPath_def)
qed

lemma tree_not_config: "isTreeEvent e \<Longrightarrow> \<not> isConfigWrite e"
  by (cases e) (simp_all add: isTreeEvent_def isConfigWrite_def)

lemma mkdir_not_config: "isMkdirEvent e \<Longrightarrow> \<not> isConfigWrite e"
  by (cases e) (simp_all add: isMkdirEvent_def isConfigWrite_def)

lemma traceExt_tree_notConfig:
  "traceExt isTreeEvent s t \<Longrightarrow> traceExt (\<lambda>e. \<not> isConfigWrite e) s t"
  by (erule traceExt_mono) (rule tree_not_config)

lemma traceExt_mkdir_notConfig:
  "traceExt isMkdirEvent s t \<Longrightarrow> traceExt (\<lambda>e. \<not> isConfigWrite e) s t"
  by (erule traceExt_mono) (rule mkdir_not_config)

lemma configAfterLinks_append:
  "list_all (\<lambda>e. \<not> isConfigWrite e) pre \<Longrightarrow> list_all (\<lambda>e. \<not> isLinkEvent e) post
     \<Longrightarrow> configAfterLinks (pre @ post)"
proof (induction pre)
  case Nil
  then show ?case by (induction post) (auto simp: list_all_iff)
next
  case (Cons e pre)
  then show ?case by simp
qed

lemma initProject_go:
  assumes "\<not> ((case os_Stat s ''.viberules'' of Inr info \<Rightarrow> info = Dir | Inl e \<Rightarrow> False) \<and> \<not> force)"
  shows "initProject Y force rulesContent s =
        (case os_MkdirAll ''.viberules'' s of
           (Some e, s1) \<Rightarrow> (Some (Wrapf ''failed to create .viberules directory'' (OSError e)), s1)
         | (None, s1) \<Rightarrow>
             (case (if \<not> fileExists s1 rulesFile then os_WriteFile rulesFile rulesContent s1
                    else (None, s1)) of
                (Some e, s2) \<Rightarrow> (Some (Wrapf ''failed to create .viberules/rules.md'' (OSError e)), s2)
              | (None, s2) \<Rightarrow>
                  (case addToGitignore Y s2 of
                     (ignored, s3) \<Rightarrow>
                       (case CreateAllSymlinks s3 of
                          (Some e, s4) \<Rightarrow> (Some (Wrapf ''failed to create symlinks'' e), s4)
                        | (None, s4) \<Rightarrow>
                            (case saveConfig Y defaultConfig s4 of
                               (ignored', s5) \<Rightarrow> (None, s5))))))"
  using assms unfolding initProject_def by (simp only: if_False)

lemma initProject_trace:
  "\<exists>pre post. newEvents s (snd (initProject Y force rulesContent s)) = pre @ post
      \<and> list_all (\<lambda>e. \<not> isConfigWrite e) pre \<and> (post = [] \<or> post = [EvWriteFile configPath])"
proof -
  let ?N = "\<lambda>e. \<not> isConfigWrite e"
  have done_pre: ?thesis if "snd (initProject Y force rulesContent s) = t" "traceExt ?N s t" for t
  proof -
    from that have "newEvents s (snd (initProject Y force rulesContent s)) = newEvents s t @ []
        \<and> list_all ?N (newEvents s t)"
      by (simp add: traceExt_newEvents)
    then show ?thesis by blast
  qed
  show ?thesis
  proof (cases "(case os_Stat s ''.viberules'' of Inr info \<Rightarrow> info = Dir | Inl e \<Rightarrow> False) \<and> \<not> force")
    case True
    then have "snd (initProject Y force rulesContent s) = s" by (simp add: initProject_def)
    then show ?thesis by (rule done_pre) simp
  next
    case False
    note go = initProject_go[OF False, of Y rulesContent]
    obtain r1 s1 where mk: "os_MkdirAll ''.viberules'' s = (r1, s1)"
      by (cases "os_MkdirAll ''.viberules'' s") auto
    from os_MkdirAll_effect[OF mk] have "traceExt isMkdirEvent s s1" by simp
    then have t1: "traceExt ?N s s1" by (rule traceExt_mkdir_notConfig)
    show ?thesis
    proof (cases r1)
      case (Some e)
      with mk have "snd (initProject Y force rulesContent s) = s1" by (simp add: go)
      then show ?thesis using t1 by (rule done_pre)
    next
      case m1: None
      obtain r2 s2 where wr:
        "(if \<not> fileExists s1 rulesFile then os_WriteFile rulesFile rulesContent s1 else (None, s1))
           = (r2, s2)"
        by (cases "if \<not> fileExists s1 rulesFile then os_WriteFile rulesFile rulesContent s1 else (None, s1)")
           auto
      have "traceExt ?N s1 s2"
      proof (cases "fileExists s1 rulesFile")
        case True
        with wr show ?thesis by simp
      next
        case False
        with wr have "os_WriteFile rulesFile rulesContent s1 = (r2, s2)" by simp
        from os_WriteFile_result[OF this] show ?thesis
          by (auto simp: traceExt_def isConfigWrite_def configPath_def rulesFile_def)
      qed
      with t1 have t2: "traceExt ?N s s2" by (rule traceExt_trans)
      show ?thesis
      proof (cases r2)
        case (Some e)
        with mk m1 wr have "snd (initProject Y force rulesContent s) = s2"
          by (simp add: go)
        then show ?thesis using t2 by (rule done_pre)
      next
        case m2: None
        obtain r3 s3 where gi: "addToGitignore Y s2 = (r3, s3)"
          by (cases "addToGitignore Y s2") auto
        from t2 addToGitignore_trace[OF gi] have t3: "traceExt ?N s s3"
          by (rule traceExt_trans)
        obtain r4 s4 where ca: "CreateAllSymlinks s3 = (r4, s4)"
          by (cases "CreateAllSymlinks s3") auto
        from CreateAllSymlinks_effect[OF ca] have "traceExt isTreeEvent s3 s4" by simp
        then have "traceExt ?N s3 s4" by (rule traceExt_tree_notConfig)
        with t3 have t4: "traceExt ?N s s4" by (rule traceExt_trans)
        show ?thesis
        proof (cases r4)
          case (Some e)
          with mk m1 wr m2 gi ca have "snd (initProject Y force rulesContent s) = s4"
            by (simp add: go)
          then show ?thesis using t4 by (rule done_pre)
        next
          case m4: None
          obtain r5 s5 where sv: "saveConfig Y defaultConfig s4 = (r5, s5)"
            by (cases "saveConfig Y defaultConfig s4") auto
          from mk m1 wr m2 gi ca m4 sv have fin: "snd (initProject Y force rulesContent s) = s5"
            by (simp add: go)
          from saveConfig_result[OF sv] show ?thesis
          proof
            assume "r5 \<noteq> None \<and> s5 = s4"
            with fin have "snd (initProject Y force rulesContent s) = s4" by simp
            then show ?thesis using t4 by (rule done_pre)
          next
            assume "r5 = None \<and> trace s5 = trace s4 @ [EvWriteFile configPath]"
            with traceExt_trace[OF t4]
            have "trace s5 = trace s @ (newEvents s s4 @ [EvWriteFile configPath])" by simp
            from newEvents_append[OF this] fin traceExt_newEvents[OF t4] show ?thesis by auto
          qed
        qed
      qed
    qed
  qed
qed

lemma addTarget_trace:
  "newEvents s (snd (addTarget Y X s)) = []
   \<or> (\<exists>rest. newEvents s (snd (addTarget Y X s)) = EvWriteFile configPath # rest
         \<and> list_all isTreeEvent rest)"
proof (cases "isValidTarget X \<and> fileExists s rulesFile")
  case False
  then have "snd (addTarget Y X s) = s" by (auto simp: addTarget_def)
  then show ?thesis by simp
next
  case ok: True
  show ?thesis
  proof (cases "loadEnabledTargets Y s")
    case (Inl e)
    with ok have "snd (addTarget Y X s) = s" by (simp add: addTarget_def)
    then show ?thesis by simp
  next
    case (Inr enabled)
    show ?thesis
    proof (cases "X \<in> set enabled")
      case True
      with ok Inr have "snd (addTarget Y X s) = s" by (simp add: addTarget_def)
      then show ?thesis by simp
    next
      case new: False
      obtain r1 s1 where sv: "saveEnabledTargets Y (enabled @ [X]) s = (r1, s1)"
        by (cases "saveEnabledTargets Y (enabled @ [X]) s") auto
      from saveEnabledTargets_result[OF sv] show ?thesis
      proof
        assume "r1 \<noteq> None \<and> s1 = s"
        with ok Inr new sv have "snd (addTarget Y X s) = s" by (auto simp: addTarget_def)
        then show ?thesis by simp
      next
        assume a: "r1 = None \<and> trace s1 = trace s @ [EvWriteFile configPath]"
        obtain r2 s2 where cr: "CreateTargetSymlinks X s1 = (r2, s2)"
          by (cases "CreateTargetSymlinks X s1") auto
        with ok Inr new sv a have fin: "snd (addTarget Y X s) = s2"
          by (auto simp: addTarget_def split: option.splits)
        from CreateTargetSymlinks_effect[OF cr] have t: "traceExt isTreeEvent s1 s2" by simp
        from traceExt_trace[OF t] a
        have "trace s2 = trace s @ (EvWriteFile configPath # newEvents s1 s2)" by simp
        from newEvents_append[OF this] fin traceExt_newEvents[OF t] show ?thesis by simp
      qed
    qed
  qed
qed

lemma removeTarget_trace:
  "newEvents s (snd (removeTarget Y X s)) = []
   \<or> (\<exists>rest. newEvents s (snd (removeTarget Y X s)) = EvWriteFile configPath # rest
         \<and> list_all isLinkEvent rest)"
proof (cases "isValidTarget X")
  case False
  then have "snd (removeTarget Y X s) = s" by (auto simp: removeTarget_def)
  then show ?thesis by simp
next
  case ok: True
  show ?thesis
  proof (cases "loadEnabledTargets Y s")
    case (Inl e)
    with ok have "snd (removeTarget Y X s) = s" by (simp add: removeTarget_def)
    then show ?thesis by simp
  next
    case (Inr enabled)
    show ?thesis
    proof (cases "X \<in> set enabled")
      case False
      with ok Inr have "snd (removeTarget Y X s) = s" by (simp add: removeTarget_def Let_def)
      then show ?thesis by simp
    next
      case found: True
      obtain r1 s1 where sv:
        "saveEnabledTargets Y (filter (\<lambda>enabled. enabled \<noteq> X) enabled) s = (r1, s1)"
        by (cases "saveEnabledTargets Y (filter (\<lambda>enabled. enabled \<noteq> X) enabled) s") auto
      from saveEnabledTargets_result[OF sv] show ?thesis
      proof
        assume "r1 \<noteq> None \<and> s1 = s"
        with ok Inr found sv have "snd (removeTarget Y X s) = s"
          by (auto simp: removeTarget_def Let_def)
        then show ?thesis by simp
      next
        assume a: "r1 = None \<and> trace s1 = trace s @ [EvWriteFile configPath]"
        obtain r2 s2 where cr: "RemoveTargetSymlinks X s1 = (r2, s2)"
          by (cases "RemoveTargetSymlinks X s1") auto
        with ok Inr found sv a have fin: "snd (removeTarget Y X s) = s2"
          by (auto simp: removeTarget_def Let_def split: option.splits)
        from RemoveTargetSymlinks_effect[OF cr] have t: "traceExt isLinkEvent s1 s2" by simp
        from traceExt_trace[OF t] a
        have "trace s2 = trace s @ (EvWriteFile configPath # newEvents s1 s2)" by simp
        from newEvents_append[OF this] fin traceExt_newEvents[OF t] show ?thesis by simp
      qed
    qed
  qed
qed

text \<open>
  Claim C3, as amended. In \<open>initProject\<close> the config file is written last: what the command
  changes is a run of changes none of which writes the config file, followed by at most one
  write of the config file, so no symlink is changed after the config was written. In
  \<open>addTarget\<close> and \<open>removeTarget\<close> the config file is written first: either the command
  changes nothing, or its first change is the write of the config file and every later change
  is one of a directory or a symlink.
\<close>

theorem config_write_order:
  "configAfterLinks (newEvents s (snd (initProject Y force rulesContent s)))
   \<and> (\<exists>pre post. newEvents s (snd (initProject Y force rulesContent s)) = pre @ post
         \<and> list_all (\<lambda>e. \<not> isConfigWrite e) pre \<and> (post = [] \<or> post = [EvWriteFile configPath]))
   \<and> (newEvents s (snd (addTarget Y X s)) = []
       \<or> (\<exists>rest. newEvents s (snd (addTarget Y X s)) = EvWriteFile configPath # rest
             \<and> list_all isTreeEvent rest))
   \<and> (newEvents s (snd (removeTarget Y X s)) = []
       \<or> (\<exists>rest. newEvents s (snd (removeTarget Y X s)) = EvWriteFile configPath # rest
             \<and> list_all isLinkEvent rest))"
proof -
  from initProject_trace[of s Y force rulesContent] obtain pre post where
    pp: "newEvents s (snd (initProject Y force rulesContent s)) = pre @ post"
      "list_all (\<lambda>e. \<not> isConfigWrite e) pre" "post = [] \<or> post = [EvWriteFile configPath]"
    by blast
  from pp(3) have "list_all (\<lambda>e. \<not> isLinkEvent e) post" by auto
  from configAfterLinks_append[OF pp(2) this] pp(1)
  have "configAfterLinks (newEvents s (snd (initProject Y force rulesContent s)))" by simp
  with pp addTarget_trace[of s Y X] removeTarget_trace[of s Y X] show ?thesis by blast
qed

theorem config_write_order_witness:
  "configAfterLinks (newEvents geminiOnlyProject (snd (initProject plainYaml True ''# rules'' geminiOnlyProject)))
   \<and> (\<exists>pre post. newEvents geminiOnlyProject (snd (initProject plainYaml True ''# rules'' geminiOnlyProject))
           = pre @ post
         \<and> list_all (\<lambda>e. \<not> isConfigWrite e) pre \<and> (post = [] \<or> post = [EvWriteFile configPath]))
   \<and> (newEvents geminiOnlyProject (snd (addTarget plainYaml ''claude'' geminiOnlyProject)) = []
       \<or> (\<exists>rest. newEvents geminiOnlyProject (snd (addTarget plainYaml ''claude'' geminiOnlyProject))
               = EvWriteFile configPath # rest
             \<and> list_all isTreeEvent rest))
   \<and> (newEvents geminiOnlyProject (snd (removeTarget plainYaml ''claude'' geminiOnlyProject)) = []
       \<or> (\<exists>rest. newEvents geminiOnlyProject (snd (removeTarget plainYaml ''claude'' geminiOnlyProject))
               = EvWriteFile configPath # rest
             \<and> list_all isLinkEvent rest))"
  by (rule config_write_order)

text \<open>
  Claim C3 as stated fails for \<open>addTarget\<close>. In a project where only gemini is enabled,
  adding claude writes the config file first and makes the link afterwards. And when a
  regular file is in the way of the link, \<open>addTarget\<close> fails after the config file was
  written: the config then lists claude while no link for claude exists.
\<close>

lemmas registry_defs = CreateTargetSymlinks_def RemoveTargetSymlinks_def GetAllTargets_eq
  GetRequiredDirectories_eq
lemmas link_defs = createSymlink_def removeSymlink_def os_Symlink_def os_Remove_def os_Mkdir_def
  mkdirLast_def parentEnd_def creatable_def Let_def
lemmas config_defs = loadEnabledTargets_def saveEnabledTargets_def loadConfig_def saveConfig_def
  fileExists_def configPath_def rulesFile_def maxConfigSize_def os_ReadFile_def os_WriteFile_def
  plainYaml_def isValidTarget_def

lemma geminiOnly_add:
  "addTarget plainYaml ''claude'' geminiOnlyProject
   = (None, geminiOnlyProject\<lparr>nodes := (nodes geminiOnlyProject)
        ([''home'', ''proj'', ''.viberules'', ''.config.yaml''] \<mapsto>
           File ''mode: local\<newline>targets:\<newline>    - gemini\<newline>    - claude\<newline>'',
         [''home'', ''proj'', ''.amazonq''] \<mapsto> Dir,
         [''home'', ''proj'', ''.amazonq'', ''rules''] \<mapsto> Dir,
         [''home'', ''proj'', ''CLAUDE.md''] \<mapsto> Symlink ''.viberules/rules.md''),
      trace := [EvWriteFile ''.viberules/.config.yaml'', EvMkdir ''.amazonq'',
                EvMkdir ''.amazonq/rules'', EvSymlink ''.viberules/rules.md'' ''CLAUDE.md'']\<rparr>)"
  by (simp add: addTarget_def geminiOnlyProject_def example_defs registry_defs link_defs config_defs
      path_defs stat_defs os_MkdirAll.simps)

lemma blocked_add:
  "addTarget plainYaml ''claude'' blockedProject
   = (Some (Wrapf (''failed to create symlinks for target '' @ [CHR 0x27] @ ''claude'' @ [CHR 0x27])
        (Wrapf ''failed to create symlink''
           (Errorf ''refusing to remove CLAUDE.md: not a symlink''))),
      blockedProject\<lparr>nodes := (nodes blockedProject)
        ([''home'', ''proj'', ''.viberules'', ''.config.yaml''] \<mapsto>
           File ''mode: local\<newline>targets:\<newline>    - gemini\<newline>    - claude\<newline>'',
         [''home'', ''proj'', ''.amazonq''] \<mapsto> Dir,
         [''home'', ''proj'', ''.amazonq'', ''rules''] \<mapsto> Dir),
      trace := [EvWriteFile ''.viberules/.config.yaml'', EvMkdir ''.amazonq'',
                EvMkdir ''.amazonq/rules'']\<rparr>)"
  by (simp add: addTarget_def blockedProject_def geminiOnlyProject_def example_defs registry_defs
      link_defs config_defs path_defs stat_defs os_MkdirAll.simps)

theorem config_write_order_counterexample:
  "newEvents geminiOnlyProject (snd (addTarget plainYaml ''claude'' geminiOnlyProject))
     = [EvWriteFile configPath, EvMkdir ''.amazonq'', EvMkdir ''.amazonq/rules'',
        EvSymlink ''.viberules/rules.md'' ''CLAUDE.md'']
   \<and> \<not> configAfterLinks (newEvents geminiOnlyProject (snd (addTarget plainYaml ''claude'' geminiOnlyProject)))
   \<and> fst (addTarget plainYaml ''claude'' blockedProject) \<noteq> None
   \<and> loadEnabledTargets plainYaml (snd (addTarget plainYaml ''claude'' blockedProject))
       = Inr [''gemini'', ''claude'']
   \<and> os_Lstat (snd (addTarget plainYaml ''claude'' blockedProject)) ''CLAUDE.md''
       = Inr (File ''my notes'')"
proof -
  have t0: "trace geminiOnlyProject = []"
    by (simp add: geminiOnlyProject_def example_defs)
  have ev: "newEvents geminiOnlyProject (snd (addTarget plainYaml ''claude'' geminiOnlyProject))
     = [EvWriteFile configPath, EvMkdir ''.amazonq'', EvMkdir ''.amazonq/rules'',
        EvSymlink ''.viberules/rules.md'' ''CLAUDE.md'']"
    unfolding geminiOnly_add by (simp add: newEvents_def t0 configPath_def)
  have bad: "\<not> configAfterLinks [EvWriteFile configPath, EvMkdir ''.amazonq'', EvMkdir ''.amazonq/rules'',
        EvSymlink ''.viberules/rules.md'' ''CLAUDE.md'']"
    by (simp add: isConfigWrite_def)
  have l: "loadEnabledTargets plainYaml (snd (addTarget plainYaml ''claude'' blockedProject))
       = Inr [''gemini'', ''claude'']"
    unfolding blocked_add
    by (simp add: blockedProject_def geminiOnlyProject_def example_defs config_defs stat_defs IsAbs_def)
  have f: "os_Lstat (snd (addTarget plainYaml ''claude'' blockedProject)) ''CLAUDE.md''
       = Inr (File ''my notes'')"
    unfolding blocked_add
    by (simp add: blockedProject_def geminiOnlyProject_def example_defs stat_defs IsAbs_def)
  have e: "fst (addTarget plainYaml ''claude'' blockedProject) \<noteq> None"
    unfolding blocked_add by simp
  from ev bad l f e show ?thesis by simp
qed

section \<open>Making a link twice\<close>

lemma creatable_cong:
  "nodes t = nodes s \<Longrightarrow> creatable t q = creatable s q"
  by (simp add: creatable_def)

lemma os_Symlink_at:
  assumes "a \<noteq> []" and "resolve s False b = Inr q" and "creatable s q"
  shows "os_Symlink a b s
     = (None, s\<lparr>nodes := (nodes s)(q \<mapsto> Symlink a), trace := trace s @ [EvSymlink a b]\<rparr>)"
  using assms by (simp add: os_Symlink_def creatable_def)

lemma removeSymlink_at:
  assumes "resolve s False (Clean p) = Inr q" and "nodes s q = Some (Symlink d)"
  shows "removeSymlink p s
     = (None, s\<lparr>nodes := (nodes s)(q := None), trace := trace s @ [EvRemove (Clean p)]\<rparr>)"
  using assms by (simp add: removeSymlink_def Let_def os_Lstat_def os_Remove_def)

lemma createSymlink_again:
  assumes first: "createSymlink a b s = (None, s1)"
    and clean: "Clean (Clean b) = Clean b"
  shows "\<exists>s2. createSymlink a b s1 = (None, s2) \<and> nodes s2 = nodes s1 \<and> cwd s2 = cwd s1"
proof -
  let ?A = "Clean a" and ?B = "Clean b"
  let ?D = "filepath_Dir ?B"
  obtain r1 sB where rm: "removeSymlink ?B s = (r1, sB)" by (cases "removeSymlink ?B s") auto
  with first have r1: "r1 = None"
    by (cases r1) (auto simp: createSymlink_def Let_def)
  obtain r2 sC where mk: "(if ?D \<noteq> ''.'' then os_MkdirAll ?D sB else (None, sB)) = (r2, sC)"
    by (cases "if ?D \<noteq> ''.'' then os_MkdirAll ?D sB else (None, sB)") auto
  with first rm r1 have r2: "r2 = None"
    by (cases r2) (auto simp: createSymlink_def Let_def)
  obtain r3 s3 where sl: "os_Symlink ?A ?B sC = (r3, s3)" by (cases "os_Symlink ?A ?B sC") auto
  with first rm r1 mk r2 have r3: "r3 = None" and s3: "s3 = s1"
    by (auto simp: createSymlink_def Let_def split: option.splits)
  from os_Symlink_result[OF sl] r3 s3 obtain q where
    ane: "?A \<noteq> []" and q: "resolve sC False ?B = Inr q" and cr: "creatable sC q"
    and s1: "s1 = sC\<lparr>nodes := (nodes sC)(q \<mapsto> Symlink ?A), trace := trace sC @ [EvSymlink ?A ?B]\<rparr>"
    by auto
  from cr have qn: "nodes sC q = None" by (simp add: creatable_def)
  \<comment> \<open>the second call finds the link where the first call made it\<close>
  have q1: "resolve s1 False ?B = Inr q"
    by (rule resolve_upd_leaf[OF q, where v="Some (Symlink ?A)"]) (simp_all add: qn s1)
  have n1: "nodes s1 q = Some (Symlink ?A)" by (simp add: s1)
  define sB' where "sB' = s1\<lparr>nodes := (nodes s1)(q := None), trace := trace s1 @ [EvRemove ?B]\<rparr>"
  from q1 n1 have rm': "removeSymlink ?B s1 = (None, sB')"
    unfolding sB'_def using removeSymlink_at[of s1 ?B q ?A] clean by simp
  have nB: "nodes sB' = nodes sC" using qn by (auto simp: sB'_def s1)
  have cB: "cwd sB' = cwd sC" by (simp add: sB'_def s1)
  have mk': "(if ?D \<noteq> ''.'' then os_MkdirAll ?D sB' else (None, sB')) = (None, sB')"
  proof (cases "?D \<noteq> ''.''")
    case True
    with mk r2 have "os_MkdirAll ?D sB = (None, sC)" by simp
    from os_MkdirAll_then_Stat[OF this] have "os_Stat sB' ?D = Inr Dir"
      by (simp add: os_Stat_cong[OF nB cB])
    with True show ?thesis by (simp add: os_MkdirAll_present)
  next
    case False
    then show ?thesis by simp
  qed
  have q2: "resolve sB' False ?B = Inr q" using q by (simp add: resolve_cong[OF nB cB])
  have cr2: "creatable sB' q" using cr by (simp add: creatable_cong[OF nB])
  define s2 where "s2 = sB'\<lparr>nodes := (nodes sB')(q \<mapsto> Symlink ?A), trace := trace sB' @ [EvSymlink ?A ?B]\<rparr>"
  have sl': "os_Symlink ?A ?B sB' = (None, s2)"
    unfolding s2_def by (rule os_Symlink_at[OF ane q2 cr2])
  have "createSymlink a b s1 = (None, s2)"
    using rm' mk' sl' by (simp add: createSymlink_def Let_def)
  moreover have "nodes s2 = nodes s1" by (simp add: s2_def nB s1)
  moreover have "cwd s2 = cwd s1" by (simp add: s2_def cB s1)
  ultimately show ?thesis by blast
qed

lemma keeps_node: "keeps s t \<Longrightarrow> nodes s k = Some Dir \<Longrightarrow> nodes t k = Some Dir"
  by (auto simp: keeps_def)

lemma keeps_file: "keeps s t \<Longrightarrow> nodes s k = Some (File x) \<Longrightarrow> nodes t k = Some (File x)"
  by (auto simp: keeps_def)

lemma keeps_cwd: "keeps s t \<Longrightarrow> cwd t = cwd s"
  by (simp add: keeps_def)

lemma isLink_cases: "\<not> isLink n \<Longrightarrow> n = None \<or> n = Some Dir \<or> (\<exists>x. n = Some (File x))"
  by (cases n rule: isLink.cases) auto

lemma required_dirs_real:
  assumes "nodes t (cwd t) = Some Dir"
    and "\<not> isLink (nodes t (cwd t @ [''.amazonq'']))"
    and "\<not> isLink (nodes t (cwd t @ [''.amazonq'', ''rules'']))"
    and "os_Stat t ''.amazonq/rules'' = Inr Dir"
  shows "nodes t (cwd t @ [''.amazonq'']) = Some Dir \<and> nodes t (cwd t @ [''.amazonq'', ''rules'']) = Some Dir"
  using isLink_cases[OF assms(2)] isLink_cases[OF assms(3)] assms(1,4)
  by (auto simp: os_Stat_def resolve_def IsAbs_def maxSymlinks_def split: option.splits)

lemma required_dirs_stat:
  assumes "nodes t (cwd t) = Some Dir"
    and "nodes t (cwd t @ [''.amazonq'']) = Some Dir"
    and "nodes t (cwd t @ [''.amazonq'', ''rules'']) = Some Dir"
  shows "os_Stat t ''.amazonq/rules'' = Inr Dir"
  using assms by (simp add: os_Stat_def resolve_def IsAbs_def maxSymlinks_def)

lemma isValidTarget_cases:
  "isValidTarget X \<Longrightarrow> X = ''claude'' \<or> X = ''amazonq'' \<or> X = ''gemini'' \<or> X = ''codex''"
  by (auto simp: isValidTarget_def)

text \<open>Every valid target has one link; its two paths are in normal form.\<close>

lemma valid_target_link:
  assumes "isValidTarget X"
  shows "\<exists>src tgt. Clean src = src \<and> Clean tgt = tgt
      \<and> (\<forall>t \<in> set GetAllTargets. Name t = X \<longrightarrow> Links t = [\<lparr>Source = src, Target = tgt\<rparr>])
      \<and> (\<forall>s. CreateTargetSymlinks X s =
            (case os_MkdirAll ''.amazonq/rules'' s of
               (Some e, s') \<Rightarrow> (Some (Wrapf ''failed to create directory .amazonq/rules'' (OSError e)), s')
             | (None, s') \<Rightarrow>
                 (case createSymlink src tgt s' of
                    (Some e, s'') \<Rightarrow> (Some (Wrapf ''failed to create symlink'' e), s'')
                  | (None, s'') \<Rightarrow> (None, s''))))
      \<and> (\<forall>s. RemoveTargetSymlinks X s =
            (case removeSymlink tgt s of
               (Some e, s') \<Rightarrow> (Some (Wrapf ''failed to remove symlink'' e), s')
             | (None, s') \<Rightarrow> (None, s')))"
proof -
  have c1: "Clean ''.viberules/rules.md'' = ''.viberules/rules.md''"
    and c2: "Clean ''../../.viberules/rules.md'' = ''../../.viberules/rules.md''"
    and c3: "Clean ''CLAUDE.md'' = ''CLAUDE.md''"
    and c4: "Clean ''GEMINI.md'' = ''GEMINI.md''"
    and c5: "Clean ''AGENTS.md'' = ''AGENTS.md''"
    and c6: "Clean ''.amazonq/rules/AMAZONQ.md'' = ''.amazonq/rules/AMAZONQ.md''"
    by (simp_all add: Clean_def IsAbs_def)
  from isValidTarget_cases[OF assms] show ?thesis
  proof (elim disjE)
    assume X: "X = ''claude''"
    show ?thesis
      by (rule exI[of _ "''.viberules/rules.md''"], rule exI[of _ "''CLAUDE.md''"])
         (simp add: X c1 c3 CreateTargetSymlinks_def RemoveTargetSymlinks_def GetAllTargets_eq
            GetRequiredDirectories_eq split: prod.splits option.splits)
  next
    assume X: "X = ''amazonq''"
    show ?thesis
      by (rule exI[of _ "''../../.viberules/rules.md''"], rule exI[of _ "''.amazonq/rules/AMAZONQ.md''"])
         (simp add: X c2 c6 CreateTargetSymlinks_def RemoveTargetSymlinks_def GetAllTargets_eq
            GetRequiredDirectories_eq split: prod.splits option.splits)
  next
    assume X: "X = ''gemini''"
    show ?thesis
      by (rule exI[of _ "''.viberules/rules.md''"], rule exI[of _ "''GEMINI.md''"])
         (simp add: X c1 c4 CreateTargetSymlinks_def RemoveTargetSymlinks_def GetAllTargets_eq
            GetRequiredDirectories_eq split: prod.splits option.splits)
  next
    assume X: "X = ''codex''"
    show ?thesis
      by (rule exI[of _ "''.viberules/rules.md''"], rule exI[of _ "''AGENTS.md''"])
         (simp add: X c1 c5 CreateTargetSymlinks_def RemoveTargetSymlinks_def GetAllTargets_eq
            GetRequiredDirectories_eq split: prod.splits option.splits)
  qed
qed

lemma removeSymlink_then_absent:
  assumes "removeSymlink p s = (None, s')"
  shows "os_Lstat s' (Clean p) = Inl ENOENT"
proof (cases "os_Lstat s (Clean p)")
  case (Inl e)
  with assms have "e = ENOENT \<and> s' = s"
    by (auto simp: removeSymlink_def Let_def split: if_splits)
  with Inl show ?thesis by simp
next
  case (Inr n)
  with assms obtain d where n: "n = Symlink d"
    by (cases n) (auto simp: removeSymlink_def Let_def)
  from Inr obtain q where q: "resolve s False (Clean p) = Inr q" and nq: "nodes s q = Some (Symlink d)"
    by (auto simp: os_Lstat_def n split: sum.splits option.splits)
  from removeSymlink_at[OF q nq] assms
  have s': "s' = s\<lparr>nodes := (nodes s)(q := None), trace := trace s @ [EvRemove (Clean p)]\<rparr>"
    by simp
  from q have ne: "Clean p \<noteq> []" by (auto simp: resolve_def split: if_splits)
  with q have "walk (nodes s) False maxSymlinks (if IsAbs (Clean p) then [] else cwd s)
                 (Split (Clean p) (CHR ''/'')) = Inr q"
    by (simp add: resolve_def)
  from walk_rm_link[OF this _ nq]
  have "resolve s' False (Clean p) = Inr q \<or> resolve s' False (Clean p) = Inl ENOENT"
    using ne by (cases "IsAbs (Clean p)") (simp_all add: resolve_def s')
  then show ?thesis by (auto simp: os_Lstat_def s')
qed

lemma createSymlink_success:
  assumes first: "createSymlink a b s = (None, s1)"
  shows "\<exists>sC q. keeps s sC \<and> resolve sC False (Clean b) = Inr q \<and> nodes sC q = None
           \<and> nodes s1 = (nodes sC)(q \<mapsto> Symlink (Clean a)) \<and> cwd s1 = cwd sC"
proof -
  let ?A = "Clean a" and ?B = "Clean b"
  let ?D = "filepath_Dir ?B"
  obtain r1 sB where rm: "removeSymlink ?B s = (r1, sB)" by (cases "removeSymlink ?B s") auto
  with first have r1: "r1 = None"
    by (cases r1) (auto simp: createSymlink_def Let_def)
  obtain r2 sC where mk: "(if ?D \<noteq> ''.'' then os_MkdirAll ?D sB else (None, sB)) = (r2, sC)"
    by (cases "if ?D \<noteq> ''.'' then os_MkdirAll ?D sB else (None, sB)") auto
  with first rm r1 have r2: "r2 = None"
    by (cases r2) (auto simp: createSymlink_def Let_def)
  obtain r3 s3 where sl: "os_Symlink ?A ?B sC = (r3, s3)" by (cases "os_Symlink ?A ?B sC") auto
  with first rm r1 mk r2 have r3: "r3 = None" and s3: "s3 = s1"
    by (auto simp: createSymlink_def Let_def split: option.splits)
  from os_Symlink_result[OF sl] r3 s3 obtain q where
    q: "resolve sC False ?B = Inr q" and cr: "creatable sC q"
    and s1: "s1 = sC\<lparr>nodes := (nodes sC)(q \<mapsto> Symlink ?A), trace := trace sC @ [EvSymlink ?A ?B]\<rparr>"
    by auto
  from removeSymlink_effect[OF rm] have k1: "keeps s sB" by simp
  have k2: "keeps sB sC"
  proof (cases "?D \<noteq> ''.''")
    case True
    with mk have "os_MkdirAll ?D sB = (r2, sC)" by simp
    from os_MkdirAll_effect[OF this] show ?thesis by simp
  next
    case False
    with mk show ?thesis by simp
  qed
  from k1 k2 have "keeps s sC" by (rule keeps_trans)
  with q cr s1 show ?thesis by (auto simp: creatable_def)
qed

lemma rules_file_real:
  assumes "nodes t (cwd t) = Some Dir"
    and "\<not> isLink (nodes t (cwd t @ [''.viberules'']))"
    and "os_Lstat t ''.viberules/rules.md'' = Inr (File c)"
  shows "nodes t (cwd t @ [''.viberules'']) = Some Dir
       \<and> nodes t (cwd t @ [''.viberules'', ''rules.md'']) = Some (File c)"
  using isLink_cases[OF assms(2)] assms(1,3)
  by (auto simp: os_Lstat_def resolve_def IsAbs_def maxSymlinks_def split: option.splits node.splits)

lemma root_link_valid:
  assumes W: "nodes sC (cwd sC) = Some Dir"
    and V: "nodes sC (cwd sC @ [''.viberules'']) = Some Dir"
    and F: "nodes sC (cwd sC @ [''.viberules'', ''rules.md'']) = Some (File c)"
    and q: "resolve sC False tgt = Inr q"
    and n1: "nodes s1 = (nodes sC)(q \<mapsto> Symlink ''.viberules/rules.md'')"
    and c1: "cwd s1 = cwd sC"
    and tgt: "tgt = ''CLAUDE.md'' \<or> tgt = ''GEMINI.md'' \<or> tgt = ''AGENTS.md''"
  shows "IsSymlinkValid s1 tgt ''.viberules/rules.md''"
proof -
  from tgt q W have qq: "q = cwd sC @ [tgt]"
    by (auto simp: resolve_def IsAbs_def maxSymlinks_def split: option.splits node.splits)
  have ct: "Clean tgt = tgt" using tgt by (auto simp: Clean_def IsAbs_def)
  have cs: "Clean ''.viberules/rules.md'' = ''.viberules/rules.md''" by (simp add: Clean_def IsAbs_def)
  have sp: "Split tgt (CHR ''/'') = [tgt]" "tgt \<noteq> []" "tgt \<noteq> ''.''" "tgt \<noteq> ''..''" "\<not> IsAbs tgt"
    "tgt \<noteq> ''.viberules''"
    using tgt by (auto simp: IsAbs_def)
  have l: "os_Lstat s1 tgt = Inr (Symlink ''.viberules/rules.md'')"
    using W sp by (simp add: os_Lstat_def resolve_def maxSymlinks_def n1 c1 qq)
  have s: "os_Stat s1 tgt = Inr (File c)"
    using W V F sp by (simp add: os_Stat_def resolve_def maxSymlinks_def n1 c1 qq IsAbs_def)
  from l s show ?thesis
    by (simp add: IsSymlinkValid_def Let_def ct cs os_Readlink_def)
qed

lemma nested_link_valid:
  assumes W: "nodes sC (cwd sC) = Some Dir"
    and V: "nodes sC (cwd sC @ [''.viberules'']) = Some Dir"
    and F: "nodes sC (cwd sC @ [''.viberules'', ''rules.md'']) = Some (File c)"
    and A: "nodes sC (cwd sC @ [''.amazonq'']) = Some Dir"
    and R: "nodes sC (cwd sC @ [''.amazonq'', ''rules'']) = Some Dir"
    and q: "resolve sC False ''.amazonq/rules/AMAZONQ.md'' = Inr q"
    and n1: "nodes s1 = (nodes sC)(q \<mapsto> Symlink ''../../.viberules/rules.md'')"
    and c1: "cwd s1 = cwd sC"
  shows "IsSymlinkValid s1 ''.amazonq/rules/AMAZONQ.md'' ''../../.viberules/rules.md''"
proof -
  from q W A R have qq: "q = cwd sC @ [''.amazonq'', ''rules'', ''AMAZONQ.md'']"
    by (auto simp: resolve_def IsAbs_def maxSymlinks_def split: option.splits node.splits)
  have ct: "Clean ''.amazonq/rules/AMAZONQ.md'' = ''.amazonq/rules/AMAZONQ.md''"
    by (simp add: Clean_def IsAbs_def)
  have cs: "Clean ''../../.viberules/rules.md'' = ''../../.viberules/rules.md''"
    by (simp add: Clean_def IsAbs_def)
  have l: "os_Lstat s1 ''.amazonq/rules/AMAZONQ.md'' = Inr (Symlink ''../../.viberules/rules.md'')"
    using W A R by (simp add: os_Lstat_def resolve_def maxSymlinks_def n1 c1 qq IsAbs_def)
  have s: "os_Stat s1 ''.amazonq/rules/AMAZONQ.md'' = Inr (File c)"
    using W V F A R
    by (simp add: os_Stat_def resolve_def maxSymlinks_def n1 c1 qq IsAbs_def butlast_append)
  from l s show ?thesis
    by (simp add: IsSymlinkValid_def Let_def ct cs os_Readlink_def)
qed

lemma IsSymlinkValid_cong:
  assumes n: "nodes t = nodes s" and c: "cwd t = cwd s"
  shows "IsSymlinkValid t p e = IsSymlinkValid s p e"
  unfolding IsSymlinkValid_def os_Readlink_def os_Lstat_cong[OF n c] os_Stat_cong[OF n c]
  by (rule refl)

lemma valid_target_paths:
  assumes "isValidTarget X"
    and "t \<in> set GetAllTargets" and "Name t = X" and "l \<in> set (Links t)"
  shows "(Source l = ''.viberules/rules.md''
            \<and> (Target l = ''CLAUDE.md'' \<or> Target l = ''GEMINI.md'' \<or> Target l = ''AGENTS.md''))
       \<or> (Source l = ''../../.viberules/rules.md'' \<and> Target l = ''.amazonq/rules/AMAZONQ.md'')"
  using assms by (auto simp: GetAllTargets_eq)

text \<open>What the first successful call leaves: the link of the target, made in a state where
  the directories of a plain project are real directories.\<close>

lemma CreateTargetSymlinks_first:
  assumes valid: "isValidTarget X"
    and plain: "plainProject s"
    and first: "CreateTargetSymlinks X s = (None, s1)"
  shows "\<exists>src tgt sC q.
           (\<forall>t \<in> set GetAllTargets. Name t = X \<longrightarrow> Links t = [\<lparr>Source = src, Target = tgt\<rparr>])
         \<and> keeps s sC \<and> resolve sC False tgt = Inr q \<and> nodes sC q = None
         \<and> nodes s1 = (nodes sC)(q \<mapsto> Symlink src) \<and> cwd s1 = cwd sC
         \<and> nodes sC (cwd sC) = Some Dir
         \<and> nodes sC (cwd sC @ [''.amazonq'']) = Some Dir
         \<and> nodes sC (cwd sC @ [''.amazonq'', ''rules'']) = Some Dir
         \<and> os_MkdirAll ''.amazonq/rules'' s1 = (None, s1)
         \<and> (\<exists>s2. createSymlink src tgt s1 = (None, s2) \<and> nodes s2 = nodes s1 \<and> cwd s2 = cwd s1)
         \<and> (\<forall>u. CreateTargetSymlinks X u =
            (case os_MkdirAll ''.amazonq/rules'' u of
               (Some e, u') \<Rightarrow> (Some (Wrapf ''failed to create directory .amazonq/rules'' (OSError e)), u')
             | (None, u') \<Rightarrow>
                 (case createSymlink src tgt u' of
                    (Some e, u'') \<Rightarrow> (Some (Wrapf ''failed to create symlink'' e), u'')
                  | (None, u'') \<Rightarrow> (None, u''))))"
proof -
  from valid_target_link[OF valid] obtain src tgt where
    cs: "Clean src = src" and ct: "Clean tgt = tgt"
    and lk: "\<forall>t \<in> set GetAllTargets. Name t = X \<longrightarrow> Links t = [\<lparr>Source = src, Target = tgt\<rparr>]"
    and un: "\<forall>u. CreateTargetSymlinks X u =
            (case os_MkdirAll ''.amazonq/rules'' u of
               (Some e, u') \<Rightarrow> (Some (Wrapf ''failed to create directory .amazonq/rules'' (OSError e)), u')
             | (None, u') \<Rightarrow>
                 (case createSymlink src tgt u' of
                    (Some e, u'') \<Rightarrow> (Some (Wrapf ''failed to create symlink'' e), u'')
                  | (None, u'') \<Rightarrow> (None, u'')))"
    by blast
  obtain r0 sA where mk: "os_MkdirAll ''.amazonq/rules'' s = (r0, sA)"
    by (cases "os_MkdirAll ''.amazonq/rules'' s") auto
  with first un have r0: "r0 = None" by (cases r0) auto
  obtain r1 s1' where "createSymlink src tgt sA = (r1, s1')"
    by (cases "createSymlink src tgt sA") auto
  with first mk r0 un have cs1: "createSymlink src tgt sA = (None, s1)"
    by (cases r1) auto
  from os_MkdirAll_effect[OF mk] have kA: "keeps s sA" and nlA: "noNewLinks s sA" by simp_all
  from plain have p: "nodes s (cwd s) = Some Dir"
    "\<not> isLink (nodes s (cwd s @ [''.amazonq'']))"
    "\<not> isLink (nodes s (cwd s @ [''.amazonq'', ''rules'']))"
    by (simp_all add: plainProject_def)
  have cA: "cwd sA = cwd s" by (rule keeps_cwd[OF kA])
  have dA: "nodes sA (cwd sA) = Some Dir" using keeps_node[OF kA p(1)] cA by simp
  have lA: "\<not> isLink (nodes sA (cwd sA @ [''.amazonq'']))"
    "\<not> isLink (nodes sA (cwd sA @ [''.amazonq'', ''rules'']))"
    using nlA p(2,3) cA by (auto simp: noNewLinks_def)
  from mk r0 have "os_Stat sA ''.amazonq/rules'' = Inr Dir"
    by (simp add: os_MkdirAll_then_Stat)
  from required_dirs_real[OF dA lA this]
  have rA: "nodes sA (cwd sA @ [''.amazonq'']) = Some Dir"
    "nodes sA (cwd sA @ [''.amazonq'', ''rules'']) = Some Dir" by simp_all
  from createSymlink_success[OF cs1] cs ct obtain sC q where
    kC: "keeps sA sC" and q: "resolve sC False tgt = Inr q" and qn: "nodes sC q = None"
    and n1: "nodes s1 = (nodes sC)(q \<mapsto> Symlink src)" and c1: "cwd s1 = cwd sC"
    by auto
  have cC: "cwd sC = cwd sA" by (rule keeps_cwd[OF kC])
  have dC: "nodes sC (cwd sC) = Some Dir"
    "nodes sC (cwd sC @ [''.amazonq'']) = Some Dir"
    "nodes sC (cwd sC @ [''.amazonq'', ''rules'']) = Some Dir"
    using keeps_node[OF kC dA] keeps_node[OF kC rA(1)] keeps_node[OF kC rA(2)] cC by simp_all
  from createSymlink_effect[OF cs1] have k1: "keeps sA s1" by simp
  have c1A: "cwd s1 = cwd sA" by (rule keeps_cwd[OF k1])
  have "os_Stat s1 ''.amazonq/rules'' = Inr Dir"
    by (rule required_dirs_stat)
       (simp_all add: c1A keeps_node[OF k1 dA] keeps_node[OF k1 rA(1)] keeps_node[OF k1 rA(2)])
  then have mk1: "os_MkdirAll ''.amazonq/rules'' s1 = (None, s1)" by (rule os_MkdirAll_present)
  from createSymlink_again[OF cs1] ct have
    again: "\<exists>s2. createSymlink src tgt s1 = (None, s2) \<and> nodes s2 = nodes s1 \<and> cwd s2 = cwd s1"
    by simp
  from keeps_trans[OF kA kC] have "keeps s sC" .
  with lk q qn n1 c1 dC mk1 again un show ?thesis by blast
qed

text \<open>
  Claim C6, as amended. Let \<open>X\<close> be a valid target name and the project a plain one. If
  \<open>CreateTargetSymlinks X\<close> returns no error, then calling it again returns no error and
  leaves the entries of the filesystem and the working directory exactly as the first call
  left them; and when the rules file is a regular file, the link of \<open>X\<close> is valid after the
  first call and after the second. If \<open>RemoveTargetSymlinks X\<close> returns no error, calling it
  again returns no error and changes nothing.
\<close>

theorem CreateTargetSymlinks_twice:
  assumes valid: "isValidTarget X"
    and plain: "plainProject s"
  shows "(CreateTargetSymlinks X s = (None, s1) \<longrightarrow>
            fst (CreateTargetSymlinks X s1) = None
          \<and> nodes (snd (CreateTargetSymlinks X s1)) = nodes s1
          \<and> cwd (snd (CreateTargetSymlinks X s1)) = cwd s1
          \<and> (os_Lstat s rulesFile = Inr (File c) \<longrightarrow>
               (\<forall>t \<in> set GetAllTargets. Name t = X \<longrightarrow> (\<forall>l \<in> set (Links t).
                   IsSymlinkValid s1 (Target l) (Source l)
                 \<and> IsSymlinkValid (snd (CreateTargetSymlinks X s1)) (Target l) (Source l)))))
       \<and> (RemoveTargetSymlinks X s = (None, s') \<longrightarrow> RemoveTargetSymlinks X s' = (None, s'))"
proof (intro conjI impI)
  assume first: "CreateTargetSymlinks X s = (None, s1)"
  from CreateTargetSymlinks_first[OF valid plain first] obtain src tgt sC q s2 where
    lk: "\<forall>t \<in> set GetAllTargets. Name t = X \<longrightarrow> Links t = [\<lparr>Source = src, Target = tgt\<rparr>]"
    and kC: "keeps s sC" and q: "resolve sC False tgt = Inr q"
    and n1: "nodes s1 = (nodes sC)(q \<mapsto> Symlink src)" and c1: "cwd s1 = cwd sC"
    and dC: "nodes sC (cwd sC) = Some Dir" "nodes sC (cwd sC @ [''.amazonq'']) = Some Dir"
      "nodes sC (cwd sC @ [''.amazonq'', ''rules'']) = Some Dir"
    and mk1: "os_MkdirAll ''.amazonq/rules'' s1 = (None, s1)"
    and again: "createSymlink src tgt s1 = (None, s2)" "nodes s2 = nodes s1" "cwd s2 = cwd s1"
    and un: "\<forall>u. CreateTargetSymlinks X u =
            (case os_MkdirAll ''.amazonq/rules'' u of
               (Some e, u') \<Rightarrow> (Some (Wrapf ''failed to create directory .amazonq/rules'' (OSError e)), u')
             | (None, u') \<Rightarrow>
                 (case createSymlink src tgt u' of
                    (Some e, u'') \<Rightarrow> (Some (Wrapf ''failed to create symlink'' e), u'')
                  | (None, u'') \<Rightarrow> (None, u'')))"
    by blast
  from un mk1 again(1) have second: "CreateTargetSymlinks X s1 = (None, s2)" by simp
  with again show "fst (CreateTargetSymlinks X s1) = None"
    "nodes (snd (CreateTargetSymlinks X s1)) = nodes s1"
    "cwd (snd (CreateTargetSymlinks X s1)) = cwd s1" by simp_all
  assume rules: "os_Lstat s rulesFile = Inr (File c)"
  from plain have p: "nodes s (cwd s) = Some Dir" "\<not> isLink (nodes s (cwd s @ [''.viberules'']))"
    by (simp_all add: plainProject_def)
  from rules_file_real[OF p] rules
  have rs: "nodes s (cwd s @ [''.viberules'']) = Some Dir"
    "nodes s (cwd s @ [''.viberules'', ''rules.md'']) = Some (File c)"
    by (simp_all add: rulesFile_def)
  have cC: "cwd sC = cwd s" by (rule keeps_cwd[OF kC])
  have V: "nodes sC (cwd sC @ [''.viberules'']) = Some Dir"
    and F: "nodes sC (cwd sC @ [''.viberules'', ''rules.md'']) = Some (File c)"
    using keeps_node[OF kC rs(1)] keeps_file[OF kC rs(2)] cC by simp_all
  show "\<forall>t \<in> set GetAllTargets. Name t = X \<longrightarrow> (\<forall>l \<in> set (Links t).
                   IsSymlinkValid s1 (Target l) (Source l)
                 \<and> IsSymlinkValid (snd (CreateTargetSymlinks X s1)) (Target l) (Source l))"
  proof (intro ballI impI)
    fix t l assume t: "t \<in> set GetAllTargets" "Name t = X" and l: "l \<in> set (Links t)"
    from lk t l have sl: "Source l = src" "Target l = tgt" by auto
    note paths = valid_target_paths[OF valid t l]
    have "IsSymlinkValid s1 tgt src"
    proof (cases "Source l = ''.viberules/rules.md''")
      case a: True
      with paths have b: "Target l = ''CLAUDE.md'' \<or> Target l = ''GEMINI.md'' \<or> Target l = ''AGENTS.md''"
        by auto
      from a sl n1 have n1': "nodes s1 = (nodes sC)(q \<mapsto> Symlink ''.viberules/rules.md'')" by simp
      from b sl have b': "tgt = ''CLAUDE.md'' \<or> tgt = ''GEMINI.md'' \<or> tgt = ''AGENTS.md''" by simp
      have "IsSymlinkValid s1 tgt ''.viberules/rules.md''"
        by (rule root_link_valid[OF dC(1) V F q n1' c1 b'])
      with a sl show ?thesis by simp
    next
      case False
      with paths have a: "Source l = ''../../.viberules/rules.md''"
        and b: "Target l = ''.amazonq/rules/AMAZONQ.md''" by auto
      from a sl n1 have n1': "nodes s1 = (nodes sC)(q \<mapsto> Symlink ''../../.viberules/rules.md'')"
        by simp
      from b sl q have q': "resolve sC False ''.amazonq/rules/AMAZONQ.md'' = Inr q" by simp
      have "IsSymlinkValid s1 ''.amazonq/rules/AMAZONQ.md'' ''../../.viberules/rules.md''"
        by (rule nested_link_valid[OF dC(1) V F dC(2,3) q' n1' c1])
      with a b sl show ?thesis by simp
    qed
    with sl second IsSymlinkValid_cong[OF again(2,3)]
    show "IsSymlinkValid s1 (Target l) (Source l)
        \<and> IsSymlinkValid (snd (CreateTargetSymlinks X s1)) (Target l) (Source l)"
      by simp
  qed
next
  assume rm: "RemoveTargetSymlinks X s = (None, s')"
  from valid_target_link[OF valid] obtain src tgt where
    ct: "Clean tgt = tgt"
    and un: "\<forall>u. RemoveTargetSymlinks X u =
            (case removeSymlink tgt u of
               (Some e, u') \<Rightarrow> (Some (Wrapf ''failed to remove symlink'' e), u')
             | (None, u') \<Rightarrow> (None, u'))"
    by blast
  obtain r1 u1 where r: "removeSymlink tgt s = (r1, u1)" by (cases "removeSymlink tgt s") auto
  with rm un have "removeSymlink tgt s = (None, s')" by (cases r1) auto
  from removeSymlink_then_absent[OF this] ct have "os_Lstat s' (Clean tgt) = Inl ENOENT" by simp
  then have "removeSymlink tgt s' = (None, s')" by (rule removeSymlink_absent)
  with un show "RemoveTargetSymlinks X s' = (None, s')" by simp
qed

lemma rules_create_amazonq:
  "CreateTargetSymlinks ''amazonq'' rulesProject
   = (None, rulesProject\<lparr>nodes := (nodes rulesProject)
        ([''home'', ''proj'', ''.amazonq''] \<mapsto> Dir,
         [''home'', ''proj'', ''.amazonq'', ''rules''] \<mapsto> Dir,
         [''home'', ''proj'', ''.amazonq'', ''rules'', ''AMAZONQ.md''] \<mapsto>
            Symlink ''../../.viberules/rules.md''),
      trace := [EvMkdir ''.amazonq'', EvMkdir ''.amazonq/rules'',
                EvSymlink ''../../.viberules/rules.md'' ''.amazonq/rules/AMAZONQ.md'']\<rparr>)"
  by (simp add: example_defs registry_defs link_defs path_defs stat_defs os_MkdirAll.simps)

lemma example_remove_claude:
  "RemoveTargetSymlinks ''claude'' exampleProject
   = (None, exampleProject\<lparr>nodes := (nodes exampleProject)([''home'', ''proj'', ''CLAUDE.md''] := None),
      trace := [EvRemove ''CLAUDE.md'']\<rparr>)"
  by (simp add: example_defs registry_defs link_defs path_defs stat_defs)

lemma blocked_create:
  "CreateTargetSymlinks ''claude'' blockedProject
   = (Some (Wrapf ''failed to create symlink'' (Errorf ''refusing to remove CLAUDE.md: not a symlink'')),
      blockedProject\<lparr>nodes := (nodes blockedProject)
        ([''home'', ''proj'', ''.amazonq''] \<mapsto> Dir,
         [''home'', ''proj'', ''.amazonq'', ''rules''] \<mapsto> Dir),
      trace := [EvMkdir ''.amazonq'', EvMkdir ''.amazonq/rules'']\<rparr>)"
  by (simp add: blockedProject_def geminiOnlyProject_def example_defs registry_defs link_defs
      path_defs stat_defs os_MkdirAll.simps)

lemma blocked_create_again:
  "fst (CreateTargetSymlinks ''claude'' (snd (CreateTargetSymlinks ''claude'' blockedProject)))
   = Some (Wrapf ''failed to create symlink'' (Errorf ''refusing to remove CLAUDE.md: not a symlink''))"
  unfolding blocked_create
  by (simp add: blockedProject_def geminiOnlyProject_def example_defs registry_defs link_defs
      path_defs stat_defs os_MkdirAll.simps)

lemma looped_create:
  "CreateTargetSymlinks ''claude'' loopedProject
   = (None, loopedProject\<lparr>nodes := (nodes loopedProject)
        ([''home'', ''proj'', ''CLAUDE.md''] \<mapsto> Symlink ''.viberules/rules.md''),
      trace := [EvRemove ''CLAUDE.md'', EvSymlink ''.viberules/rules.md'' ''CLAUDE.md'']\<rparr>)"
  by (simp add: loopedProject_def example_defs registry_defs link_defs
      path_defs stat_defs os_MkdirAll.simps)

lemma looped_create_again:
  "fst (CreateTargetSymlinks ''claude'' (snd (CreateTargetSymlinks ''claude'' loopedProject)))
   = Some (Wrapf ''failed to create directory .amazonq/rules'' (OSError ENOTDIR))"
  unfolding looped_create
  by (simp add: loopedProject_def example_defs registry_defs link_defs
      path_defs stat_defs os_MkdirAll.simps)

theorem CreateTargetSymlinks_twice_witness:
  "isValidTarget ''amazonq'' \<and> plainProject rulesProject
   \<and> os_Lstat rulesProject rulesFile = Inr (File ''# rules'')
   \<and> fst (CreateTargetSymlinks ''amazonq'' rulesProject) = None
   \<and> fst (CreateTargetSymlinks ''amazonq'' (snd (CreateTargetSymlinks ''amazonq'' rulesProject))) = None
   \<and> nodes (snd (CreateTargetSymlinks ''amazonq'' (snd (CreateTargetSymlinks ''amazonq'' rulesProject))))
       = nodes (snd (CreateTargetSymlinks ''amazonq'' rulesProject))
   \<and> IsSymlinkValid (snd (CreateTargetSymlinks ''amazonq'' rulesProject))
         ''.amazonq/rules/AMAZONQ.md'' ''../../.viberules/rules.md''
   \<and> isValidTarget ''claude'' \<and> plainProject exampleProject
   \<and> fst (RemoveTargetSymlinks ''claude'' exampleProject) = None
   \<and> RemoveTargetSymlinks ''claude'' (snd (RemoveTargetSymlinks ''claude'' exampleProject))
       = (None, snd (RemoveTargetSymlinks ''claude'' exampleProject))"
proof -
  define s1 where "s1 = snd (CreateTargetSymlinks ''amazonq'' rulesProject)"
  define u1 where "u1 = snd (RemoveTargetSymlinks ''claude'' exampleProject)"
  have v: "isValidTarget ''amazonq''" and v2: "isValidTarget ''claude''"
    by (simp_all add: isValidTarget_def)
  have p: "plainProject rulesProject" and p2: "plainProject exampleProject"
    by (simp_all add: plainProject_def example_defs)
  have r: "os_Lstat rulesProject rulesFile = Inr (File ''# rules'')"
    by (simp add: rulesFile_def example_defs stat_defs IsAbs_def)
  have first: "CreateTargetSymlinks ''amazonq'' rulesProject = (None, s1)"
    unfolding s1_def rules_create_amazonq by simp
  have rm: "RemoveTargetSymlinks ''claude'' exampleProject = (None, u1)"
    unfolding u1_def example_remove_claude by simp
  have t: "\<lparr>Name = ''amazonq'', Links = [\<lparr>Source = ''../../.viberules/rules.md'',
              Target = ''.amazonq/rules/AMAZONQ.md''\<rparr>]\<rparr> \<in> set GetAllTargets"
    by (simp add: GetAllTargets_eq)
  from CreateTargetSymlinks_twice[OF v p, of s1 "''# rules''" rulesProject] first r
  have a: "fst (CreateTargetSymlinks ''amazonq'' s1) = None"
    and b: "nodes (snd (CreateTargetSymlinks ''amazonq'' s1)) = nodes s1"
    and c: "\<forall>t \<in> set GetAllTargets. Name t = ''amazonq'' \<longrightarrow> (\<forall>l \<in> set (Links t).
                   IsSymlinkValid s1 (Target l) (Source l)
                 \<and> IsSymlinkValid (snd (CreateTargetSymlinks ''amazonq'' s1)) (Target l) (Source l))"
    by simp_all
  from bspec[OF c t]
  have d: "IsSymlinkValid s1 ''.amazonq/rules/AMAZONQ.md'' ''../../.viberules/rules.md''" by simp
  from CreateTargetSymlinks_twice[OF v2 p2, of exampleProject "[]" u1] rm
  have e: "RemoveTargetSymlinks ''claude'' u1 = (None, u1)" by simp
  have f1: "fst (CreateTargetSymlinks ''amazonq'' rulesProject) = None"
    unfolding rules_create_amazonq by simp
  have f2: "fst (RemoveTargetSymlinks ''claude'' exampleProject) = None"
    unfolding example_remove_claude by simp
  from v v2 p p2 r f1 f2 a b d e show ?thesis
    unfolding s1_def u1_def by simp
qed

text \<open>
  Claim C6 as stated fails where a regular file is at the place of the link: the first call
  refuses to remove it and so does the second, which therefore returns an error. It also
  fails in a project that is not plain: when \<open>.amazonq\<close> is a symlink that leads through the
  old link of the target, the first call succeeds and replaces that link, after which the
  required directory is no longer reached and the second call fails.
\<close>

theorem CreateTargetSymlinks_twice_counterexample:
  "isValidTarget ''claude''
   \<and> fileExists blockedProject rulesFile
   \<and> fst (CreateTargetSymlinks ''claude'' (snd (CreateTargetSymlinks ''claude'' blockedProject)))
       = Some (Wrapf ''failed to create symlink''
                 (Errorf ''refusing to remove CLAUDE.md: not a symlink''))
   \<and> fileExists loopedProject rulesFile
   \<and> fst (CreateTargetSymlinks ''claude'' loopedProject) = None
   \<and> fst (CreateTargetSymlinks ''claude'' (snd (CreateTargetSymlinks ''claude'' loopedProject)))
       = Some (Wrapf ''failed to create directory .amazonq/rules'' (OSError ENOTDIR))"
proof -
  have "isValidTarget ''claude''" by (simp add: isValidTarget_def)
  moreover have "fileExists blockedProject rulesFile"
    by (simp add: fileExists_def rulesFile_def blockedProject_def geminiOnlyProject_def
        example_defs stat_defs IsAbs_def)
  moreover have "fileExists loopedProject rulesFile"
    by (simp add: fileExists_def rulesFile_def loopedProject_def example_defs stat_defs IsAbs_def)
  moreover have "fst (CreateTargetSymlinks ''claude'' loopedProject) = None"
    unfolding looped_create by simp
  ultimately show ?thesis using blocked_create_again looped_create_again by simp
qed

section \<open>Removing a target\<close>

lemma loadConfig_mode:
  assumes "loadConfig Y s = Inr cfg"
  shows "Mode cfg = ''local'' \<or> Mode cfg = ''public''"
  using assms
  by (auto simp: loadConfig_def defaultConfig_def split: if_splits sum.splits option.splits)

lemma saveConfig_success:
  assumes "saveConfig Y c s = (None, s1)"
  shows "\<exists>x q. Marshal Y c = Some x \<and> (nodes s q = None \<or> (\<exists>old. nodes s q = Some (File old)))
           \<and> nodes s1 = (nodes s)(q \<mapsto> File x) \<and> cwd s1 = cwd s
           \<and> os_Stat s1 configPath = Inr (File x)"
proof (cases "Marshal Y c")
  case None
  with assms show ?thesis by (simp add: saveConfig_def)
next
  case (Some x)
  with assms have w: "os_WriteFile configPath x s = (None, s1)"
    by (auto simp: saveConfig_def split: prod.splits option.splits)
  from os_WriteFile_result[OF w] obtain q where
    "nodes s q = None \<or> (\<exists>old. nodes s q = Some (File old))"
    "s1 = s\<lparr>nodes := (nodes s)(q \<mapsto> File x), trace := trace s @ [EvWriteFile configPath]\<rparr>"
    by auto
  with Some os_WriteFile_then_Stat[OF w] show ?thesis by auto
qed

lemma config_file_real:
  assumes "nodes t (cwd t) = Some Dir"
    and "\<not> isLink (nodes t (cwd t @ [''.viberules'']))"
    and "\<not> isLink (nodes t (cwd t @ [''.viberules'', ''.config.yaml'']))"
    and "os_Stat t configPath = Inr (File x)"
  shows "nodes t (cwd t @ [''.viberules'']) = Some Dir
       \<and> nodes t (cwd t @ [''.viberules'', ''.config.yaml'']) = Some (File x)"
  using isLink_cases[OF assms(2)] isLink_cases[OF assms(3)] assms(1,4)
  by (auto simp: os_Stat_def resolve_def IsAbs_def maxSymlinks_def configPath_def
      split: option.splits)

lemma config_file_stat:
  assumes "nodes t (cwd t) = Some Dir"
    and "nodes t (cwd t @ [''.viberules'']) = Some Dir"
    and "nodes t (cwd t @ [''.viberules'', ''.config.yaml'']) = Some (File x)"
  shows "os_Stat t configPath = Inr (File x)"
  using assms by (simp add: os_Stat_def resolve_def IsAbs_def maxSymlinks_def configPath_def)

lemma removeTarget_found:
  assumes valid: "isValidTarget X"
    and load: "loadConfig Y s = Inr cfg"
    and found: "X \<in> set (Targets cfg)"
    and ok: "removeTarget Y X s = (None, s')"
  shows "\<exists>s1. saveConfig Y (cfg\<lparr>Targets := filter (\<lambda>enabled. enabled \<noteq> X) (Targets cfg)\<rparr>) s = (None, s1)
            \<and> RemoveTargetSymlinks X s1 = (None, s')"
proof -
  let ?c = "cfg\<lparr>Targets := filter (\<lambda>enabled. enabled \<noteq> X) (Targets cfg)\<rparr>"
  obtain r1 s1 where sv: "saveConfig Y ?c s = (r1, s1)" by (cases "saveConfig Y ?c s") auto
  obtain r2 s2 where rm: "RemoveTargetSymlinks X s1 = (r2, s2)"
    by (cases "RemoveTargetSymlinks X s1") auto
  from ok valid load found sv have r1: "r1 = None"
    by (cases r1) (auto simp: removeTarget_def Let_def loadEnabledTargets_def saveEnabledTargets_def)
  with ok valid load found sv rm have "r2 = None \<and> s2 = s'"
    by (cases r2) (auto simp: removeTarget_def Let_def loadEnabledTargets_def saveEnabledTargets_def)
  with sv r1 rm show ?thesis by auto
qed

text \<open>
  Claim C9, as amended. Let \<open>X\<close> be a valid target name and let the config load. When \<open>X\<close> is
  not enabled, \<open>removeTarget X\<close> succeeds and changes nothing (a link of \<open>X\<close> that is there
  stays). When \<open>X\<close> is enabled and \<open>removeTarget X\<close> succeeds, every link of \<open>X\<close> is absent
  afterwards; and, in a plain project, when the library reads back what it wrote for the new
  config and that is at most 1 MiB, the enabled-target list afterwards is the old one without
  \<open>X\<close>, in the old order.
\<close>

theorem removeTarget_spec:
  assumes valid: "isValidTarget X"
    and load: "loadConfig Y s = Inr cfg"
  shows "(X \<notin> set (Targets cfg) \<longrightarrow> removeTarget Y X s = (None, s))
       \<and> (X \<in> set (Targets cfg) \<and> removeTarget Y X s = (None, s') \<longrightarrow>
            (\<forall>t \<in> set GetAllTargets. Name t = X \<longrightarrow>
                (\<forall>l \<in> set (Links t). os_Lstat s' (Target l) = Inl ENOENT))
          \<and> (plainProject s
              \<and> Marshal Y (cfg\<lparr>Targets := filter (\<lambda>enabled. enabled \<noteq> X) (Targets cfg)\<rparr>) = Some x
              \<and> Unmarshal Y x = Some (cfg\<lparr>Targets := filter (\<lambda>enabled. enabled \<noteq> X) (Targets cfg)\<rparr>)
              \<and> length x \<le> 1024 * 1024
              \<longrightarrow> loadEnabledTargets Y s' = Inr (filter (\<lambda>enabled. enabled \<noteq> X) (Targets cfg))
                  \<and> X \<notin> set (filter (\<lambda>enabled. enabled \<noteq> X) (Targets cfg))))"
proof (intro conjI impI)
  assume "X \<notin> set (Targets cfg)"
  with valid load show "removeTarget Y X s = (None, s)"
    by (simp add: removeTarget_def Let_def loadEnabledTargets_def)
next
  let ?c = "cfg\<lparr>Targets := filter (\<lambda>enabled. enabled \<noteq> X) (Targets cfg)\<rparr>"
  assume a: "X \<in> set (Targets cfg) \<and> removeTarget Y X s = (None, s')"
  from removeTarget_found[OF valid load] a obtain s1 where
    sv: "saveConfig Y ?c s = (None, s1)" and rm: "RemoveTargetSymlinks X s1 = (None, s')"
    by blast
  from valid_target_link[OF valid] obtain src tgt where
    ct: "Clean tgt = tgt"
    and lk: "\<forall>t \<in> set GetAllTargets. Name t = X \<longrightarrow> Links t = [\<lparr>Source = src, Target = tgt\<rparr>]"
    and un: "\<forall>u. RemoveTargetSymlinks X u =
            (case removeSymlink tgt u of
               (Some e, u') \<Rightarrow> (Some (Wrapf ''failed to remove symlink'' e), u')
             | (None, u') \<Rightarrow> (None, u'))"
    by blast
  obtain r1 u1 where "removeSymlink tgt s1 = (r1, u1)" by (cases "removeSymlink tgt s1") auto
  with rm un have "removeSymlink tgt s1 = (None, s')" by (cases r1) auto
  from removeSymlink_then_absent[OF this] ct have gone: "os_Lstat s' tgt = Inl ENOENT" by simp
  show "\<forall>t \<in> set GetAllTargets. Name t = X \<longrightarrow>
          (\<forall>l \<in> set (Links t). os_Lstat s' (Target l) = Inl ENOENT)"
  proof (intro ballI impI)
    fix t l assume "t \<in> set GetAllTargets" "Name t = X" "l \<in> set (Links t)"
    with lk have "Target l = tgt" by auto
    with gone show "os_Lstat s' (Target l) = Inl ENOENT" by simp
  qed
  assume b: "plainProject s \<and> Marshal Y ?c = Some x \<and> Unmarshal Y x = Some ?c
              \<and> length x \<le> 1024 * 1024"
  from saveConfig_success[OF sv] b obtain q where
    qn: "nodes s q = None \<or> (\<exists>old. nodes s q = Some (File old))"
    and n1: "nodes s1 = (nodes s)(q \<mapsto> File x)" and c1: "cwd s1 = cwd s"
    and st: "os_Stat s1 configPath = Inr (File x)"
    by auto
  from b have p: "nodes s (cwd s) = Some Dir"
    "\<not> isLink (nodes s (cwd s @ [''.viberules'']))"
    "\<not> isLink (nodes s (cwd s @ [''.viberules'', ''.config.yaml'']))"
    by (simp_all add: plainProject_def)
  from p(1) qn have "q \<noteq> cwd s" by auto
  with p(1) have d1: "nodes s1 (cwd s1) = Some Dir" by (simp add: n1 c1)
  have l1: "\<not> isLink (nodes s1 (cwd s1 @ [''.viberules'']))"
    "\<not> isLink (nodes s1 (cwd s1 @ [''.viberules'', ''.config.yaml'']))"
    using p(2,3) by (simp_all add: n1 c1)
  from config_file_real[OF d1 l1 st]
  have r1: "nodes s1 (cwd s1 @ [''.viberules'']) = Some Dir"
    "nodes s1 (cwd s1 @ [''.viberules'', ''.config.yaml'']) = Some (File x)" by simp_all
  from RemoveTargetSymlinks_effect[OF rm] have k: "keeps s1 s'" by simp
  have c': "cwd s' = cwd s1" by (rule keeps_cwd[OF k])
  have st': "os_Stat s' configPath = Inr (File x)"
    by (rule config_file_stat)
       (simp_all add: c' keeps_node[OF k d1] keeps_node[OF k r1(1)] keeps_file[OF k r1(2)])
  from loadConfig_mode[OF load] have md: "Mode ?c = ''local'' \<or> Mode ?c = ''public''" by simp
  from b have b3: "Unmarshal Y x = Some ?c" and b4: "length x \<le> 1024 * 1024" by simp_all
  have "loadConfig Y s' = Inr ?c"
    by (rule loadConfig_of_file[OF st' b4 b3 md])
  then show "loadEnabledTargets Y s' = Inr (filter (\<lambda>enabled. enabled \<noteq> X) (Targets cfg))"
    by (simp add: loadEnabledTargets_def)
  show "X \<notin> set (filter (\<lambda>enabled. enabled \<noteq> X) (Targets cfg))" by simp
qed

lemma example_remove_target:
  "removeTarget plainYaml ''claude'' exampleProject
   = (None, exampleProject\<lparr>nodes := (nodes exampleProject)
        ([''home'', ''proj'', ''.viberules'', ''.config.yaml''] \<mapsto>
           File ''mode: local\<newline>targets:\<newline>    - amazonq\<newline>    - gemini\<newline>    - codex\<newline>'',
         [''home'', ''proj'', ''CLAUDE.md''] := None),
      trace := [EvWriteFile ''.viberules/.config.yaml'', EvRemove ''CLAUDE.md'']\<rparr>)"
  by (simp add: removeTarget_def defaultConfig_def example_defs registry_defs link_defs config_defs
      path_defs stat_defs)

lemma stray_remove_target:
  "removeTarget plainYaml ''claude'' strayLinkProject = (None, strayLinkProject)"
  by (simp add: removeTarget_def strayLinkProject_def geminiOnlyProject_def example_defs
      config_defs stat_defs IsAbs_def)

theorem removeTarget_spec_witness:
  "isValidTarget ''claude''
   \<and> loadConfig plainYaml exampleProject = Inr defaultConfig
   \<and> ''claude'' \<in> set (Targets defaultConfig)
   \<and> fst (removeTarget plainYaml ''claude'' exampleProject) = None
   \<and> plainProject exampleProject
   \<and> Unmarshal plainYaml ''mode: local\<newline>targets:\<newline>    - amazonq\<newline>    - gemini\<newline>    - codex\<newline>''
       = Some \<lparr>Mode = ''local'', Targets = [''amazonq'', ''gemini'', ''codex'']\<rparr>
   \<and> os_Lstat (snd (removeTarget plainYaml ''claude'' exampleProject)) ''CLAUDE.md'' = Inl ENOENT
   \<and> loadEnabledTargets plainYaml (snd (removeTarget plainYaml ''claude'' exampleProject))
       = Inr [''amazonq'', ''gemini'', ''codex'']
   \<and> loadConfig plainYaml geminiOnlyProject = Inr \<lparr>Mode = ''local'', Targets = [''gemini'']\<rparr>
   \<and> removeTarget plainYaml ''claude'' geminiOnlyProject = (None, geminiOnlyProject)"
proof -
  define s' where "s' = snd (removeTarget plainYaml ''claude'' exampleProject)"
  let ?x = "''mode: local\<newline>targets:\<newline>    - amazonq\<newline>    - gemini\<newline>    - codex\<newline>''"
  let ?c = "\<lparr>Mode = ''local'', Targets = [''amazonq'', ''gemini'', ''codex'']\<rparr>"
  have v: "isValidTarget ''claude''" by (simp add: isValidTarget_def)
  have l: "loadConfig plainYaml exampleProject = Inr defaultConfig"
    by (simp add: loadConfig_def fileExists_def configPath_def example_defs stat_defs IsAbs_def)
  have m: "''claude'' \<in> set (Targets defaultConfig)" by (simp add: defaultConfig_def)
  have f: "fst (removeTarget plainYaml ''claude'' exampleProject) = None"
    unfolding example_remove_target by simp
  have ok: "removeTarget plainYaml ''claude'' exampleProject = (None, s')"
    unfolding s'_def example_remove_target by simp
  have p: "plainProject exampleProject" by (simp add: plainProject_def example_defs)
  have c: "defaultConfig\<lparr>Targets := filter (\<lambda>enabled. enabled \<noteq> ''claude'') (Targets defaultConfig)\<rparr> = ?c"
    by (simp add: defaultConfig_def)
  have ma: "Marshal plainYaml ?c = Some ?x" by (simp add: plainYaml_def)
  have u: "Unmarshal plainYaml ?x = Some ?c" by (simp add: plainYaml_def)
  have t: "\<lparr>Name = ''claude'', Links = [\<lparr>Source = ''.viberules/rules.md'', Target = ''CLAUDE.md''\<rparr>]\<rparr>
             \<in> set GetAllTargets"
    by (simp add: GetAllTargets_eq)
  from removeTarget_spec[OF v l, of s' ?x] m ok p c ma u
  have a: "\<forall>t \<in> set GetAllTargets. Name t = ''claude'' \<longrightarrow>
                (\<forall>l \<in> set (Links t). os_Lstat s' (Target l) = Inl ENOENT)"
    and b: "loadEnabledTargets plainYaml s' = Inr [''amazonq'', ''gemini'', ''codex'']"
    by (simp_all add: defaultConfig_def)
  from bspec[OF a t] have g: "os_Lstat s' ''CLAUDE.md'' = Inl ENOENT" by simp
  have l2: "loadConfig plainYaml geminiOnlyProject = Inr \<lparr>Mode = ''local'', Targets = [''gemini'']\<rparr>"
    by (simp add: geminiOnlyProject_def example_defs config_defs stat_defs IsAbs_def)
  from removeTarget_spec[OF v l2, of geminiOnlyProject "[]"]
  have n: "removeTarget plainYaml ''claude'' geminiOnlyProject = (None, geminiOnlyProject)" by simp
  from v l m f p u g b l2 n show ?thesis unfolding s'_def by simp
qed

text \<open>
  Claim C9 as stated fails when \<open>X\<close> is not enabled while a link of \<open>X\<close> is there:
  \<open>removeTarget\<close> finds \<open>X\<close> missing from the list, reports success and leaves the link.
\<close>

theorem removeTarget_spec_counterexample:
  "isValidTarget ''claude''
   \<and> loadEnabledTargets plainYaml strayLinkProject = Inr [''gemini'']
   \<and> removeTarget plainYaml ''claude'' strayLinkProject = (None, strayLinkProject)
   \<and> os_Lstat (snd (removeTarget plainYaml ''claude'' strayLinkProject)) ''CLAUDE.md''
       = Inr (Symlink ''.viberules/rules.md'')"
proof -
  have "isValidTarget ''claude''" by (simp add: isValidTarget_def)
  moreover have "loadEnabledTargets plainYaml strayLinkProject = Inr [''gemini'']"
    by (simp add: strayLinkProject_def geminiOnlyProject_def example_defs config_defs stat_defs
        IsAbs_def)
  moreover have "os_Lstat strayLinkProject ''CLAUDE.md'' = Inr (Symlink ''.viberules/rules.md'')"
    by (simp add: strayLinkProject_def geminiOnlyProject_def example_defs stat_defs IsAbs_def)
  ultimately show ?thesis by (simp add: stray_remove_target)
qed

end
